(* ===== verification/Uc_Prelude.thy ===== *)
theory Uc_Prelude
  imports Main "HOL-Library.Finite_Map" "HOL-Library.Word" "HOL-Library.Code_Target_Nat"
begin

text \<open>
  Shared vocabulary of the development: the Go types the client uses (byte slices, errors,
  mutexes, clock values), the simplification collections the component theories extend, and
  the generic lemmas on lists and finite maps their proofs rest on.
\<close>

section \<open>Types\<close>

text \<open>A Go \<open>string\<close> and a \<open>[]byte\<close> are both sequences of 8-bit units, so both are lists of
  \<^typ>\<open>char\<close>. Where the source tells \<open>nil\<close> from an empty slice the type is \<open>bytes option\<close>.\<close>

type_synonym bytes = string

text \<open>Instants (Unix nanoseconds) and durations (nanoseconds).\<close>

type_synonym instant = int
type_synonym duration = int

abbreviation Millisecond :: duration where "Millisecond \<equiv> 1000000"
abbreviation Second :: duration where "Second \<equiv> 1000000000"
abbreviation Minute :: duration where "Minute \<equiv> 60000000000"

text \<open>
  The errors of the client. \<open>EMsg\<close> is \<open>errors.New\<close> (or a \<open>fmt.Errorf\<close> with no wrapped
  error, named by its constant text), \<open>EFmt\<close> is \<open>fmt.Errorf\<close> with one printed value, \<open>EWrap\<close> is \<open>fmt.Errorf\<close> with \<open>%w\<close>; the others are the
  sentinel errors that callers compare with \<open>errors.Is\<close>. \<open>EOS\<close> stands for an error value the
  operating system returned.
\<close>

datatype go_error =
    EMsg string
  | EFmt string bytes
  | EWrap string go_error
  | EOS string
  | ErrQueueFull
  | ErrQueueClosed
  | ErrInvalidPriority
  | ErrInvalidStateTransition
  | ErrAlreadyTerminal
  | ErrTransactionNotFound
  | ErrDuplicateRequest
  | ErrStateLockBusy
  | ErrOperationNotActive
  | ErrOperationReleaseInProgress
  | ErrCapacityExceeded
  | ErrHandoffInProgress
  | CachedResponseError bytes
  | ErrCanceled
  | ErrDeadlineExceeded

type_synonym 'a result = "go_error + 'a"

text \<open>\<open>errors.Is\<close>: a sentinel is found through any number of \<open>%w\<close> wrappings.\<close>

fun errors_Is :: "go_error \<Rightarrow> go_error \<Rightarrow> bool" where
  "errors_Is (EWrap m e) target = (EWrap m e = target \<or> errors_Is e target)"
| "errors_Is e target = (e = target)"

text \<open>
  A \<open>sync.Mutex\<close> that is only used through \<open>TryLock\<close> and \<open>Unlock\<close>. Unlocking an unlocked
  mutex is a fatal run-time error in Go, which no \<open>recover\<close> catches: it is the value
  \<open>MFatal\<close>, from which no operation leads back.
\<close>

datatype go_mutex = MUnlocked | MLocked | MFatal

fun mutex_TryLock :: "go_mutex \<Rightarrow> go_mutex \<times> bool" where
  "mutex_TryLock MUnlocked = (MLocked, True)"
| "mutex_TryLock m = (m, False)"

fun mutex_Unlock :: "go_mutex \<Rightarrow> go_mutex" where
  "mutex_Unlock MLocked = MUnlocked"
| "mutex_Unlock m = MFatal"

text \<open>The outcome of code that can panic at run time (an index out of range, an explicit
  \<open>panic\<close>).\<close>

datatype 'a go = Ret 'a | Panic

section \<open>Collections of simplification rules\<close>

named_theorems queue_defs
named_theorems mgr_defs
named_theorems store_defs

section \<open>Lists\<close>

lemma map_nth_list_update:
  "j \<notin> set is \<Longrightarrow> map ((!) (xs[j := v])) is = map ((!) xs) is"
  by (induction "is") auto

lemma foldr_invariant:
  "P a \<Longrightarrow> (\<And>x b. x \<in> set xs \<Longrightarrow> P b \<Longrightarrow> P (f x b)) \<Longrightarrow> P (foldr f xs a)"
  by (induction xs) auto

lemma fold_keeps:
  "P a \<Longrightarrow> (\<And>x b. x \<in> set xs \<Longrightarrow> P b \<Longrightarrow> P (f x b)) \<Longrightarrow> P (fold f xs a)"
  by (induction xs arbitrary: a) auto

section \<open>Positions on a ring\<close>

lemma ring_pos_inj:
  fixes c h i j :: nat
  assumes "i < c" and "j < c" and "(h + i) mod c = (h + j) mod c"
  shows "i = j"
proof (rule ccontr)
  assume "i \<noteq> j"
  moreover have False if "a < b" "b < c" "(h + a) mod c = (h + b) mod c" for a b
  proof -
    from that(3) have "c dvd (h + b) - (h + a)"
      using mod_eq_dvd_iff_nat [of "h + a" "h + b" c] that(1) by simp
    with that(1,2) show False by (auto dest: dvd_imp_le)
  qed
  ultimately show False
    using assms by (metis linorder_neqE_nat)
qed

lemma ring_pos_shift: "((h + 1) mod c + i) mod c = (h + Suc i) mod (c::nat)"
  by (simp add: mod_add_left_eq)

section \<open>Finite maps\<close>

lemma fmdom_fmupd_card:
  "fcard (fmdom (fmupd k v m)) = (if k |\<in>| fmdom m then fcard (fmdom m) else Suc (fcard (fmdom m)))"
  by (auto simp: fcard_finsert_if)

lemma fmdrop_card_le: "fcard (fmdom (fmdrop k m)) \<le> fcard (fmdom m)"
  by (metis fcard_mono fmdom_drop fminus_fsubset_conv fsubset_funion_eq funion_upper2)

lemma fmlookup_dom_some: "k |\<in>| fmdom m \<longleftrightarrow> (\<exists>v. fmlookup m k = Some v)"
  by (metis fmlookup_dom_iff)

end
