(* ===== verification/Buffers.thy ===== *)
theory Buffers
  imports Uc_Prelude
begin

text \<open>
  The bounded buffers of \<open>src/pkg/queues\<close>: the telemetry ring buffer (\<open>buffer.go\<close>), the NATS
  dispatch buffer and the command result queue (\<open>results.go\<close>). The two contracts they
  implement, a FIFO buffer that refuses when full and one that drops its oldest entry, are
  locales over an abstract content list; each buffer is an interpretation.
\<close>

section \<open>The contracts\<close>

text \<open>Popping up to \<open>n\<close> entries with a given \<open>pop\<close>.\<close>

primrec drain :: "('q \<Rightarrow> ('a option \<times> 'q) go) \<Rightarrow> nat \<Rightarrow> 'q \<Rightarrow> ('a list \<times> 'q) go" where
  "drain pop 0 q = Ret ([], q)"
| "drain pop (Suc n) q =
     (case pop q of
        Panic \<Rightarrow> Panic
      | Ret (None, q') \<Rightarrow> Ret ([], q')
      | Ret (Some x, q') \<Rightarrow>
          (case drain pop n q' of Panic \<Rightarrow> Panic | Ret (xs, q'') \<Rightarrow> Ret (x # xs, q'')))"

text \<open>Pushing a list of entries with a dropping \<open>push\<close>, counting the drops.\<close>

primrec push_all :: "('a \<Rightarrow> 'q \<Rightarrow> ('q \<times> bool) go) \<Rightarrow> 'a list \<Rightarrow> 'q \<Rightarrow> ('q \<times> nat) go" where
  "push_all push [] q = Ret (q, 0)"
| "push_all push (x # xs) q =
     (case push x q of
        Panic \<Rightarrow> Panic
      | Ret (q', d) \<Rightarrow>
          (case push_all push xs q' of
             Panic \<Rightarrow> Panic
           | Ret (q'', n) \<Rightarrow> Ret (q'', (if d then 1 else 0) + n)))"

text \<open>Offering a list of entries to a refusing \<open>push\<close>: a refused entry is lost to the caller's error
  path.\<close>

primrec offer_all :: "('a \<Rightarrow> 'q \<Rightarrow> 'q result) \<Rightarrow> 'a list \<Rightarrow> 'q \<Rightarrow> 'q" where
  "offer_all push [] q = q"
| "offer_all push (x # xs) q =
     offer_all push xs (case push x q of Inl e \<Rightarrow> q | Inr q' \<Rightarrow> q')"

locale fifo_buffer =
  fixes invar :: "'q \<Rightarrow> bool"
    and items :: "'q \<Rightarrow> 'a list"
    and cap :: "'q \<Rightarrow> nat"
    and pop :: "'q \<Rightarrow> ('a option \<times> 'q) go"
  assumes bound: "invar q \<Longrightarrow> length (items q) \<le> cap q"
    and cap_pos: "invar q \<Longrightarrow> 0 < cap q"
    and pop_empty: "invar q \<Longrightarrow> items q = [] \<Longrightarrow> pop q = Ret (None, q)"
    and pop_first: "invar q \<Longrightarrow> items q = x # xs \<Longrightarrow>
          \<exists>q'. pop q = Ret (Some x, q') \<and> invar q' \<and> items q' = xs \<and> cap q' = cap q"
begin

lemma drain_take:
  "invar q \<Longrightarrow> \<exists>q'. drain pop n q = Ret (take n (items q), q') \<and> invar q'
      \<and> items q' = drop n (items q) \<and> cap q' = cap q"
proof (induction n arbitrary: q)
  case 0
  then show ?case by simp
next
  case (Suc n)
  show ?case
  proof (cases "items q")
    case Nil
    with Suc.prems show ?thesis by (simp add: pop_empty)
  next
    case (Cons x xs)
    with Suc.prems obtain q1 where q1: "pop q = Ret (Some x, q1)" "invar q1" "items q1 = xs"
      "cap q1 = cap q"
      using pop_first by blast
    with Suc.IH [of q1] Cons show ?thesis by auto
  qed
qed

end

locale rejecting_fifo = fifo_buffer invar items cap pop
  for invar :: "'q \<Rightarrow> bool" and items :: "'q \<Rightarrow> 'a list" and cap :: "'q \<Rightarrow> nat"
    and pop :: "'q \<Rightarrow> ('a option \<times> 'q) go" +
  fixes push :: "'a \<Rightarrow> 'q \<Rightarrow> 'q result"
  assumes push_full: "invar q \<Longrightarrow> length (items q) = cap q \<Longrightarrow> push x q = Inl ErrQueueFull"
    and push_room: "invar q \<Longrightarrow> length (items q) < cap q \<Longrightarrow>
          \<exists>q'. push x q = Inr q' \<and> invar q' \<and> items q' = items q @ [x] \<and> cap q' = cap q"
begin

lemma push_cases:
  "invar q \<Longrightarrow>
     (push x q = Inl ErrQueueFull \<and> length (items q) = cap q) \<or>
     (\<exists>q'. push x q = Inr q' \<and> invar q' \<and> items q' = items q @ [x] \<and> cap q' = cap q
        \<and> length (items q') \<le> cap q')"
  using push_full [of q x] push_room [of q x] bound [of q]
  by (cases "length (items q) = cap q") auto

end

context rejecting_fifo
begin

lemma offer_all_oldest:
  "invar q \<Longrightarrow> invar (offer_all push xs q) \<and> cap (offer_all push xs q) = cap q
     \<and> items (offer_all push xs q) = take (cap q) (items q @ xs)"
proof (induction xs arbitrary: q)
  case Nil
  then show ?case using bound [of q] by simp
next
  case (Cons x xs)
  from push_cases [OF Cons.prems, of x] show ?case
  proof
    assume "push x q = Inl ErrQueueFull \<and> length (items q) = cap q"
    with Cons show ?thesis by simp
  next
    assume "\<exists>q'. push x q = Inr q' \<and> invar q' \<and> items q' = items q @ [x] \<and> cap q' = cap q
        \<and> length (items q') \<le> cap q'"
    with Cons.IH show ?thesis by (auto simp: take_Cons' Suc_le_eq)
  qed
qed

end

locale dropping_fifo = fifo_buffer invar items cap pop
  for invar :: "'q \<Rightarrow> bool" and items :: "'q \<Rightarrow> 'a list" and cap :: "'q \<Rightarrow> nat"
    and pop :: "'q \<Rightarrow> ('a option \<times> 'q) go" +
  fixes push :: "'a \<Rightarrow> 'q \<Rightarrow> ('q \<times> bool) go"
  assumes push_drop: "invar q \<Longrightarrow> length (items q) = cap q \<Longrightarrow>
          \<exists>q'. push x q = Ret (q', True) \<and> invar q' \<and> items q' = tl (items q) @ [x] \<and> cap q' = cap q"
    and push_room: "invar q \<Longrightarrow> length (items q) < cap q \<Longrightarrow>
          \<exists>q'. push x q = Ret (q', False) \<and> invar q' \<and> items q' = items q @ [x] \<and> cap q' = cap q"
begin

text \<open>After any number of pushes the buffer holds exactly the newest \<open>cap\<close> entries, and the
  number of reported drops is the number of entries that are gone.\<close>

lemma push_all_newest:
  "invar q \<Longrightarrow> \<exists>q'. push_all push xs q = Ret (q', length (items q) + length xs - cap q)
      \<and> invar q' \<and> cap q' = cap q
      \<and> items q' = drop (length (items q) + length xs - cap q) (items q @ xs)"
proof (induction xs arbitrary: q)
  case Nil
  then show ?case using bound [of q] by simp
next
  case (Cons x xs)
  show ?case
  proof (cases "length (items q) = cap q")
    case True
    with Cons.prems obtain q1 where q1: "push x q = Ret (q1, True)" "invar q1"
      "items q1 = tl (items q) @ [x]" "cap q1 = cap q"
      using push_drop by blast
    from True Cons.prems obtain y ys where "items q = y # ys"
      using cap_pos [of q] by (cases "items q") auto
    with q1 True Cons.IH [of q1] show ?thesis by auto
  next
    case False
    with Cons.prems obtain q1 where q1: "push x q = Ret (q1, False)" "invar q1"
      "items q1 = items q @ [x]" "cap q1 = cap q"
      using push_room bound by (metis le_neq_implies_less)
    with Cons.IH [of q1] show ?thesis by auto
  qed
qed

end

section \<open>TelemetryRingBuffer\<close>

text \<open>A slot of \<open>buffer [][]byte\<close> is \<open>None\<close> where the source has \<open>nil\<close>.\<close>

record telemetry_ring =
  rb_buffer :: "bytes option list"
  rb_capacity :: nat
  rb_head :: nat
  rb_tail :: nat
  rb_size :: nat

definition NewTelemetryRingBuffer :: "int \<Rightarrow> telemetry_ring go" where
  "NewTelemetryRingBuffer capacity =
     (if capacity \<le> 0 then Panic
      else Ret \<lparr>rb_buffer = replicate (nat capacity) None, rb_capacity = nat capacity,
                rb_head = 0, rb_tail = 0, rb_size = 0\<rparr>)"

text \<open>Indexing past the slice and \<open>% 0\<close> panic in Go, so both are guards of the model.\<close>

definition ring_Push :: "bytes \<Rightarrow> telemetry_ring \<Rightarrow> (telemetry_ring \<times> bool) go" where
  "ring_Push payload b =
     (if rb_size b = rb_capacity b then
        (if rb_head b < length (rb_buffer b) \<and> rb_capacity b \<noteq> 0 then
           Ret (b\<lparr>rb_buffer := (rb_buffer b)[rb_head b := Some payload],
                  rb_head := (rb_head b + 1) mod rb_capacity b,
                  rb_tail := (rb_tail b + 1) mod rb_capacity b\<rparr>, True)
         else Panic)
      else
        (if rb_tail b < length (rb_buffer b) \<and> rb_capacity b \<noteq> 0 then
           Ret (b\<lparr>rb_buffer := (rb_buffer b)[rb_tail b := Some payload],
                  rb_tail := (rb_tail b + 1) mod rb_capacity b,
                  rb_size := rb_size b + 1\<rparr>, False)
         else Panic))"

definition ring_Pop :: "telemetry_ring \<Rightarrow> ((bytes option \<times> bool) \<times> telemetry_ring) go" where
  "ring_Pop b =
     (if rb_size b = 0 then Ret ((None, False), b)
      else if rb_head b < length (rb_buffer b) \<and> rb_capacity b \<noteq> 0 then
        Ret ((rb_buffer b ! rb_head b, True),
             b\<lparr>rb_buffer := (rb_buffer b)[rb_head b := None],
               rb_head := (rb_head b + 1) mod rb_capacity b,
               rb_size := rb_size b - 1\<rparr>)
      else Panic)"

text \<open>The comma-ok result \<open>(payload, found)\<close> read as an option, as callers use it.\<close>

definition found :: "((bytes option \<times> bool) \<times> 'q) go \<Rightarrow> (bytes option \<times> 'q) go" where
  "found r = (case r of Panic \<Rightarrow> Panic | Ret ((m, ok), q) \<Rightarrow> Ret (if ok then m else None, q))"

text \<open>The abstraction: the slots from \<open>head\<close> on, in ring order.\<close>

definition ring_slot :: "telemetry_ring \<Rightarrow> nat \<Rightarrow> bytes option" where
  "ring_slot b i = rb_buffer b ! ((rb_head b + i) mod rb_capacity b)"

definition ring_items :: "telemetry_ring \<Rightarrow> bytes list" where
  "ring_items b = map (\<lambda>i. the (ring_slot b i)) [0..<rb_size b]"

text \<open>The invariant: indices in range, \<open>tail\<close> determined by \<open>head\<close> and \<open>size\<close>, and a slot holds
  a payload exactly when it is inside the window, so no popped payload stays referenced.\<close>

definition ring_inv :: "telemetry_ring \<Rightarrow> bool" where
  "ring_inv b \<longleftrightarrow> 0 < rb_capacity b \<and> length (rb_buffer b) = rb_capacity b
     \<and> rb_head b < rb_capacity b \<and> rb_size b \<le> rb_capacity b
     \<and> rb_tail b = (rb_head b + rb_size b) mod rb_capacity b
     \<and> (\<forall>i < rb_capacity b. ring_slot b i \<noteq> None \<longleftrightarrow> i < rb_size b)"

lemma ring_inv_new: "NewTelemetryRingBuffer c = Ret b \<Longrightarrow> ring_inv b \<and> ring_items b = []"
  by (auto simp: NewTelemetryRingBuffer_def ring_inv_def ring_slot_def ring_items_def
      split: if_splits)

lemma ring_inv_bounds: "ring_inv b \<Longrightarrow> 0 < rb_capacity b \<and> rb_size b \<le> rb_capacity b"
  by (simp add: ring_inv_def)

lemma length_ring_items [simp]: "length (ring_items b) = rb_size b"
  by (simp add: ring_items_def)

lemma ring_items_Suc:
  "rb_size b = Suc n \<Longrightarrow>
     ring_items b = the (ring_slot b 0) # map (\<lambda>i. the (ring_slot b (Suc i))) [0..<n]"
  by (simp add: ring_items_def upt_conv_Cons map_Suc_upt [symmetric] del: upt_Suc)

text \<open>Writing one slot of the ring changes that slot and no other.\<close>

lemma ring_slot_write:
  assumes "ring_inv b" and "i < rb_capacity b" and "j < rb_capacity b"
  shows "(rb_buffer b)[(rb_head b + j) mod rb_capacity b := v] ! ((rb_head b + i) mod rb_capacity b)
       = (if i = j then v else ring_slot b i)"
  using assms ring_pos_inj [of i "rb_capacity b" j "rb_head b"]
  by (auto simp: ring_inv_def ring_slot_def nth_list_update)

lemma ring_push_room:
  assumes inv: "ring_inv b" and room: "rb_size b < rb_capacity b"
  shows "\<exists>b'. ring_Push x b = Ret (b', False) \<and> ring_inv b' \<and> ring_items b' = ring_items b @ [x]
           \<and> rb_capacity b' = rb_capacity b"
proof -
  let ?b = "b\<lparr>rb_buffer := (rb_buffer b)[rb_tail b := Some x],
              rb_tail := (rb_tail b + 1) mod rb_capacity b, rb_size := rb_size b + 1\<rparr>"
  have tail: "rb_tail b = (rb_head b + rb_size b) mod rb_capacity b"
    using inv by (simp add: ring_inv_def)
  have slot: "ring_slot ?b i = (if i = rb_size b then Some x else ring_slot b i)"
    if "i < rb_capacity b" for i
    using ring_slot_write [OF inv that room, of "Some x"] tail by (simp add: ring_slot_def)
  have "ring_Push x b = Ret (?b, False)"
    using inv room by (simp add: ring_Push_def ring_inv_def)
  moreover have "ring_inv ?b"
    using inv room slot by (auto simp: ring_inv_def mod_Suc_eq less_Suc_eq)
  moreover have "ring_items ?b = ring_items b @ [x]"
    using slot room by (simp add: ring_items_def)
  ultimately show ?thesis by auto
qed

lemma ring_push_full:
  assumes inv: "ring_inv b" and full: "rb_size b = rb_capacity b"
  shows "\<exists>b'. ring_Push x b = Ret (b', True) \<and> ring_inv b'
           \<and> ring_items b' = tl (ring_items b) @ [x] \<and> rb_capacity b' = rb_capacity b"
proof -
  let ?c = "rb_capacity b"
  let ?b = "b\<lparr>rb_buffer := (rb_buffer b)[rb_head b := Some x],
              rb_head := (rb_head b + 1) mod ?c, rb_tail := (rb_tail b + 1) mod ?c\<rparr>"
  have c: "0 < ?c" "rb_head b < ?c" using inv by (simp_all add: ring_inv_def)
  then obtain n where n: "?c = Suc n" by (cases ?c) auto
  have wr: "(rb_buffer b)[rb_head b := Some x] ! ((rb_head b + i) mod ?c)
      = (if i = 0 then Some x else ring_slot b i)" if "i < ?c" for i
    using ring_slot_write [OF inv that c(1), of "Some x"] c by simp
  have slot: "ring_slot ?b i = (if i = n then Some x else ring_slot b (Suc i))" if "i < ?c" for i
  proof (cases "i = n")
    case True
    have "((rb_head b + 1) mod ?c + i) mod ?c = (rb_head b + 0) mod ?c"
      unfolding ring_pos_shift True using n by (metis add.right_neutral mod_add_self2)
    then show ?thesis
      using wr [of 0] c True by (simp add: ring_slot_def)
  next
    case False
    with that n have "Suc i < ?c" by simp
    then show ?thesis
      using wr [of "Suc i"] False ring_pos_shift [of "rb_head b" ?c i]
      by (simp add: ring_slot_def)
  qed
  have "ring_Push x b = Ret (?b, True)"
    using inv full by (simp add: ring_Push_def ring_inv_def)
  moreover have "ring_inv ?b"
  proof -
    have "ring_slot ?b i \<noteq> None" if "i < ?c" for i
      using slot [OF that] inv full that n by (auto simp: ring_inv_def)
    with inv full show ?thesis
      by (auto simp: ring_inv_def mod_add_left_eq)
  qed
  moreover have "ring_items ?b = tl (ring_items b) @ [x]"
    using slot full n by (simp add: ring_items_Suc [of b n]) (simp add: ring_items_def)
  ultimately show ?thesis by auto
qed

lemma ring_pop_empty: "ring_items b = [] \<Longrightarrow> ring_Pop b = Ret ((None, False), b)"
  by (simp add: ring_Pop_def ring_items_def)

lemma ring_pop_first:
  assumes inv: "ring_inv b" and "items": "ring_items b = x # xs"
  shows "\<exists>b'. ring_Pop b = Ret ((Some x, True), b') \<and> ring_inv b' \<and> ring_items b' = xs
           \<and> rb_capacity b' = rb_capacity b"
proof -
  let ?c = "rb_capacity b"
  let ?b = "b\<lparr>rb_buffer := (rb_buffer b)[rb_head b := None], rb_head := (rb_head b + 1) mod ?c,
              rb_size := rb_size b - 1\<rparr>"
  have c: "0 < ?c" "rb_head b < ?c" using inv by (simp_all add: ring_inv_def)
  from "items" have sz: "0 < rb_size b" by (metis length_Cons length_ring_items zero_less_Suc)
  then obtain n where n: "rb_size b = Suc n" "n < ?c" using inv by (cases "rb_size b") (auto simp: ring_inv_def)
  have wr: "(rb_buffer b)[rb_head b := None] ! ((rb_head b + i) mod ?c)
      = (if i = 0 then None else ring_slot b i)" if "i < ?c" for i
    using ring_slot_write [OF inv that c(1), of None] c by simp
  have slot: "ring_slot ?b i = (if Suc i = ?c then None else ring_slot b (Suc i))" if "i < ?c" for i
  proof (cases "Suc i = ?c")
    case True
    have "((rb_head b + 1) mod ?c + i) mod ?c = (rb_head b + 0) mod ?c"
      unfolding ring_pos_shift True by simp
    then show ?thesis
      using wr [of 0] c True by (simp add: ring_slot_def)
  next
    case False
    with that have "Suc i < ?c" by simp
    then show ?thesis
      using wr [of "Suc i"] False ring_pos_shift [of "rb_head b" ?c i]
      by (simp add: ring_slot_def)
  qed
  have "ring_slot b 0 \<noteq> None" using inv n c by (simp add: ring_inv_def)
  then have head: "rb_buffer b ! rb_head b = Some x"
    using "items" n c by (auto simp: ring_items_Suc [of b n] ring_slot_def)
  have "ring_Pop b = Ret ((Some x, True), ?b)"
    using inv sz head by (simp add: ring_Pop_def ring_inv_def)
  moreover have "ring_inv ?b"
  proof -
    have tail: "rb_tail b = ((rb_head b + 1) mod ?c + n) mod ?c"
      using inv n ring_pos_shift [of "rb_head b" ?c n] by (simp add: ring_inv_def)
    have "ring_slot ?b i \<noteq> None \<longleftrightarrow> i < n" if "i < ?c" for i
      using slot [OF that] inv that n by (auto simp: ring_inv_def)
    with inv n tail show ?thesis by (auto simp: ring_inv_def)
  qed
  moreover have "ring_items ?b = xs"
  proof -
    have "ring_items ?b = map (\<lambda>i. the (ring_slot b (Suc i))) [0..<n]"
      using slot n inv by (auto simp: ring_items_def ring_inv_def)
    then show ?thesis using "items" n by (simp add: ring_items_Suc [of b n])
  qed
  ultimately show ?thesis by auto
qed

interpretation ring: dropping_fifo ring_inv ring_items rb_capacity "\<lambda>b. found (ring_Pop b)" ring_Push
proof unfold_locales
  fix b x xs
  assume "ring_inv b" and "ring_items b = x # xs"
  then show "\<exists>q'. found (ring_Pop b) = Ret (Some x, q') \<and> ring_inv q' \<and> ring_items q' = xs
      \<and> rb_capacity q' = rb_capacity b"
    using ring_pop_first by (fastforce simp: found_def)
qed (auto simp: ring_inv_bounds ring_pop_empty found_def intro: ring_push_full ring_push_room)

section \<open>NATSDispatchBuffer\<close>

text \<open>A buffered channel is its content with its capacity. \<open>Pop\<close> blocks while the channel is
  empty and the context is live, which is the value \<open>Blocked\<close>; when a payload is ready and the
  context is done, Go's \<open>select\<close> may take either branch, so the choice is an argument. The
  closed-channel branch is unreachable, as nothing closes the channel.\<close>

record dispatch_buffer =
  db_ch :: "bytes list"
  db_cap :: nat

datatype 'a blocking = Blocked | Done 'a

definition NewNATSDispatchBuffer :: "int \<Rightarrow> dispatch_buffer go" where
  "NewNATSDispatchBuffer capacity =
     (if capacity \<le> 0 then Panic else Ret \<lparr>db_ch = [], db_cap = nat capacity\<rparr>)"

definition dispatch_Push :: "bytes \<Rightarrow> dispatch_buffer \<Rightarrow> dispatch_buffer result" where
  "dispatch_Push payload d =
     (if length (db_ch d) = db_cap d then Inl ErrQueueFull
      else if length (db_ch d) < db_cap d then Inr (d\<lparr>db_ch := db_ch d @ [payload]\<rparr>)
      else Inl ErrQueueFull)"

definition dispatch_Pop ::
  "go_error option \<Rightarrow> bool \<Rightarrow> dispatch_buffer \<Rightarrow> (bytes result \<times> dispatch_buffer) blocking" where
  "dispatch_Pop ctx_err prefer_done d =
     (case (db_ch d, ctx_err) of
        ([], None) \<Rightarrow> Blocked
      | ([], Some e) \<Rightarrow> Done (Inl e, d)
      | (x # xs, None) \<Rightarrow> Done (Inr x, d\<lparr>db_ch := xs\<rparr>)
      | (x # xs, Some e) \<Rightarrow>
          if prefer_done then Done (Inl e, d) else Done (Inr x, d\<lparr>db_ch := xs\<rparr>))"

definition dispatch_inv :: "dispatch_buffer \<Rightarrow> bool" where
  "dispatch_inv d \<longleftrightarrow> 0 < db_cap d \<and> length (db_ch d) \<le> db_cap d"

text \<open>A receive that would block is, for the FIFO contract, a pop that finds nothing.\<close>

definition dispatch_try :: "dispatch_buffer \<Rightarrow> (bytes option \<times> dispatch_buffer) go" where
  "dispatch_try d =
     (case dispatch_Pop None False d of
        Done (Inr x, d') \<Rightarrow> Ret (Some x, d')
      | _ \<Rightarrow> Ret (None, d))"

interpretation dispatch: rejecting_fifo dispatch_inv db_ch db_cap dispatch_try dispatch_Push
  by unfold_locales
    (auto simp: dispatch_inv_def dispatch_try_def dispatch_Pop_def dispatch_Push_def)

section \<open>CommandResultQueue\<close>

record result_queue =
  rq_items :: "bytes list"
  rq_capacity :: nat

definition NewCommandResultQueue :: "int \<Rightarrow> result_queue go" where
  "NewCommandResultQueue capacity =
     (if capacity \<le> 0 then Panic else Ret \<lparr>rq_items = [], rq_capacity = nat capacity\<rparr>)"

definition result_Push :: "bytes \<Rightarrow> result_queue \<Rightarrow> result_queue result" where
  "result_Push payload q =
     (if length (rq_items q) \<ge> rq_capacity q then Inl ErrQueueFull
      else Inr (q\<lparr>rq_items := rq_items q @ [payload]\<rparr>))"

definition result_Pop :: "result_queue \<Rightarrow> (bytes option \<times> bool) \<times> result_queue" where
  "result_Pop q =
     (case rq_items q of
        [] \<Rightarrow> ((None, False), q)
      | payload # rest \<Rightarrow>
          ((Some payload, True),
           if length (rq_items q) = 1 then q\<lparr>rq_items := []\<rparr> else q\<lparr>rq_items := rest\<rparr>))"

definition result_inv :: "result_queue \<Rightarrow> bool" where
  "result_inv q \<longleftrightarrow> 0 < rq_capacity q \<and> length (rq_items q) \<le> rq_capacity q"

interpretation results: rejecting_fifo result_inv rq_items rq_capacity
  "\<lambda>q. found (Ret (result_Pop q))" result_Push
  by unfold_locales (auto simp: result_inv_def result_Pop_def result_Push_def found_def)

section \<open>Properties\<close>

text \<open>C26: a fresh telemetry buffer of capacity \<open>c\<close>, after any sequence of pushes, gives back exactly
  the newest \<open>c\<close> payloads in arrival order, having reported one drop for each payload that is
  missing; no push or pop panics, and the buffer is empty again afterwards.\<close>

theorem telemetry_keeps_newest:
  assumes "NewTelemetryRingBuffer c = Ret b"
  shows "\<exists>b' b''. push_all ring_Push xs b = Ret (b', length xs - nat c)
     \<and> drain (\<lambda>b. found (ring_Pop b)) (length xs) b' = Ret (drop (length xs - nat c) xs, b'')
     \<and> ring_items b'' = [] \<and> ring_inv b''"
proof -
  have b: "ring_inv b" "ring_items b = []" "rb_capacity b = nat c"
    using ring_inv_new [OF assms] assms by (auto simp: NewTelemetryRingBuffer_def split: if_splits)
  from ring.push_all_newest [OF b(1), of xs] b obtain b' where
    b': "push_all ring_Push xs b = Ret (b', length xs - nat c)" "ring_inv b'"
      "ring_items b' = drop (length xs - nat c) xs"
    by auto
  with ring.drain_take [OF b'(2), of "length xs"] show ?thesis by fastforce
qed

theorem telemetry_keeps_newest_witness:
  "\<exists>b b' b''. NewTelemetryRingBuffer 2 = Ret b \<and> push_all ring_Push [''a'', ''b'', ''c''] b = Ret (b', 1)
     \<and> drain (\<lambda>b. found (ring_Pop b)) 3 b' = Ret ([''b'', ''c''], b'')"
  using telemetry_keeps_newest [of 2 "\<lparr>rb_buffer = [None, None], rb_capacity = 2, rb_head = 0,
      rb_tail = 0, rb_size = 0\<rparr>" "[''a'', ''b'', ''c'']"]
  by (fastforce simp: NewTelemetryRingBuffer_def numeral_2_eq_2 numeral_3_eq_3)

text \<open>C27: the two buffers that carry commands and their results never drop an accepted payload:
  offered any sequence, a fresh queue of capacity \<open>c\<close> holds the first \<open>c\<close> of them, in order, and
  the next push is refused with \<open>ErrQueueFull\<close> exactly when \<open>c\<close> entries are held.\<close>

theorem command_buffers_keep_oldest:
  assumes "NewCommandResultQueue c = Ret q" and "NewNATSDispatchBuffer c = Ret d"
  shows "rq_items (offer_all result_Push xs q) = take (nat c) xs
     \<and> db_ch (offer_all dispatch_Push xs d) = take (nat c) xs
     \<and> (result_Push x (offer_all result_Push xs q) = Inl ErrQueueFull \<longleftrightarrow> nat c \<le> length xs)
     \<and> (dispatch_Push x (offer_all dispatch_Push xs d) = Inl ErrQueueFull \<longleftrightarrow> nat c \<le> length xs)"
proof -
  have q: "result_inv q" "rq_items q = []" "rq_capacity q = nat c"
    and d: "dispatch_inv d" "db_ch d = []" "db_cap d = nat c"
    using assms by (auto simp: NewCommandResultQueue_def NewNATSDispatchBuffer_def result_inv_def
        dispatch_inv_def split: if_splits)
  show ?thesis
    using results.offer_all_oldest [OF q(1), of xs] dispatch.offer_all_oldest [OF d(1), of xs] q d
    by (auto simp: result_Push_def dispatch_Push_def)
qed

theorem command_buffers_keep_oldest_witness:
  "NewCommandResultQueue 1 = Ret \<lparr>rq_items = [], rq_capacity = 1\<rparr>
     \<and> result_Push ''y'' (offer_all result_Push [''x''] \<lparr>rq_items = [], rq_capacity = 1\<rparr>) = Inl ErrQueueFull"
  using command_buffers_keep_oldest [of 1 "\<lparr>rq_items = [], rq_capacity = 1\<rparr>"
      "\<lparr>db_ch = [], db_cap = 1\<rparr>" "[''x'']" "''y''"]
  by (simp add: NewCommandResultQueue_def NewNATSDispatchBuffer_def)

end
