(* ===== verification/Scheduler.thy ===== *)
theory Scheduler
  imports Buffers
begin

text \<open>
  The outbound priority scheduler (\<open>src/pkg/queues/scheduler.go\<close>): four bounded FIFO queues, a
  strict priority order, and a round-robin yield to the lower queues after ten consecutive
  Priority-0 messages. The contract its consumers rely on is the locale
  \<open>outbound_scheduler\<close>; the \<open>PriorityScheduler\<close> is its interpretation.
\<close>

section \<open>Messages and state\<close>

abbreviation PriorityHighest :: int where "PriorityHighest \<equiv> 0"
abbreviation PriorityHigh :: int where "PriorityHigh \<equiv> 1"
abbreviation PriorityMedium :: int where "PriorityMedium \<equiv> 2"
abbreviation PriorityLow :: int where "PriorityLow \<equiv> 3"

record outbound_message =
  om_SessionID :: string
  om_Priority :: int
  om_Payload :: bytes

record priority_scheduler =
  ps_queues :: "outbound_message list list"
  ps_capacity :: nat
  ps_emergencyCap :: nat
  ps_consecutiveP0 :: nat
  ps_lastYield :: nat

definition NewPriorityScheduler :: "int \<Rightarrow> int \<Rightarrow> priority_scheduler go" where
  "NewPriorityScheduler capacity emergencyCap =
     (if capacity \<le> 0 \<or> emergencyCap \<le> 0 then Panic
      else Ret \<lparr>ps_queues = [[], [], [], []], ps_capacity = nat capacity,
                ps_emergencyCap = nat emergencyCap, ps_consecutiveP0 = 0, ps_lastYield = 0\<rparr>)"

section \<open>Operations\<close>

definition isFull :: "priority_scheduler \<Rightarrow> nat \<Rightarrow> bool" where
  "isFull s priority =
     (if priority = 0 then length (ps_queues s ! priority) \<ge> ps_emergencyCap s
      else length (ps_queues s ! priority) \<ge> ps_capacity s)"

definition sched_Push :: "outbound_message \<Rightarrow> priority_scheduler \<Rightarrow> priority_scheduler result" where
  "sched_Push msg s =
     (if om_Priority msg < PriorityHighest \<or> om_Priority msg > PriorityLow then Inl ErrInvalidPriority
      else
        let p = nat (om_Priority msg)
        in if isFull s p then Inl ErrQueueFull
           else Inr (s\<lparr>ps_queues := (ps_queues s)[p := ps_queues s ! p @ [msg]]\<rparr>))"

text \<open>\<open>pop\<close> removes the first message; \<open>None\<close> is the index panic on an empty queue, which the
  callers' length test excludes. Clearing the slot and releasing the backing array of a
  queue that becomes empty leave the same content.\<close>

fun sched_pop :: "outbound_message list \<Rightarrow> (outbound_message \<times> outbound_message list) option" where
  "sched_pop [] = None"
| "sched_pop (msg # rest) = Some (msg, if rest = [] then [] else rest)"

text \<open>The anti-starvation loop \<open>for i := 1; i <= 3; i++\<close>; the argument is the number of
  iterations left.\<close>

fun yield_loop :: "nat \<Rightarrow> priority_scheduler \<Rightarrow> outbound_message option \<times> priority_scheduler" where
  "yield_loop 0 s = (None, s)"
| "yield_loop (Suc i) s =
     (let p = ps_lastYield s mod 3 + 1; s1 = s\<lparr>ps_lastYield := p\<rparr>
      in case sched_pop (ps_queues s1 ! p) of
           None \<Rightarrow> yield_loop i s1
         | Some (msg, q) \<Rightarrow>
             (Some msg, s1\<lparr>ps_queues := (ps_queues s1)[p := q], ps_consecutiveP0 := 0\<rparr>))"

text \<open>The normal selection loop over the priorities, highest first.\<close>

fun normal_loop :: "nat list \<Rightarrow> priority_scheduler \<Rightarrow> outbound_message option \<times> priority_scheduler" where
  "normal_loop [] s = (None, s)"
| "normal_loop (p # ps) s =
     (case sched_pop (ps_queues s ! p) of
        None \<Rightarrow> normal_loop ps s
      | Some (msg, q) \<Rightarrow>
          (Some msg, s\<lparr>ps_queues := (ps_queues s)[p := q],
                       ps_consecutiveP0 := (if p = 0 then ps_consecutiveP0 s + 1 else 0)\<rparr>))"

definition tryDequeue :: "priority_scheduler \<Rightarrow> outbound_message option \<times> priority_scheduler" where
  "tryDequeue s =
     (if ps_consecutiveP0 s \<ge> 10 then
        (case yield_loop 3 s of
           (Some msg, s') \<Rightarrow> (Some msg, s')
         | (None, s') \<Rightarrow> normal_loop [0, 1, 2, 3] s')
      else normal_loop [0, 1, 2, 3] s)"

text \<open>One turn of the loop of \<open>Next\<close>: a done context ends it with its error, a message is
  returned, otherwise the caller waits on the condition variable.\<close>

definition sched_Next ::
  "go_error option \<Rightarrow> priority_scheduler \<Rightarrow> outbound_message result blocking \<times> priority_scheduler" where
  "sched_Next ctx_err s =
     (case ctx_err of
        Some e \<Rightarrow> (Done (Inl e), s)
      | None \<Rightarrow>
          (case tryDequeue s of
             (Some msg, s') \<Rightarrow> (Done (Inr msg), s')
           | (None, s') \<Rightarrow> (Blocked, s')))"

section \<open>Invariant\<close>

definition sched_inv :: "priority_scheduler \<Rightarrow> bool" where
  "sched_inv s \<longleftrightarrow> length (ps_queues s) = 4 \<and> 0 < ps_capacity s \<and> 0 < ps_emergencyCap s
     \<and> ps_lastYield s \<le> 3
     \<and> length (ps_queues s ! 0) \<le> ps_emergencyCap s
     \<and> (\<forall>p \<in> {1, 2, 3}. length (ps_queues s ! p) \<le> ps_capacity s)
     \<and> (\<forall>p < 4. \<forall>m \<in> set (ps_queues s ! p). om_Priority m = int p)"

text \<open>The content of the class a message belongs to, and classes outside the array.\<close>

definition class_queue :: "priority_scheduler \<Rightarrow> nat \<Rightarrow> outbound_message list" where
  "class_queue s p = (if p < 4 then ps_queues s ! p else [])"

definition msg_class :: "outbound_message \<Rightarrow> nat" where
  "msg_class m = nat (om_Priority m)"

lemma sched_inv_new:
  "NewPriorityScheduler c e = Ret s \<Longrightarrow> sched_inv s \<and> (\<forall>p. class_queue s p = [])"
  by (auto simp: NewPriorityScheduler_def sched_inv_def class_queue_def less_Suc_eq numeral_eq_Suc
      split: if_splits)

lemma sched_inv_pop:
  assumes "sched_inv s" and "p < 4" and "ps_queues s ! p = m # q" and "l \<le> 3"
  shows "sched_inv (s\<lparr>ps_queues := (ps_queues s)[p := q], ps_consecutiveP0 := c, ps_lastYield := l\<rparr>)"
proof -
  have "length ((ps_queues s)[p := q] ! i) \<le> length (ps_queues s ! i)" if "i < 4" for i
    using assms that by (auto simp: sched_inv_def nth_list_update)
  then have "length ((ps_queues s)[p := q] ! 0) \<le> length (ps_queues s ! 0)"
    "\<forall>i \<in> {1, 2, 3}. length ((ps_queues s)[p := q] ! i) \<le> length (ps_queues s ! i)" by auto
  moreover have "set ((ps_queues s)[p := q] ! i) \<subseteq> set (ps_queues s ! i)" if "i < 4" for i
    using assms that by (auto simp: sched_inv_def nth_list_update)
  ultimately show ?thesis
    using assms(1,4) unfolding sched_inv_def by (auto intro: order_trans)
qed

lemma sched_pop_eq:
  "sched_pop q = (case q of [] \<Rightarrow> None | m # r \<Rightarrow> Some (m, r))"
  by (cases q) auto

section \<open>What one dequeue does\<close>

text \<open>Serving the first message \<open>m\<close> of queue \<open>p\<close>, leaving the counters at \<open>c\<close> and \<open>l\<close>.\<close>

definition serves ::
  "priority_scheduler \<Rightarrow> nat \<Rightarrow> outbound_message \<Rightarrow> nat \<Rightarrow> nat \<Rightarrow> priority_scheduler \<Rightarrow> bool" where
  "serves s p m c l s' \<longleftrightarrow> (\<exists>q. p < 4 \<and> l \<le> 3 \<and> ps_queues s ! p = m # q
     \<and> s' = s\<lparr>ps_queues := (ps_queues s)[p := q], ps_consecutiveP0 := c, ps_lastYield := l\<rparr>)"

lemma serves_inv: "sched_inv s \<Longrightarrow> serves s p m c l s' \<Longrightarrow> sched_inv s'"
  by (auto simp: serves_def intro: sched_inv_pop)

lemma serves_class:
  "sched_inv s \<Longrightarrow> serves s p m c l s' \<Longrightarrow>
     msg_class m = p \<and> class_queue s p = m # class_queue s' p
       \<and> (\<forall>i. i \<noteq> p \<longrightarrow> class_queue s' i = class_queue s i)"
  by (auto simp: serves_def class_queue_def msg_class_def sched_inv_def)

lemma yield_target: "(l :: nat) mod 3 + 1 \<in> {1, 2, 3}"
proof -
  have "l mod 3 < 3" by simp
  then show ?thesis by auto
qed

lemma yield_loop_some:
  "sched_inv s \<Longrightarrow> yield_loop n s = (Some m, s') \<Longrightarrow> \<exists>p \<in> {1, 2, 3}. serves s p m 0 p s'"
proof (induction n arbitrary: s)
  case 0
  then show ?case by simp
next
  case (Suc n)
  let ?p = "ps_lastYield s mod 3 + 1"
  let ?s = "s\<lparr>ps_lastYield := ?p\<rparr>"
  have p: "?p \<in> {1, 2, 3}" by (rule yield_target)
  show ?case
  proof (cases "ps_queues s ! ?p")
    case Nil
    then have "yield_loop n ?s = (Some m, s')" using Suc.prems(2) by (simp add: Let_def)
    moreover have "sched_inv ?s" using Suc.prems(1) p by (auto simp: sched_inv_def)
    ultimately obtain q where "q \<in> {1, 2, 3}" "serves ?s q m 0 q s'"
      using Suc.IH by blast
    then show ?thesis by (auto simp: serves_def)
  next
    case (Cons m' q)
    then have "m' = m" "s' = s\<lparr>ps_lastYield := ?p, ps_queues := (ps_queues s)[?p := q], ps_consecutiveP0 := 0\<rparr>"
      using Suc.prems(2) by (auto simp: Let_def)
    with Cons p show ?thesis by (intro bexI [of _ ?p]) (auto simp: serves_def)
  qed
qed

lemma yield_loop_none:
  "sched_inv s \<Longrightarrow> yield_loop n s = (None, s') \<Longrightarrow> \<exists>l \<le> 3. s' = s\<lparr>ps_lastYield := l\<rparr>"
proof (induction n arbitrary: s)
  case 0
  then show ?case by (auto simp: sched_inv_def intro!: exI [of _ "ps_lastYield s"])
next
  case (Suc n)
  let ?s = "s\<lparr>ps_lastYield := ps_lastYield s mod 3 + 1\<rparr>"
  have "sched_inv ?s" using Suc.prems(1) by (auto simp: sched_inv_def)
  moreover have "yield_loop n ?s = (None, s')"
    using Suc.prems(2) by (auto simp: Let_def sched_pop_eq split: list.splits)
  ultimately obtain l where "l \<le> 3" "s' = ?s\<lparr>ps_lastYield := l\<rparr>" using Suc.IH by blast
  then show ?case by auto
qed

lemma normal_loop_some:
  "set ps \<subseteq> {..3} \<Longrightarrow> ps_lastYield s \<le> 3 \<Longrightarrow> normal_loop ps s = (Some m, s') \<Longrightarrow>
     \<exists>p \<in> set ps. serves s p m (if p = 0 then ps_consecutiveP0 s + 1 else 0) (ps_lastYield s) s'"
proof (induction ps)
  case Nil
  then show ?case by simp
next
  case (Cons p ps)
  show ?case
  proof (cases "ps_queues s ! p")
    case Nil
    with Cons show ?thesis by auto
  next
    case (Cons m' q)
    with Cons.prems show ?thesis by (auto simp: serves_def sched_pop_eq)
  qed
qed

lemma normal_loop_none:
  "normal_loop ps s = (None, s') \<Longrightarrow> s' = s \<and> (\<forall>p \<in> set ps. ps_queues s ! p = [])"
  by (induction ps) (auto simp: sched_pop_eq split: list.splits)

lemma normal_loop_serves:
  assumes "sched_inv s" and "normal_loop [0, 1, 2, 3] s = (Some m, s')"
  shows "\<exists>p c. serves s p m c (ps_lastYield s) s'"
proof -
  have "set [0, 1, 2, 3 :: nat] \<subseteq> {..3}" by auto
  from normal_loop_some [OF this _ assms(2)] assms(1) show ?thesis
    by (auto simp: sched_inv_def)
qed

lemma tryDequeue_some:
  assumes "sched_inv s" and "tryDequeue s = (Some m, s')"
  shows "\<exists>p c l. serves s p m c l s'"
proof (cases "10 \<le> ps_consecutiveP0 s")
  case False
  with assms show ?thesis using normal_loop_serves [of s m s'] by (auto simp: tryDequeue_def)
next
  case True
  show ?thesis
  proof (cases "yield_loop 3 s")
    case (Pair r s1)
    show ?thesis
    proof (cases r)
      case (Some m')
      with Pair True assms yield_loop_some [of s 3 m' s1] show ?thesis
        by (auto simp: tryDequeue_def)
    next
      case None
      with Pair assms(1) obtain l where l: "l \<le> 3" "s1 = s\<lparr>ps_lastYield := l\<rparr>"
        using yield_loop_none by blast
      then have "sched_inv s1" using assms(1) by (auto simp: sched_inv_def)
      moreover have "normal_loop [0, 1, 2, 3] s1 = (Some m, s')"
        using None Pair True assms(2) by (simp add: tryDequeue_def)
      ultimately show ?thesis using normal_loop_serves [of s1 m s'] l by (auto simp: serves_def)
    qed
  qed
qed

lemma tryDequeue_none:
  assumes "sched_inv s" and "tryDequeue s = (None, s')"
  shows "(\<forall>p < 4. ps_queues s ! p = []) \<and> (\<exists>l \<le> 3. s' = s\<lparr>ps_lastYield := l\<rparr>)"
proof -
  obtain l where l: "l \<le> 3" "normal_loop [0, 1, 2, 3] (s\<lparr>ps_lastYield := l\<rparr>) = (None, s')"
  proof (cases "10 \<le> ps_consecutiveP0 s")
    case False
    with assms that [of "ps_lastYield s"] show thesis by (auto simp: tryDequeue_def sched_inv_def)
  next
    case True
    obtain s1 where s1: "yield_loop 3 s = (None, s1)" "normal_loop [0, 1, 2, 3] s1 = (None, s')"
      using True assms(2) by (auto simp: tryDequeue_def split: prod.splits option.splits)
    then show thesis using yield_loop_none [OF assms(1) s1(1)] that by auto
  qed
  then show ?thesis
    using normal_loop_none [OF l(2)] by (auto simp: less_Suc_eq numeral_eq_Suc)
qed

lemma sched_Push_cases:
  assumes "sched_inv s"
  shows "(\<exists>e. sched_Push m s = Inl e) \<or>
     (\<exists>s'. sched_Push m s = Inr s' \<and> sched_inv s' \<and> msg_class m < 4
        \<and> class_queue s' (msg_class m) = class_queue s (msg_class m) @ [m]
        \<and> (\<forall>i. i \<noteq> msg_class m \<longrightarrow> class_queue s' i = class_queue s i)
        \<and> ps_consecutiveP0 s' = ps_consecutiveP0 s \<and> ps_lastYield s' = ps_lastYield s)"
proof (cases "sched_Push m s")
  case (Inl e)
  then show ?thesis by blast
next
  case (Inr s')
  let ?p = "msg_class m"
  from Inr have p: "?p < 4" "om_Priority m = int ?p" "\<not> isFull s ?p"
    and s': "s' = s\<lparr>ps_queues := (ps_queues s)[?p := ps_queues s ! ?p @ [m]]\<rparr>"
    by (auto simp: sched_Push_def msg_class_def Let_def split: if_splits)
  have "sched_inv s'"
    using assms p unfolding s' by (auto simp: sched_inv_def isFull_def nth_list_update)
  then show ?thesis
    using Inr s' p assms by (auto simp: class_queue_def sched_inv_def)
qed

section \<open>The contract of an outbound scheduler\<close>

text \<open>Producers and the writer loop drive the scheduler by a schedule of calls; the trace
  collects the accepted and the delivered messages, each in order.\<close>

datatype 'm sched_event = EvPush 'm | EvNext

primrec sched_trace ::
  "('m \<Rightarrow> 's \<Rightarrow> 's result) \<Rightarrow> ('s \<Rightarrow> 'm option \<times> 's) \<Rightarrow> 'm sched_event list \<Rightarrow> 's
     \<Rightarrow> 'm list \<times> 'm list \<times> 's" where
  "sched_trace push nxt [] s = ([], [], s)"
| "sched_trace push nxt (e # es) s =
     (case e of
        EvPush m \<Rightarrow>
          (case push m s of
             Inl err \<Rightarrow> sched_trace push nxt es s
           | Inr s' \<Rightarrow> (case sched_trace push nxt es s' of (acc, dlv, t) \<Rightarrow> (m # acc, dlv, t)))
      | EvNext \<Rightarrow>
          (case nxt s of
             (None, s') \<Rightarrow> sched_trace push nxt es s'
           | (Some m, s') \<Rightarrow> (case sched_trace push nxt es s' of (acc, dlv, t) \<Rightarrow> (acc, m # dlv, t))))"

locale outbound_scheduler =
  fixes invar :: "'s \<Rightarrow> bool"
    and queue :: "'s \<Rightarrow> nat \<Rightarrow> 'm list"
    and cls :: "'m \<Rightarrow> nat"
    and push :: "'m \<Rightarrow> 's \<Rightarrow> 's result"
    and nxt :: "'s \<Rightarrow> 'm option \<times> 's"
  assumes push_law: "invar s \<Longrightarrow> push m s = Inr s' \<Longrightarrow>
        invar s' \<and> queue s' (cls m) = queue s (cls m) @ [m]
          \<and> (\<forall>i. i \<noteq> cls m \<longrightarrow> queue s' i = queue s i)"
    and next_some: "invar s \<Longrightarrow> nxt s = (Some m, s') \<Longrightarrow>
        invar s' \<and> queue s (cls m) = m # queue s' (cls m)
          \<and> (\<forall>i. i \<noteq> cls m \<longrightarrow> queue s' i = queue s i)"
    and next_none: "invar s \<Longrightarrow> nxt s = (None, s') \<Longrightarrow>
        invar s' \<and> (\<forall>i. queue s i = []) \<and> (\<forall>i. queue s' i = [])"
begin

text \<open>Within each class what was waiting and what was accepted comes out in order: nothing is
  lost, duplicated or reordered, whatever the interleaving.\<close>

lemma trace_fifo:
  "invar s \<Longrightarrow> sched_trace push nxt es s = (acc, dlv, t) \<Longrightarrow>
     invar t \<and> queue s p @ filter (\<lambda>m. cls m = p) acc = filter (\<lambda>m. cls m = p) dlv @ queue t p"
proof (induction es arbitrary: s acc dlv)
  case Nil
  then show ?case by simp
next
  case (Cons e es)
  show ?case
  proof (cases e)
    case (EvPush m)
    show ?thesis
    proof (cases "push m s")
      case (Inl err)
      with Cons EvPush show ?thesis by auto
    next
      case (Inr s')
      obtain acc' where "sched_trace push nxt es s' = (acc', dlv, t)" "acc = m # acc'"
        using Cons.prems(2) EvPush Inr by (auto split: prod.splits)
      with Cons.IH [of s' acc' dlv] push_law [OF Cons.prems(1) Inr] show ?thesis
        by (cases "cls m = p") auto
    qed
  next
    case EvNext
    obtain r s' where rs: "nxt s = (r, s')" by fastforce
    show ?thesis
    proof (cases r)
      case None
      with Cons.prems rs EvNext next_none [OF Cons.prems(1)] Cons.IH [of s' acc dlv] show ?thesis
        by auto
    next
      case (Some m)
      obtain dlv' where "sched_trace push nxt es s' = (acc, dlv', t)" "dlv = m # dlv'"
        using Cons.prems(2) EvNext rs Some by (auto split: prod.splits)
      with Cons.IH [of s' acc dlv'] next_some [of s m s'] Cons.prems(1) rs Some show ?thesis
        by (cases "cls m = p") auto
    qed
  qed
qed

end

interpretation prio: outbound_scheduler sched_inv class_queue msg_class sched_Push tryDequeue
proof unfold_locales
  fix s m s'
  assume "sched_inv s" and "sched_Push m s = Inr s'"
  then show "sched_inv s' \<and> class_queue s' (msg_class m) = class_queue s (msg_class m) @ [m]
      \<and> (\<forall>i. i \<noteq> msg_class m \<longrightarrow> class_queue s' i = class_queue s i)"
    using sched_Push_cases [of s m] by auto
next
  fix s m s'
  assume a: "sched_inv s" and "tryDequeue s = (Some m, s')"
  then obtain p c l where "serves s p m c l s'" using tryDequeue_some by blast
  with a show "sched_inv s' \<and> class_queue s (msg_class m) = m # class_queue s' (msg_class m)
      \<and> (\<forall>i. i \<noteq> msg_class m \<longrightarrow> class_queue s' i = class_queue s i)"
    using serves_inv serves_class by metis
next
  fix s s'
  assume a: "sched_inv s" "tryDequeue s = (None, s')"
  from tryDequeue_none [OF a] obtain l where
    l: "\<forall>p < 4. ps_queues s ! p = []" "l \<le> 3" "s' = s\<lparr>ps_lastYield := l\<rparr>" by blast
  then have "\<forall>i. class_queue s i = []" "\<forall>i. class_queue s' i = []"
    by (simp_all add: class_queue_def)
  moreover have "sched_inv s'" using a(1) l(2) unfolding l(3) sched_inv_def by simp
  ultimately show "sched_inv s' \<and> (\<forall>i. class_queue s i = []) \<and> (\<forall>i. class_queue s' i = [])"
    by blast
qed

lemma tryDequeue_inv: "sched_inv s \<Longrightarrow> sched_inv (snd (tryDequeue s))"
  by (metis prio.next_none prio.next_some not_None_eq prod.collapse)

lemma sched_Push_inv: "sched_inv s \<Longrightarrow> sched_inv (case sched_Push m s of Inl e \<Rightarrow> s | Inr s' \<Rightarrow> s')"
  by (cases "sched_Push m s") (simp_all add: prio.push_law)

section \<open>The yield to lower priorities\<close>

text \<open>Rounds: a batch of pushes (refused ones are dropped), then one dequeue.\<close>

definition offer :: "outbound_message list \<Rightarrow> priority_scheduler \<Rightarrow> priority_scheduler" where
  "offer ms s = fold (\<lambda>m s. case sched_Push m s of Inl e \<Rightarrow> s | Inr s' \<Rightarrow> s') ms s"

primrec rounds :: "outbound_message list list \<Rightarrow> priority_scheduler \<Rightarrow> outbound_message option list" where
  "rounds [] s = []"
| "rounds (b # bs) s = (case tryDequeue (offer b s) of (r, s') \<Rightarrow> r # rounds bs s')"

text \<open>A Priority-0 message is waiting at every dequeue: the load under which the lower queues
  could starve.\<close>

primrec p0_saturated :: "outbound_message list list \<Rightarrow> priority_scheduler \<Rightarrow> bool" where
  "p0_saturated [] s = True"
| "p0_saturated (b # bs) s =
     (class_queue (offer b s) 0 \<noteq> [] \<and> p0_saturated bs (snd (tryDequeue (offer b s))))"

text \<open>How many yields until the round robin reaches \<open>p\<close>, and how many dequeues at most.\<close>

definition yield_dist :: "nat \<Rightarrow> nat \<Rightarrow> nat" where
  "yield_dist l p = (p + 2 - l mod 3) mod 3"

definition wait_bound :: "nat \<Rightarrow> priority_scheduler \<Rightarrow> nat" where
  "wait_bound p s = 11 * yield_dist (ps_lastYield s) p + (10 - ps_consecutiveP0 s)"

lemma offer_keeps:
  assumes "sched_inv s"
  shows "sched_inv (offer ms s) \<and> ps_consecutiveP0 (offer ms s) = ps_consecutiveP0 s
     \<and> ps_lastYield (offer ms s) = ps_lastYield s
     \<and> (\<exists>r. class_queue (offer ms s) p = class_queue s p @ r)"
  using assms
proof (induction ms arbitrary: s)
  case Nil
  then show ?case by (simp add: offer_def)
next
  case (Cons m ms)
  show ?case
  proof (cases "sched_Push m s")
    case (Inl e)
    with Cons show ?thesis by (simp add: offer_def)
  next
    case (Inr s')
    from sched_Push_cases [OF Cons.prems, of m] Inr
    have s': "sched_inv s'" "\<exists>r. class_queue s' p = class_queue s p @ r"
      "ps_consecutiveP0 s' = ps_consecutiveP0 s" "ps_lastYield s' = ps_lastYield s"
      by (cases "p = msg_class m"; force)+
    from s'(2) obtain r where r: "class_queue s' p = class_queue s p @ r" ..
    have "offer (m # ms) s = offer ms s'" using Inr by (simp add: offer_def)
    with Cons.IH [OF s'(1)] s'(3,4) r show ?thesis by auto
  qed
qed

lemma wait_bound_offer: "sched_inv s \<Longrightarrow> wait_bound p (offer ms s) = wait_bound p s"
  using offer_keeps [of s ms] by (simp add: wait_bound_def)

lemma yield_dist_lt:
  assumes "p \<in> {1, 2, 3}" and "l mod 3 + 1 \<noteq> p"
  shows "yield_dist (l mod 3 + 1) p < yield_dist l p"
proof -
  have "l mod 3 < 3" by simp
  then have "l mod 3 = 0 \<or> l mod 3 = 1 \<or> l mod 3 = 2" by linarith
  with assms show ?thesis by (auto simp: yield_dist_def)
qed

text \<open>The yield loop stops at \<open>p\<close> or before it, at a queue that brings \<open>p\<close> closer.\<close>

lemma yield_loop_closer:
  "sched_inv s \<Longrightarrow> p \<in> {1, 2, 3} \<Longrightarrow> ps_queues s ! p \<noteq> [] \<Longrightarrow> yield_dist (ps_lastYield s) p < n \<Longrightarrow>
     \<exists>m q s'. yield_loop n s = (Some m, s') \<and> serves s q m 0 q s'
        \<and> (q = p \<or> yield_dist q p < yield_dist (ps_lastYield s) p)"
proof (induction n arbitrary: s)
  case 0
  then show ?case by simp
next
  case (Suc n)
  let ?q = "ps_lastYield s mod 3 + 1"
  let ?s = "s\<lparr>ps_lastYield := ?q\<rparr>"
  have q: "?q \<in> {1, 2, 3}" by (rule yield_target)
  show ?case
  proof (cases "ps_queues s ! ?q")
    case Nil
    with Suc.prems(3) have ne: "?q \<noteq> p" by auto
    have lt: "yield_dist ?q p < yield_dist (ps_lastYield s) p"
      by (rule yield_dist_lt [OF Suc.prems(2) ne])
    have "sched_inv ?s" using Suc.prems(1) q by (auto simp: sched_inv_def)
    with Suc.IH [of ?s] Suc.prems lt obtain m r s' where
      "yield_loop n ?s = (Some m, s')" "serves ?s r m 0 r s'" "r = p \<or> yield_dist r p < yield_dist ?q p"
      by auto
    with Nil lt show ?thesis by (fastforce simp: Let_def serves_def)
  next
    case (Cons m r)
    then have "serves s ?q m 0 ?q
        (s\<lparr>ps_lastYield := ?q, ps_queues := (ps_queues s)[?q := r], ps_consecutiveP0 := 0\<rparr>)"
      using q by (auto simp: serves_def)
    moreover have "yield_loop (Suc n) s = (Some m,
        s\<lparr>ps_lastYield := ?q, ps_queues := (ps_queues s)[?q := r], ps_consecutiveP0 := 0\<rparr>)"
      using Cons by (simp add: Let_def)
    ultimately show ?thesis using yield_dist_lt [OF Suc.prems(2), of "ps_lastYield s"] by blast
  qed
qed

lemma yield_dist_bound: "yield_dist l p < 3"
  by (simp add: yield_dist_def)

text \<open>The messages of class \<open>p\<close> that a sequence of dequeues delivered, in order.\<close>

definition served :: "nat \<Rightarrow> outbound_message option list \<Rightarrow> outbound_message list" where
  "served p rs = filter (\<lambda>m. msg_class m = p) (List.map_filter id rs)"

lemma served_simps [simp]:
  "served p [] = []"
  "served p (Some m # rs) = (if msg_class m = p then m # served p rs else served p rs)"
  by (simp_all add: served_def List.map_filter_simps)

text \<open>One saturated dequeue either serves \<open>p\<close> or strictly lowers its bound.\<close>

lemma saturated_dequeue:
  assumes inv: "sched_inv s" and p: "p \<in> {1, 2, 3}" and q: "class_queue s p = m # rest"
    and p0: "class_queue s 0 \<noteq> []"
  shows "\<exists>m' s'. tryDequeue s = (Some m', s') \<and> sched_inv s' \<and>
     (m' = m \<and> msg_class m' = p \<and> class_queue s' p = rest
      \<or> msg_class m' \<noteq> p \<and> class_queue s' p = m # rest \<and> wait_bound p s' < wait_bound p s)"
proof (cases "10 \<le> ps_consecutiveP0 s")
  case True
  have "ps_queues s ! p \<noteq> []" using p q by (auto simp: class_queue_def)
  with inv p yield_dist_bound obtain m' i s' where y: "yield_loop 3 s = (Some m', s')"
      "serves s i m' 0 i s'" "i = p \<or> yield_dist i p < yield_dist (ps_lastYield s) p"
    using yield_loop_closer by blast
  have "tryDequeue s = (Some m', s')" using True y(1) by (simp add: tryDequeue_def)
  moreover have "msg_class m' = i" "i = p \<longrightarrow> m' = m \<and> class_queue s' p = rest" "i \<noteq> p \<longrightarrow> class_queue s' p = m # rest"
    using serves_class [OF inv y(2)] q by auto
  moreover have "i \<noteq> p \<longrightarrow> wait_bound p s' < wait_bound p s"
    using y(2,3) True by (auto simp: wait_bound_def serves_def)
  ultimately show ?thesis using serves_inv [OF inv y(2)] by auto
next
  case False
  from p0 obtain m0 r0 where m0: "ps_queues s ! 0 = m0 # r0"
    by (auto simp: class_queue_def neq_Nil_conv)
  let ?s' = "s\<lparr>ps_queues := (ps_queues s)[0 := r0], ps_consecutiveP0 := ps_consecutiveP0 s + 1\<rparr>"
  have "tryDequeue s = (Some m0, ?s')" using False m0 by (simp add: tryDequeue_def)
  moreover have sv: "serves s 0 m0 (ps_consecutiveP0 s + 1) (ps_lastYield s) ?s'"
    using m0 inv by (auto simp: serves_def sched_inv_def)
  moreover have "wait_bound p ?s' < wait_bound p s"
    using False by (simp add: wait_bound_def)
  moreover have "msg_class m0 \<noteq> p" "class_queue ?s' p = m # rest"
    using serves_class [OF inv sv] p q by auto
  ultimately show ?thesis using serves_inv [OF inv sv] by blast
qed

lemma wait_bound_lt: "wait_bound p s < 33"
  using yield_dist_bound [of "ps_lastYield s" p] by (simp add: wait_bound_def)

text \<open>The first \<open>n\<close> messages of a lower queue are delivered, in order: the first within its bound, each
  further one within 33 dequeues of the one before it.\<close>

lemma served_within_bound:
  "sched_inv s \<Longrightarrow> p \<in> {1, 2, 3} \<Longrightarrow> p0_saturated bs s \<Longrightarrow> Suc n \<le> length (class_queue s p) \<Longrightarrow>
     wait_bound p s + 33 * n < N \<Longrightarrow> N \<le> length bs \<Longrightarrow>
     take (Suc n) (served p (take N (rounds bs s))) = take (Suc n) (class_queue s p)"
proof (induction bs arbitrary: s n N)
  case Nil
  then show ?case by simp
next
  case (Cons b bs)
  let ?s = "offer b s"
  obtain m rest where q: "class_queue s p = m # rest" using Cons.prems(4) by (cases "class_queue s p") auto
  obtain rest' where s: "sched_inv ?s" "class_queue ?s p = m # rest @ rest'" "class_queue ?s 0 \<noteq> []"
    using offer_keeps [OF Cons.prems(1), of b p] Cons.prems(3) q by auto
  from saturated_dequeue [OF s(1) Cons.prems(2) s(2,3)]
  obtain m' s' where d: "tryDequeue ?s = (Some m', s')" "sched_inv s'"
      "m' = m \<and> msg_class m' = p \<and> class_queue s' p = rest @ rest'
       \<or> msg_class m' \<noteq> p \<and> class_queue s' p = m # rest @ rest' \<and> wait_bound p s' < wait_bound p ?s"
    by blast
  obtain N' where N: "N = Suc N'" using Cons.prems(5) by (cases N) auto
  have sat: "p0_saturated bs s'" and len: "N' \<le> length bs" using Cons.prems(3,6) d(1) N by simp_all
  show ?case
  proof (cases "msg_class m' = p")
    case False
    with d have w: "class_queue s' p = m # rest @ rest'" "wait_bound p s' + 33 * n < N'"
      using Cons.prems(5) N wait_bound_offer [OF Cons.prems(1)] by auto
    have "take (Suc n) (served p (take N' (rounds bs s'))) = take (Suc n) (class_queue s' p)"
      by (rule Cons.IH [OF d(2) Cons.prems(2) sat _ w(2) len]) (use Cons.prems(4) q w(1) in simp)
    with False d(1) N w(1) q Cons.prems(4) show ?thesis by simp
  next
    case True
    with d(3) have m: "m' = m" "class_queue s' p = rest @ rest'" by auto
    show ?thesis
    proof (cases n)
      case 0
      with True d(1) N m q show ?thesis by simp
    next
      case (Suc k)
      have "take (Suc k) (served p (take N' (rounds bs s'))) = take (Suc k) (class_queue s' p)"
      proof (rule Cons.IH [OF d(2) Cons.prems(2) sat _ _ len])
        show "Suc k \<le> length (class_queue s' p)" using Cons.prems(4) q m(2) Suc by simp
        show "wait_bound p s' + 33 * k < N'" using wait_bound_lt [of p s'] Cons.prems(5) N Suc by simp
      qed
      with True d(1) N m q Suc Cons.prems(4) show ?thesis by simp
    qed
  qed
qed

text \<open>A producer that pushes a Priority-0 message before every dequeue saturates the scheduler.\<close>

lemma saturated_by_pushes:
  "sched_inv s \<Longrightarrow> om_Priority m = 0 \<Longrightarrow> p0_saturated (replicate n [m]) s"
proof (induction n arbitrary: s)
  case (Suc n)
  have "class_queue (offer [m] s) 0 \<noteq> []"
    using Suc.prems by (auto simp: offer_def sched_Push_def isFull_def class_queue_def sched_inv_def Let_def)
  moreover have "sched_inv (snd (tryDequeue (offer [m] s)))"
    using offer_keeps [OF Suc.prems(1)] by (intro tryDequeue_inv) blast
  ultimately show ?case using Suc by simp
qed simp

section \<open>Properties\<close>

text \<open>C15: whatever pushes and dequeues producers and the writer loop perform on a fresh scheduler, in
  any interleaving, within each priority the accepted messages are the delivered ones followed
  by those still queued, in the same order: nothing is lost, duplicated or reordered, and the
  queues stay within their capacities.\<close>

theorem scheduler_fifo_per_priority:
  assumes "NewPriorityScheduler capacity emergencyCap = Ret s"
    and "sched_trace sched_Push tryDequeue es s = (accepted, delivered, t)"
  shows "filter (\<lambda>m. msg_class m = p) accepted =
           filter (\<lambda>m. msg_class m = p) delivered @ class_queue t p \<and> sched_inv t"
  using prio.trace_fifo [OF _ assms(2), of p] sched_inv_new [OF assms(1)] by simp

theorem scheduler_fifo_per_priority_witness:
  "\<exists>s t. NewPriorityScheduler 1 1 = Ret s \<and>
     (let m = \<lparr>om_SessionID = ''s'', om_Priority = 2, om_Payload = ''p''\<rparr>
      in sched_trace sched_Push tryDequeue [EvPush m, EvPush m, EvNext, EvNext] s = ([m], [m], t)
         \<and> class_queue t 2 = [])"
proof -
  let ?s = "\<lparr>ps_queues = [[], [], [], []], ps_capacity = 1, ps_emergencyCap = 1,
             ps_consecutiveP0 = 0, ps_lastYield = 0\<rparr>"
  let ?m = "\<lparr>om_SessionID = ''s'', om_Priority = 2, om_Payload = ''p''\<rparr>"
  have new: "NewPriorityScheduler 1 1 = Ret ?s" by (simp add: NewPriorityScheduler_def)
  have tr: "sched_trace sched_Push tryDequeue [EvPush ?m, EvPush ?m, EvNext, EvNext] ?s = ([?m], [?m], ?s)"
    by (simp add: sched_Push_def isFull_def tryDequeue_def Let_def)
  from scheduler_fifo_per_priority [OF new tr, of 2] new tr show ?thesis
    by (auto simp: Let_def msg_class_def)
qed

text \<open>C16: a flood of Priority-0 messages starves no lower queue. When a Priority-0 message is waiting at
  every dequeue, of the messages waiting in a lower-priority queue the first \<open>n\<close> are delivered, in
  their order, within \<open>33 * n\<close> dequeues (33 for the message at the head, 33 more for every message
  in front of another one), whatever producers push to any queue in the meantime.\<close>

theorem scheduler_no_starvation:
  assumes "sched_inv s" and "p \<in> {1, 2, 3}" and "n \<le> length (class_queue s p)"
    and "p0_saturated batches s" and "33 * n \<le> length batches"
  shows "take n (served p (take (33 * n) (rounds batches s))) = take n (class_queue s p)"
proof (cases n)
  case (Suc k)
  have "wait_bound p s + 33 * k < 33 * n" using wait_bound_lt [of p s] Suc by simp
  from served_within_bound [OF assms(1,2,4) _ this assms(5)] assms(3) Suc show ?thesis by simp
qed simp

theorem scheduler_no_starvation_witness:
  "let m0 = \<lparr>om_SessionID = '''', om_Priority = 0, om_Payload = ''a''\<rparr>;
       m = \<lparr>om_SessionID = '''', om_Priority = 3, om_Payload = ''y''\<rparr>;
       m' = \<lparr>om_SessionID = '''', om_Priority = 3, om_Payload = ''z''\<rparr>;
       s = \<lparr>ps_queues = [[], [], [], [m, m']], ps_capacity = 2, ps_emergencyCap = 1,
            ps_consecutiveP0 = 0, ps_lastYield = 0\<rparr>
   in take 2 (served 3 (take 66 (rounds (replicate 66 [m0]) s))) = [m, m']"
proof -
  let ?top = "\<lparr>om_SessionID = '''', om_Priority = 0, om_Payload = ''a''\<rparr>"
  let ?m = "\<lparr>om_SessionID = '''', om_Priority = 3, om_Payload = ''y''\<rparr>"
  let ?m' = "\<lparr>om_SessionID = '''', om_Priority = 3, om_Payload = ''z''\<rparr>"
  let ?s = "\<lparr>ps_queues = [[], [], [], [?m, ?m']], ps_capacity = 2, ps_emergencyCap = 1, ps_consecutiveP0 = 0, ps_lastYield = 0\<rparr>"
  have "sched_inv ?s" by code_simp
  moreover from this have "p0_saturated (replicate 66 [?top]) ?s" by (rule saturated_by_pushes) simp
  moreover have q: "class_queue ?s 3 = [?m, ?m']" by (simp add: class_queue_def)
  ultimately show ?thesis using scheduler_no_starvation [of ?s 3 2 "replicate 66 [?top]"] by (simp add: Let_def)
qed

end
