(* ===== verification/Backpressure.thy ===== *)
theory Backpressure
  imports Buffers Complex_Main
begin

text \<open>
  The state coalescer (\<open>src/pkg/queues/coalescer.go\<close>), the utilisation of the result queue
  (\<open>results.go\<close>) and the hysteresis monitor that turns it into a throttling decision
  (\<open>hysteresis.go\<close>).
\<close>

section \<open>StateCoalescer\<close>

record state_snapshot =
  ss_payload :: bytes
  ss_generation :: "64 word"

record state_coalescer =
  sc_latestState :: "bytes option"
  sc_generation :: "64 word"
  sc_hasState :: bool

definition NewStateCoalescer :: state_coalescer where
  "NewStateCoalescer = \<lparr>sc_latestState = None, sc_generation = 0, sc_hasState = False\<rparr>"

definition sc_Update :: "bytes \<Rightarrow> state_coalescer \<Rightarrow> state_coalescer" where
  "sc_Update payload c =
     c\<lparr>sc_latestState := Some payload, sc_generation := sc_generation c + 1, sc_hasState := True\<rparr>"

text \<open>\<open>Peek\<close> copies \<open>latestState\<close>; the copy of a \<open>nil\<close> slice has length 0.\<close>

definition sc_Peek :: "state_coalescer \<Rightarrow> state_snapshot \<times> bool" where
  "sc_Peek c =
     (if \<not> sc_hasState c then (\<lparr>ss_payload = [], ss_generation = 0\<rparr>, False)
      else (\<lparr>ss_payload = (case sc_latestState c of None \<Rightarrow> [] | Some p \<Rightarrow> p),
             ss_generation = sc_generation c\<rparr>, True))"

definition sc_Commit :: "64 word \<Rightarrow> state_coalescer \<Rightarrow> bool \<times> state_coalescer" where
  "sc_Commit generation c =
     (if \<not> sc_hasState c then (False, c)
      else if sc_generation c \<noteq> generation then (False, c)
      else (True, c\<lparr>sc_latestState := None, sc_hasState := False\<rparr>))"

text \<open>Producers and consumers call the coalescer in any order: a schedule of calls.\<close>

datatype coalescer_op = CUpdate bytes | CPeek | CCommit "64 word"

fun coalescer_step :: "coalescer_op \<Rightarrow> state_coalescer \<Rightarrow> state_coalescer" where
  "coalescer_step (CUpdate p) c = sc_Update p c"
| "coalescer_step CPeek c = c"
| "coalescer_step (CCommit g) c = snd (sc_Commit g c)"

definition coalescer_run :: "coalescer_op list \<Rightarrow> state_coalescer \<Rightarrow> state_coalescer" where
  "coalescer_run ops c = fold coalescer_step ops c"

fun is_update :: "coalescer_op \<Rightarrow> bool" where
  "is_update (CUpdate p) = True"
| "is_update _ = False"

abbreviation updates_in :: "coalescer_op list \<Rightarrow> nat" where
  "updates_in ops \<equiv> length (filter is_update ops)"

lemma coalescer_run_simps [simp]:
  "coalescer_run [] c = c"
  "coalescer_run (op # ops) c = coalescer_run ops (coalescer_step op c)"
  by (simp_all add: coalescer_run_def)

text \<open>The generation counts the updates, modulo the word size; nothing else moves it.\<close>

lemma coalescer_run_generation:
  "sc_generation (coalescer_run ops c) = sc_generation c + of_nat (updates_in ops)"
proof (induction ops arbitrary: c)
  case Nil
  then show ?case by simp
next
  case (Cons op ops)
  then show ?case
    by (cases op) (auto simp: sc_Update_def sc_Commit_def)
qed

lemma word64_add_eq_iff: "(g :: 64 word) + of_nat n = g \<longleftrightarrow> 2 ^ 64 dvd n"
proof -
  have "g + of_nat n = g \<longleftrightarrow> (of_nat n :: 64 word) = 0"
    by (metis add_cancel_right_right)
  also have "\<dots> \<longleftrightarrow> 2 ^ LENGTH(64) dvd n"
    by (rule word_of_nat_eq_0_iff)
  finally show ?thesis by simp
qed

text \<open>Without an update in between, whatever state is left is the peeked one.\<close>

lemma coalescer_run_no_update:
  "updates_in ops = 0 \<Longrightarrow> sc_hasState (coalescer_run ops c) \<Longrightarrow>
     sc_hasState c \<and> sc_latestState (coalescer_run ops c) = sc_latestState c"
proof (induction ops arbitrary: c)
  case Nil
  then show ?case by simp
next
  case (Cons op ops)
  let ?c = "coalescer_step op c"
  have op: "\<not> is_update op" "updates_in ops = 0" using Cons.prems(1) by (auto split: if_splits)
  have IH: "sc_hasState ?c \<and> sc_latestState (coalescer_run ops ?c) = sc_latestState ?c"
    using Cons.IH [OF op(2)] Cons.prems(2) by simp
  have "?c = c" using op(1) IH by (cases op) (auto simp: sc_Commit_def)
  with IH show ?case by simp
qed

section \<open>float64 values\<close>

text \<open>The values of \<open>float64\<close> the monitor compares; signed zeros are one value, as no
  comparison separates them. Every comparison with NaN is false.\<close>

datatype float64 = NaN | NegInf | Fin rat | PosInf

fun f64_le :: "float64 \<Rightarrow> float64 \<Rightarrow> bool" where
  "f64_le NaN y = False"
| "f64_le x NaN = False"
| "f64_le NegInf y = True"
| "f64_le x PosInf = True"
| "f64_le (Fin a) (Fin b) = (a \<le> b)"
| "f64_le x y = False"

fun f64_lt :: "float64 \<Rightarrow> float64 \<Rightarrow> bool" where
  "f64_lt NaN y = False"
| "f64_lt x NaN = False"
| "f64_lt NegInf y = (y \<noteq> NegInf)"
| "f64_lt x PosInf = (x \<noteq> PosInf)"
| "f64_lt (Fin a) (Fin b) = (a < b)"
| "f64_lt x y = False"

text \<open>
  The quotient of two non-negative integers below \<open>2^53\<close> (both exact as \<open>float64\<close>), rounded
  to nearest, ties to even, with a 53-bit significand: the numerator is scaled by a power of
  two until the quotient has 53 bits, then divided with rounding. For \<open>a \<le> b\<close> the quotient
  is at least \<open>2^-53\<close> when it is not zero, so no subnormal arises.
\<close>

definition div_half_even :: "nat \<Rightarrow> nat \<Rightarrow> nat" where
  "div_half_even n d =
     (let q = n div d; r = n mod d
      in if 2 * r < d then q else if d < 2 * r then q + 1 else if even q then q else q + 1)"

function scale_up :: "nat \<Rightarrow> nat \<Rightarrow> nat \<Rightarrow> nat \<times> nat" where
  "scale_up a b k = (if a = 0 \<or> 2 ^ 52 * b \<le> a then (a, k) else scale_up (2 * a) b (Suc k))"
  by pat_completeness auto
termination
  by (relation "measure (\<lambda>(a, b, k). 2 ^ 52 * b - a)") auto

declare scale_up.simps [simp del]

definition f64_div :: "nat \<Rightarrow> nat \<Rightarrow> rat" where
  "f64_div a b = (case scale_up a b 0 of (n, k) \<Rightarrow> of_nat (div_half_even n b) / 2 ^ k)"

lemma scale_up_spec: "scale_up a b k = (n, k') \<Longrightarrow> n * 2 ^ k = a * 2 ^ k' \<and> k \<le> k'"
proof (induction a b k rule: scale_up.induct)
  case (1 a b k)
  show ?case
  proof (cases "a = 0 \<or> 2 ^ 52 * b \<le> a")
    case True
    with "1.prems" show ?thesis by (simp add: scale_up.simps [of a b k])
  next
    case False
    with "1.prems" have "scale_up (2 * a) b (Suc k) = (n, k')"
      by (simp add: scale_up.simps [of a b k])
    with "1.IH" [OF False] show ?thesis by auto
  qed
qed

lemma div_half_even_le:
  assumes "0 < d" and "n \<le> m * d"
  shows "div_half_even n d \<le> m"
proof (cases "n = m * d")
  case True
  with assms show ?thesis by (simp add: div_half_even_def)
next
  case False
  with assms have "n div d < m"
    by (simp add: div_less_iff_less_mult)
  then show ?thesis by (auto simp: div_half_even_def Let_def)
qed

lemma f64_div_bounds:
  assumes "0 < b" and "a \<le> b"
  shows "0 \<le> f64_div a b" and "f64_div a b \<le> 1"
proof -
  obtain n k where nk: "scale_up a b 0 = (n, k)" by fastforce
  with scale_up_spec [OF nk] assms(2) have "n \<le> 2 ^ k * b" by simp
  then have "div_half_even n b \<le> 2 ^ k" by (rule div_half_even_le [OF assms(1)])
  then have "(of_nat (div_half_even n b) :: rat) \<le> 2 ^ k"
    by (metis of_nat_le_iff of_nat_numeral of_nat_power)
  with nk show "f64_div a b \<le> 1" by (simp add: f64_div_def)
  from nk show "0 \<le> f64_div a b" by (simp add: f64_div_def)
qed

lemma f64_div_zero [simp]: "f64_div 0 b = 0"
  by (simp add: f64_div_def scale_up.simps div_half_even_def)

lemma f64_div_self:
  assumes "0 < b"
  shows "f64_div b b = 1"
proof -
  obtain n k where nk: "scale_up b b 0 = (n, k)" by fastforce
  with scale_up_spec [OF nk] have "n = 2 ^ k * b" by simp
  with nk assms show ?thesis by (simp add: f64_div_def div_half_even_def)
qed

section \<open>Utilisation\<close>

text \<open>What the monitor relies on of a \<open>UtilizationProvider\<close>: in every state its readings lie
  between 0.0 and 1.0, a full provider reads 1.0 and an empty one 0.0.\<close>

locale utilization_provider =
  fixes invar :: "'q \<Rightarrow> bool"
    and fill :: "'q \<Rightarrow> nat"
    and cap :: "'q \<Rightarrow> nat"
    and util :: "'q \<Rightarrow> float64"
  assumes reading: "invar q \<Longrightarrow> \<exists>r. util q = Fin r \<and> 0 \<le> r \<and> r \<le> 1"
    and reading_full: "invar q \<Longrightarrow> fill q = cap q \<Longrightarrow> util q = Fin 1"
    and reading_empty: "invar q \<Longrightarrow> fill q = 0 \<Longrightarrow> util q = Fin 0"

text \<open>\<open>CommandResultQueue.Utilization\<close>; a positive capacity is part of the queue's invariant.\<close>

definition result_Utilization :: "result_queue \<Rightarrow> float64" where
  "result_Utilization q =
     (if rq_capacity q = 0 then (if rq_items q = [] then NaN else PosInf)
      else Fin (f64_div (length (rq_items q)) (rq_capacity q)))"

interpretation result_util: utilization_provider result_inv "\<lambda>q. length (rq_items q)" rq_capacity
  result_Utilization
  by unfold_locales
    (auto simp: result_inv_def result_Utilization_def f64_div_bounds f64_div_self)

section \<open>HysteresisMonitor\<close>

text \<open>The provider is an interface value: \<open>None\<close> is \<open>nil\<close>, otherwise the reading it gives on the
  state of the queue behind it.\<close>

record 'q hysteresis_monitor =
  hm_provider :: "'q \<Rightarrow> float64"
  hm_isThrottled :: bool
  hm_upperPercent :: float64
  hm_lowerPercent :: float64

definition NewHysteresisMonitor ::
  "('q \<Rightarrow> float64) option \<Rightarrow> float64 \<Rightarrow> float64 \<Rightarrow> 'q hysteresis_monitor go" where
  "NewHysteresisMonitor provider upper lower =
     (case provider of
        None \<Rightarrow> Panic
      | Some p \<Rightarrow>
          if upper = NaN \<or> lower = NaN then Panic
          else if f64_le upper lower then Panic
          else if f64_lt lower (Fin 0) \<or> f64_lt (Fin 1) upper then Panic
          else Ret \<lparr>hm_provider = p, hm_isThrottled = False,
                    hm_upperPercent = upper, hm_lowerPercent = lower\<rparr>)"

definition IsThrottled :: "'q \<Rightarrow> 'q hysteresis_monitor \<Rightarrow> bool \<times> 'q hysteresis_monitor" where
  "IsThrottled q m =
     (let util = hm_provider m q;
          m' = (if hm_isThrottled m then
                  (if f64_le util (hm_lowerPercent m) then m\<lparr>hm_isThrottled := False\<rparr> else m)
                else
                  (if f64_le (hm_upperPercent m) util then m\<lparr>hm_isThrottled := True\<rparr> else m))
      in (hm_isThrottled m', m'))"

text \<open>Polling the monitor at a sequence of provider states.\<close>

definition poll :: "'q list \<Rightarrow> 'q hysteresis_monitor \<Rightarrow> 'q hysteresis_monitor" where
  "poll qs m = fold (\<lambda>q m. snd (IsThrottled q m)) qs m"

text \<open>The reference: the last reading outside the band decides; with none, nothing changes.\<close>

definition outside :: "'q hysteresis_monitor \<Rightarrow> 'q \<Rightarrow> bool" where
  "outside m q \<longleftrightarrow> f64_le (hm_provider m q) (hm_lowerPercent m) \<or> f64_le (hm_upperPercent m) (hm_provider m q)"

definition throttle_reference :: "'q hysteresis_monitor \<Rightarrow> 'q list \<Rightarrow> bool" where
  "throttle_reference m qs =
     (case filter (outside m) qs of
        [] \<Rightarrow> hm_isThrottled m
      | rs \<Rightarrow> f64_le (hm_upperPercent m) (hm_provider m (last rs)))"

text \<open>A monitor the constructor accepts has finite thresholds in order.\<close>

definition hm_valid :: "'q hysteresis_monitor \<Rightarrow> bool" where
  "hm_valid m \<longleftrightarrow> (\<exists>u l. hm_upperPercent m = Fin u \<and> hm_lowerPercent m = Fin l
      \<and> 0 \<le> l \<and> l < u \<and> u \<le> 1)"

lemma NewHysteresisMonitor_valid:
  assumes "NewHysteresisMonitor p u l = Ret m"
  shows "hm_valid m"
proof -
  have "u \<noteq> NaN \<and> l \<noteq> NaN \<and> \<not> f64_le u l \<and> \<not> f64_lt l (Fin 0) \<and> \<not> f64_lt (Fin 1) u
      \<and> hm_upperPercent m = u \<and> hm_lowerPercent m = l"
    using assms by (auto simp: NewHysteresisMonitor_def split: option.splits if_splits)
  then show ?thesis
    by (cases u; cases l) (auto simp: hm_valid_def)
qed

lemma IsThrottled_frame:
  "hm_provider (snd (IsThrottled q m)) = hm_provider m"
  "hm_upperPercent (snd (IsThrottled q m)) = hm_upperPercent m"
  "hm_lowerPercent (snd (IsThrottled q m)) = hm_lowerPercent m"
  by (simp_all add: IsThrottled_def Let_def)

lemma outside_frame: "outside (snd (IsThrottled q m)) = outside m"
  by (simp add: outside_def fun_eq_iff IsThrottled_frame)

lemma f64_band_disjoint:
  "hm_valid m \<Longrightarrow> f64_le r (hm_lowerPercent m) \<Longrightarrow> \<not> f64_le (hm_upperPercent m) r"
  by (cases r) (auto simp: hm_valid_def)

lemma IsThrottled_single:
  "hm_valid m \<Longrightarrow> hm_isThrottled (snd (IsThrottled q m)) =
     (if outside m q then f64_le (hm_upperPercent m) (hm_provider m q) else hm_isThrottled m)"
  using f64_band_disjoint [of m "hm_provider m q"]
  by (auto simp: IsThrottled_def Let_def outside_def)

lemma poll_reference: "hm_valid m \<Longrightarrow> hm_isThrottled (poll qs m) = throttle_reference m qs"
proof (induction qs arbitrary: m)
  case Nil
  then show ?case by (simp add: poll_def throttle_reference_def)
next
  case (Cons q qs)
  let ?m = "snd (IsThrottled q m)"
  have "hm_valid ?m" using Cons.prems by (simp add: hm_valid_def IsThrottled_frame)
  then have "hm_isThrottled (poll (q # qs) m) = throttle_reference ?m qs"
    using Cons.IH by (simp add: poll_def)
  also have "\<dots> = throttle_reference m (q # qs)"
    using IsThrottled_single [OF Cons.prems, of q]
    by (auto simp: throttle_reference_def outside_frame IsThrottled_frame split: list.splits)
  finally show ?case .
qed

lemma throttle_reference_snoc:
  "outside m q \<Longrightarrow> throttle_reference m (qs @ [q]) = f64_le (hm_upperPercent m) (hm_provider m q)"
  by (cases "filter (outside m) qs") (simp_all add: throttle_reference_def)

section \<open>Properties\<close>

text \<open>C24: a consumer that peeked a state, while other goroutines run any calls with fewer than \<open>2^64\<close>
  updates among them, commits successfully exactly when no update came in between and nobody
  committed before; then the state it clears is the one it peeked, and a refused commit leaves
  the newer state in place.\<close>

theorem coalescer_commit_exact:
  assumes "sc_Peek c = (snap, True)" and "updates_in ops < 2 ^ 64"
  shows "(fst (sc_Commit (ss_generation snap) (coalescer_run ops c)) \<longleftrightarrow>
            updates_in ops = 0 \<and> sc_hasState (coalescer_run ops c))
     \<and> (if fst (sc_Commit (ss_generation snap) (coalescer_run ops c))
        then fst (sc_Peek (coalescer_run ops c)) = snap
           \<and> \<not> snd (sc_Peek (snd (sc_Commit (ss_generation snap) (coalescer_run ops c))))
        else snd (sc_Commit (ss_generation snap) (coalescer_run ops c)) = coalescer_run ops c)"
proof -
  let ?c = "coalescer_run ops c"
  have snap: "ss_generation snap = sc_generation c" "sc_hasState c"
    using assms(1) by (auto simp: sc_Peek_def split: if_splits)
  have gen: "sc_generation ?c = ss_generation snap \<longleftrightarrow> updates_in ops = 0"
    using assms(2) word64_add_eq_iff [of "sc_generation c" "updates_in ops"]
    by (auto simp: coalescer_run_generation snap dest: dvd_imp_le)
  have "fst (sc_Peek ?c) = snap" if "updates_in ops = 0" "sc_hasState ?c"
    using that assms(1) coalescer_run_no_update [OF that]
    by (auto simp: sc_Peek_def coalescer_run_generation)
  with gen show ?thesis by (auto simp: sc_Commit_def sc_Peek_def)
qed

theorem coalescer_commit_exact_witness:
  "sc_Peek (sc_Update ''s'' NewStateCoalescer) = (\<lparr>ss_payload = ''s'', ss_generation = 1\<rparr>, True)
     \<and> \<not> fst (sc_Commit 1 (coalescer_run [CUpdate ''t''] (sc_Update ''s'' NewStateCoalescer)))"
  using coalescer_commit_exact [of "sc_Update ''s'' NewStateCoalescer"
      "\<lparr>ss_payload = ''s'', ss_generation = 1\<rparr>" "[CUpdate ''t'']"]
  by (simp add: sc_Peek_def sc_Update_def NewStateCoalescer_def)

text \<open>C25: a monitor on the command result queue, polled at any sequence of queue states, is throttled
  exactly when the last reading outside the band \<open>(lower, upper)\<close> was at or above the upper mark;
  in particular it is throttled after a poll of a full queue and not after a poll of an empty
  one, for every pair of thresholds the constructor accepts.\<close>

theorem throttling_follows_last_crossing:
  assumes "NewHysteresisMonitor (Some result_Utilization) upper lower = Ret m" and "result_inv q"
  shows "hm_isThrottled (poll qs m) = throttle_reference m qs
     \<and> (length (rq_items q) = rq_capacity q \<longrightarrow> hm_isThrottled (poll (qs @ [q]) m))
     \<and> (rq_items q = [] \<longrightarrow> \<not> hm_isThrottled (poll (qs @ [q]) m))"
proof -
  have v: "hm_valid m" by (rule NewHysteresisMonitor_valid [OF assms(1)])
  have p: "hm_provider m = result_Utilization"
    using assms(1) by (auto simp: NewHysteresisMonitor_def split: if_splits)
  have last: "hm_isThrottled (poll (qs @ [q]) m) = f64_le (hm_upperPercent m) (hm_provider m q)"
    if "outside m q"
    using that by (simp add: poll_reference [OF v] throttle_reference_snoc)
  have "hm_isThrottled (poll (qs @ [q]) m)" if "length (rq_items q) = rq_capacity q"
    using result_util.reading_full [OF assms(2) that] v last
    by (auto simp: p outside_def hm_valid_def)
  moreover have "\<not> hm_isThrottled (poll (qs @ [q]) m)" if "rq_items q = []"
    using result_util.reading_empty [OF assms(2)] that v last
    by (auto simp: p outside_def hm_valid_def)
  ultimately show ?thesis using poll_reference [OF v] by blast
qed

theorem throttling_follows_last_crossing_witness:
  "\<exists>m. NewHysteresisMonitor (Some result_Utilization) (Fin (4 / 5)) (Fin (1 / 2)) = Ret m
     \<and> hm_isThrottled (poll [\<lparr>rq_items = [''x''], rq_capacity = 1\<rparr>] m)"
  using throttling_follows_last_crossing [of "Fin (4 / 5)" "Fin (1 / 2)"
      "\<lparr>hm_provider = result_Utilization, hm_isThrottled = False, hm_upperPercent = Fin (4 / 5),
        hm_lowerPercent = Fin (1 / 2)\<rparr>" "\<lparr>rq_items = [''x''], rq_capacity = 1\<rparr>" "[]"]
  by (simp add: NewHysteresisMonitor_def result_inv_def)

end
