(* ===== verification/Go_Text.thy ===== *)
theory Go_Text
  imports Uc_Prelude "HOL-Library.Sublist"
begin

text \<open>
  What the client uses of Go's \<open>strings\<close>, \<open>bytes\<close>, \<open>strconv\<close> and \<open>fmt\<close>: decimal numerals,
  \<open>TrimSpace\<close>, ASCII case folding, and their basic laws.
\<close>

section \<open>Characters\<close>

abbreviation code :: "char \<Rightarrow> nat" where "code c \<equiv> of_char c"

definition is_digit :: "char \<Rightarrow> bool" where
  "is_digit c \<longleftrightarrow> 48 \<le> code c \<and> code c \<le> 57"

definition digit_val :: "char \<Rightarrow> nat" where "digit_val c = code c - 48"

section \<open>Decimal numerals\<close>

fun show_nat :: "nat \<Rightarrow> bytes" where
  "show_nat n = (if n < 10 then [char_of (48 + n)] else show_nat (n div 10) @ [char_of (48 + n mod 10)])"

declare show_nat.simps [simp del]

definition show_int :: "int \<Rightarrow> bytes" where
  "show_int i = (if i < 0 then CHR ''-'' # show_nat (nat (- i)) else show_nat (nat i))"

definition digits_val :: "bytes \<Rightarrow> nat" where
  "digits_val ds = foldl (\<lambda>n c. 10 * n + digit_val c) 0 ds"

text \<open>\<open>strconv.ParseInt(s, 10, 64)\<close>: an optional sign, at least one digit, in range.\<close>

definition ParseInt64 :: "bytes \<Rightarrow> int option" where
  "ParseInt64 s =
     (let (neg, ds) = (case s of
           c # r \<Rightarrow> if c = CHR ''-'' then (True, r) else if c = CHR ''+'' then (False, r) else (False, s)
         | [] \<Rightarrow> (False, []))
      in if ds = [] \<or> \<not> list_all is_digit ds then None
         else let v = (if neg then - int (digits_val ds) else int (digits_val ds))
              in if - (2 ^ 63) \<le> v \<and> v < 2 ^ 63 then Some v else None)"

text \<open>\<open>strconv.ParseUint(s, 10, 32)\<close>: digits only.\<close>

definition ParseUint32 :: "bytes \<Rightarrow> nat option" where
  "ParseUint32 s =
     (if s = [] \<or> \<not> list_all is_digit s then None
      else if digits_val s < 2 ^ 32 then Some (digits_val s) else None)"

lemma code_digit [simp]: "n < 10 \<Longrightarrow> code (char_of (48 + n)) = 48 + (n :: nat)"
  by (simp add: of_char_of)

lemma is_digit_char [simp]: "n < 10 \<Longrightarrow> is_digit (char_of (48 + (n :: nat)))"
  by (simp add: is_digit_def)

lemma show_nat_digits: "list_all is_digit (show_nat n)"
proof (induction n rule: show_nat.induct)
  case (1 n)
  then show ?case
    by (subst show_nat.simps) auto
qed

lemma show_nat_nonempty [simp]: "show_nat n \<noteq> []"
  by (subst show_nat.simps) simp

lemma digits_val_snoc: "digits_val (ds @ [c]) = 10 * digits_val ds + digit_val c"
  by (simp add: digits_val_def)

lemma digits_val_show [simp]: "digits_val (show_nat n) = n"
proof (induction n rule: show_nat.induct)
  case (1 n)
  show ?case
  proof (cases "n < 10")
    case True
    then show ?thesis by (simp add: show_nat.simps [of n] digits_val_def digit_val_def)
  next
    case False
    with "1.IH" show ?thesis
      by (simp add: show_nat.simps [of n] digits_val_snoc digit_val_def)
  qed
qed

lemma show_nat_inj [simp]: "show_nat m = show_nat n \<longleftrightarrow> m = n"
  by (metis digits_val_show)

lemma digit_not_in_show: "\<not> is_digit c \<Longrightarrow> c \<notin> set (show_nat n)"
  using show_nat_digits [of n] by (auto simp: list_all_iff)

lemma minus_not_digit [simp]: "\<not> is_digit (CHR ''-'')" and slash_not_digit [simp]: "\<not> is_digit (CHR ''/'')"
  and plus_not_digit [simp]: "\<not> is_digit (CHR ''+'')" and colon_not_digit [simp]: "\<not> is_digit (CHR '':'')"
  by (simp_all add: is_digit_def)

lemma hd_show_nat: "hd (show_nat n) \<noteq> CHR ''-'' \<and> hd (show_nat n) \<noteq> CHR ''+''"
  using digit_not_in_show [of _ n] by (metis hd_in_set minus_not_digit plus_not_digit show_nat_nonempty)

lemma show_int_inj [simp]: "show_int i = show_int j \<longleftrightarrow> i = j"
proof
  assume a: "show_int i = show_int j"
  show "i = j"
  proof (cases "i < 0")
    case True
    with a hd_show_nat [of "nat j"] have "j < 0" by (auto simp: show_int_def split: if_splits) (metis list.sel(1))
    with True a show ?thesis by (simp add: show_int_def)
  next
    case False
    with a hd_show_nat [of "nat i"] have "\<not> j < 0" by (auto simp: show_int_def split: if_splits)
    with False a show ?thesis by (simp add: show_int_def)
  qed
qed simp

lemma char_not_in_show_int: "c \<noteq> CHR ''-'' \<Longrightarrow> \<not> is_digit c \<Longrightarrow> c \<notin> set (show_int i)"
  by (auto simp: show_int_def digit_not_in_show)

text \<open>Round trip of 64-bit integers through \<open>FormatInt\<close> and \<open>ParseInt\<close>.\<close>

lemma ParseInt64_show_int:
  assumes "- (2 ^ 63) \<le> i" and "i < 2 ^ 63"
  shows "ParseInt64 (show_int i) = Some i"
proof (cases "i < 0")
  case True
  then have "show_int i = CHR ''-'' # show_nat (nat (- i))" by (simp add: show_int_def)
  with True assms show ?thesis
    by (simp add: ParseInt64_def show_nat_digits Let_def)
next
  case False
  obtain c r where c: "show_nat (nat i) = c # r" by (cases "show_nat (nat i)") auto
  with hd_show_nat [of "nat i"] have "c \<noteq> CHR ''-''" "c \<noteq> CHR ''+''" by auto
  with False assms c show_nat_digits [of "nat i"] digits_val_show [of "nat i"] show ?thesis
    by (auto simp: ParseInt64_def show_int_def Let_def)
qed

section \<open>White space\<close>

text \<open>The UTF-8 encodings of the runes \<open>unicode.IsSpace\<close> accepts.\<close>

definition ws_runes :: "bytes list" where
  "ws_runes =
     [[CHR 0x20], [CHR 0x09], [CHR 0x0A], [CHR 0x0B], [CHR 0x0C], [CHR 0x0D],
      [CHR 0xC2, CHR 0x85], [CHR 0xC2, CHR 0xA0], [CHR 0xE1, CHR 0x9A, CHR 0x80]]
     @ map (\<lambda>n. [CHR 0xE2, CHR 0x80, char_of (128 + n)]) [0..<11]
     @ [[CHR 0xE2, CHR 0x80, CHR 0xA8], [CHR 0xE2, CHR 0x80, CHR 0xA9], [CHR 0xE2, CHR 0x80, CHR 0xAF],
        [CHR 0xE2, CHR 0x81, CHR 0x9F], [CHR 0xE3, CHR 0x80, CHR 0x80]]"

text \<open>Dropping runes of a list from the front, as long as one fits.\<close>

function trim_front :: "bytes list \<Rightarrow> bytes \<Rightarrow> bytes" where
  "trim_front ws xs =
     (case find (\<lambda>w. w \<noteq> [] \<and> take (length w) xs = w) ws of
        None \<Rightarrow> xs
      | Some w \<Rightarrow> trim_front ws (drop (length w) xs))"
  by pat_completeness auto
termination
proof (relation "measure (\<lambda>(ws, xs). length xs)")
  fix ws xs w
  assume "find (\<lambda>w. w \<noteq> [] \<and> take (length w) xs = w) ws = Some w"
  then have "w \<noteq> []" "take (length w) xs = w" by (auto simp: find_Some_iff)
  then have "0 < length w" "0 < length xs" by auto
  then show "((ws, drop (length w) xs), (ws, xs)) \<in> measure (\<lambda>(ws, xs). length xs)" by simp
qed simp

declare trim_front.simps [simp del]

definition TrimSpace :: "bytes \<Rightarrow> bytes" where
  "TrimSpace xs = rev (trim_front (map rev ws_runes) (rev (trim_front ws_runes xs)))"

lemma trim_front_suffix: "suffix (trim_front ws xs) xs"
proof (induction ws xs rule: trim_front.induct)
  case (1 ws xs)
  show ?case
  proof (cases "find (\<lambda>w. w \<noteq> [] \<and> take (length w) xs = w) ws")
    case None
    then show ?thesis by (subst trim_front.simps) simp
  next
    case (Some w)
    with "1.IH" have "suffix (trim_front ws (drop (length w) xs)) (drop (length w) xs)" by simp
    with Some show ?thesis
      by (subst trim_front.simps) (simp, meson suffix_drop suffix_order.trans)
  qed
qed

lemma length_TrimSpace: "length (TrimSpace xs) \<le> length xs"
  unfolding TrimSpace_def length_rev
  by (metis length_rev order_trans suffix_length_le trim_front_suffix)

section \<open>Case folding\<close>

text \<open>ASCII letters only: the identifiers and URL schemes compared are ASCII.\<close>

definition lower_char :: "char \<Rightarrow> char" where
  "lower_char c = (if 65 \<le> code c \<and> code c \<le> 90 then char_of (code c + 32) else c)"

definition upper_char :: "char \<Rightarrow> char" where
  "upper_char c = (if 97 \<le> code c \<and> code c \<le> 122 then char_of (code c - 32) else c)"

definition ToLower :: "bytes \<Rightarrow> bytes" where "ToLower s = map lower_char s"

definition EqualFold :: "bytes \<Rightarrow> bytes \<Rightarrow> bool" where
  "EqualFold s t \<longleftrightarrow> ToLower s = ToLower t"

definition HasSuffix :: "bytes \<Rightarrow> bytes \<Rightarrow> bool" where
  "HasSuffix s t \<longleftrightarrow> length t \<le> length s \<and> drop (length s - length t) s = t"

end
