(* ===== verification/Go_Json.thy ===== *)
theory Go_Json
  imports Go_Text Complex_Main
begin

text \<open>
  What the client uses of Go's \<open>encoding/json\<close>, \<open>unicode/utf8\<close> and \<open>strconv\<close>: the byte-driven
  scanner that decides syntactic validity, the streaming decoder's split of its input into a
  first value and the rest, the members of an object, the quoting and unquoting of string
  literals, the compaction of raw messages, and the conversion of number literals. The
  scanner keeps Go's states, its stack of open containers and its nesting limit.
\<close>

section \<open>Characters\<close>

definition is_space :: "char \<Rightarrow> bool" where
  "is_space c \<longleftrightarrow> c = CHR '' '' \<or> c = CHR 0x09 \<or> c = CHR 0x0D \<or> c = CHR 0x0A"

definition is_digit19 :: "char \<Rightarrow> bool" where
  "is_digit19 c \<longleftrightarrow> 49 \<le> code c \<and> code c \<le> 57"

definition is_hex :: "char \<Rightarrow> bool" where
  "is_hex c \<longleftrightarrow> is_digit c \<or> (97 \<le> code c \<and> code c \<le> 102) \<or> (65 \<le> code c \<and> code c \<le> 70)"

section \<open>The scanner\<close>

datatype parse_state = ParseObjectKey | ParseObjectValue | ParseArrayValue

datatype scan_state =
    BeginValueOrEmpty | BeginValue | BeginStringOrEmpty | BeginString | EndValue | EndTop
  | InString | InStringEsc | InStringEscU | InStringEscU1 | InStringEscU12 | InStringEscU123
  | Neg | Int1 | Int0 | Dot | Dot0 | Exp | ExpSign | Exp0
  | LitT | LitTr | LitTru | LitF | LitFa | LitFal | LitFals | LitN | LitNu | LitNul
  | ScanErrorState

datatype scan_op = ScanContinue | ScanEndContainer | ScanEnd | ScanError

type_synonym scanner = "scan_state \<times> parse_state list"

definition maxNestingDepth :: nat where "maxNestingDepth = 10000"

definition push_parse :: "scan_state \<Rightarrow> parse_state \<Rightarrow> parse_state list \<Rightarrow> scanner \<times> scan_op" where
  "push_parse st p stack =
     (if Suc (length stack) \<le> maxNestingDepth then ((st, p # stack), ScanContinue)
      else ((ScanErrorState, p # stack), ScanError))"

definition pop_parse :: "parse_state list \<Rightarrow> scanner \<times> scan_op" where
  "pop_parse stack =
     (let rest = tl stack in ((if rest = [] then EndTop else EndValue, rest), ScanEndContainer))"

text \<open>After a value: at the top level only space may follow (Go reports a non-space byte one
  call later); inside a container the separators and closing brackets.\<close>

definition end_value :: "parse_state list \<Rightarrow> char \<Rightarrow> scanner \<times> scan_op" where
  "end_value stack c =
     (case stack of
        [] \<Rightarrow> ((if is_space c then EndTop else ScanErrorState, []), ScanEnd)
      | p # rest \<Rightarrow>
          if is_space c then ((EndValue, stack), ScanContinue)
          else case p of
            ParseObjectKey \<Rightarrow>
              if c = CHR '':'' then ((BeginValue, ParseObjectValue # rest), ScanContinue)
              else ((ScanErrorState, stack), ScanError)
          | ParseObjectValue \<Rightarrow>
              if c = CHR '','' then ((BeginString, ParseObjectKey # rest), ScanContinue)
              else if c = CHR ''}'' then pop_parse stack
              else ((ScanErrorState, stack), ScanError)
          | ParseArrayValue \<Rightarrow>
              if c = CHR '','' then ((BeginValue, stack), ScanContinue)
              else if c = CHR '']'' then pop_parse stack
              else ((ScanErrorState, stack), ScanError))"

definition begin_value :: "parse_state list \<Rightarrow> char \<Rightarrow> scanner \<times> scan_op" where
  "begin_value stack c =
     (if is_space c then ((BeginValue, stack), ScanContinue)
      else if c = CHR ''{'' then push_parse BeginStringOrEmpty ParseObjectKey stack
      else if c = CHR ''['' then push_parse BeginValueOrEmpty ParseArrayValue stack
      else if c = CHR 0x22 then ((InString, stack), ScanContinue)
      else if c = CHR ''-'' then ((Neg, stack), ScanContinue)
      else if c = CHR ''0'' then ((Int0, stack), ScanContinue)
      else if c = CHR ''t'' then ((LitT, stack), ScanContinue)
      else if c = CHR ''f'' then ((LitF, stack), ScanContinue)
      else if c = CHR ''n'' then ((LitN, stack), ScanContinue)
      else if is_digit19 c then ((Int1, stack), ScanContinue)
      else ((ScanErrorState, stack), ScanError))"

definition begin_string :: "parse_state list \<Rightarrow> char \<Rightarrow> scanner \<times> scan_op" where
  "begin_string stack c =
     (if is_space c then ((BeginString, stack), ScanContinue)
      else if c = CHR 0x22 then ((InString, stack), ScanContinue)
      else ((ScanErrorState, stack), ScanError))"

text \<open>A step to one fixed state on a condition, an error otherwise.\<close>

definition expect :: "bool \<Rightarrow> scan_state \<Rightarrow> parse_state list \<Rightarrow> scanner \<times> scan_op" where
  "expect b st stack = (if b then ((st, stack), ScanContinue) else ((ScanErrorState, stack), ScanError))"

definition int0_step :: "parse_state list \<Rightarrow> char \<Rightarrow> scanner \<times> scan_op" where
  "int0_step stack c =
     (if c = CHR ''.'' then ((Dot, stack), ScanContinue)
      else if c = CHR ''e'' \<or> c = CHR ''E'' then ((Exp, stack), ScanContinue)
      else end_value stack c)"

fun scan_step :: "scanner \<Rightarrow> char \<Rightarrow> scanner \<times> scan_op" where
  "scan_step (BeginValueOrEmpty, k) c =
     (if is_space c then ((BeginValueOrEmpty, k), ScanContinue)
      else if c = CHR '']'' then end_value k c else begin_value k c)"
| "scan_step (BeginValue, k) c = begin_value k c"
| "scan_step (BeginStringOrEmpty, k) c =
     (if is_space c then ((BeginStringOrEmpty, k), ScanContinue)
      else if c = CHR ''}'' then end_value (ParseObjectValue # tl k) c else begin_string k c)"
| "scan_step (BeginString, k) c = begin_string k c"
| "scan_step (EndValue, k) c = end_value k c"
| "scan_step (EndTop, k) c = ((if is_space c then EndTop else ScanErrorState, k), ScanEnd)"
| "scan_step (InString, k) c =
     (if c = CHR 0x22 then ((EndValue, k), ScanContinue)
      else if c = CHR 0x5C then ((InStringEsc, k), ScanContinue)
      else if code c < 32 then ((ScanErrorState, k), ScanError)
      else ((InString, k), ScanContinue))"
| "scan_step (InStringEsc, k) c =
     (if c \<in> set ''bfnrt/'' \<or> c = CHR 0x5C \<or> c = CHR 0x22 then ((InString, k), ScanContinue)
      else expect (c = CHR ''u'') InStringEscU k)"
| "scan_step (InStringEscU, k) c = expect (is_hex c) InStringEscU1 k"
| "scan_step (InStringEscU1, k) c = expect (is_hex c) InStringEscU12 k"
| "scan_step (InStringEscU12, k) c = expect (is_hex c) InStringEscU123 k"
| "scan_step (InStringEscU123, k) c = expect (is_hex c) InString k"
| "scan_step (Neg, k) c =
     (if c = CHR ''0'' then ((Int0, k), ScanContinue) else expect (is_digit19 c) Int1 k)"
| "scan_step (Int1, k) c = (if is_digit c then ((Int1, k), ScanContinue) else int0_step k c)"
| "scan_step (Int0, k) c = int0_step k c"
| "scan_step (Dot, k) c = expect (is_digit c) Dot0 k"
| "scan_step (Dot0, k) c =
     (if is_digit c then ((Dot0, k), ScanContinue)
      else if c = CHR ''e'' \<or> c = CHR ''E'' then ((Exp, k), ScanContinue)
      else end_value k c)"
| "scan_step (Exp, k) c =
     (if c = CHR ''+'' \<or> c = CHR ''-'' then ((ExpSign, k), ScanContinue) else expect (is_digit c) Exp0 k)"
| "scan_step (ExpSign, k) c = expect (is_digit c) Exp0 k"
| "scan_step (Exp0, k) c = (if is_digit c then ((Exp0, k), ScanContinue) else end_value k c)"
| "scan_step (LitT, k) c = expect (c = CHR ''r'') LitTr k"
| "scan_step (LitTr, k) c = expect (c = CHR ''u'') LitTru k"
| "scan_step (LitTru, k) c = expect (c = CHR ''e'') EndValue k"
| "scan_step (LitF, k) c = expect (c = CHR ''a'') LitFa k"
| "scan_step (LitFa, k) c = expect (c = CHR ''l'') LitFal k"
| "scan_step (LitFal, k) c = expect (c = CHR ''s'') LitFals k"
| "scan_step (LitFals, k) c = expect (c = CHR ''e'') EndValue k"
| "scan_step (LitN, k) c = expect (c = CHR ''u'') LitNu k"
| "scan_step (LitNu, k) c = expect (c = CHR ''l'') LitNul k"
| "scan_step (LitNul, k) c = expect (c = CHR ''l'') EndValue k"
| "scan_step (ScanErrorState, k) c = ((ScanErrorState, k), ScanError)"

definition scan_start :: scanner where "scan_start = (BeginValue, [])"

definition scan_run :: "scanner \<Rightarrow> bytes \<Rightarrow> scanner" where
  "scan_run st data = fold (\<lambda>c st. fst (scan_step st c)) data st"

text \<open>\<open>json.Valid\<close>: the run of the scanner, closed by the space that \<open>eof\<close> feeds it.\<close>

definition json_Valid :: "bytes \<Rightarrow> bool" where
  "json_Valid data \<longleftrightarrow> fst (scan_run scan_start (data @ '' '')) = EndTop"

section \<open>The streaming decoder\<close>

text \<open>\<open>Decoder.Decode\<close> reads one value: the scanned bytes and the rest, the end of the input,
  or a syntax error (which includes an input that ends inside a value).\<close>

datatype decoded = DValue bytes bytes | DEOF | DSyntax

fun dec_scan :: "scanner \<Rightarrow> bytes \<Rightarrow> bytes \<Rightarrow> decoded" where
  "dec_scan st acc [] =
     (if snd (scan_step st (CHR '' '')) = ScanEnd then DValue (rev acc) []
      else if list_all is_space acc then DEOF else DSyntax)"
| "dec_scan st acc (c # cs) =
     (case scan_step st c of
        (st', ScanEnd) \<Rightarrow> DValue (rev acc) (c # cs)
      | (st', ScanEndContainer) \<Rightarrow>
          if snd st' = [] then DValue (rev (c # acc)) cs else dec_scan st' (c # acc) cs
      | (st', ScanError) \<Rightarrow> DSyntax
      | (st', ScanContinue) \<Rightarrow> dec_scan st' (c # acc) cs)"

definition skip_space :: "bytes \<Rightarrow> bytes" where
  "skip_space xs = dropWhile is_space xs"

definition decode_first :: "bytes \<Rightarrow> decoded" where
  "decode_first xs =
     (case dec_scan scan_start [] xs of DValue raw rest \<Rightarrow> DValue (skip_space raw) rest | d \<Rightarrow> d)"

lemma dec_scan_rest: "dec_scan st acc xs = DValue v r \<Longrightarrow> length r \<le> length xs"
proof (induction st acc xs rule: dec_scan.induct)
  case (1 st acc)
  then show ?case by (simp split: if_splits)
next
  case (2 st acc c cs)
  then show ?case
    by (fastforce split: prod.splits scan_op.splits if_splits)
qed

lemma decode_first_rest: "decode_first xs = DValue v r \<Longrightarrow> length r \<le> length xs"
  by (auto simp: decode_first_def split: decoded.splits dest: dec_scan_rest)

section \<open>UTF-8\<close>

definition cont_byte :: "nat \<Rightarrow> bool" where "cont_byte b \<longleftrightarrow> 128 \<le> b \<and> b \<le> 191"

text \<open>The number of bytes of the valid UTF-8 encoding at the front, 0 if there is none
  (\<open>utf8.DecodeRune\<close> then reports one byte of \<open>RuneError\<close>).\<close>

fun utf8_len :: "bytes \<Rightarrow> nat" where
  "utf8_len (a # xs) =
     (let b0 = code a; b1 = (case xs of x # _ \<Rightarrow> code x | [] \<Rightarrow> 0);
          b2 = (case xs of _ # x # _ \<Rightarrow> code x | _ \<Rightarrow> 0);
          b3 = (case xs of _ # _ # x # _ \<Rightarrow> code x | _ \<Rightarrow> 0)
      in if b0 < 128 then 1
         else if 194 \<le> b0 \<and> b0 \<le> 223 \<and> cont_byte b1 then 2
         else if 224 \<le> b0 \<and> b0 \<le> 239 \<and> (if b0 = 224 then 160 else 128) \<le> b1
               \<and> b1 \<le> (if b0 = 237 then 159 else 191) \<and> cont_byte b2 then 3
         else if 240 \<le> b0 \<and> b0 \<le> 244 \<and> (if b0 = 240 then 144 else 128) \<le> b1
               \<and> b1 \<le> (if b0 = 244 then 143 else 191) \<and> cont_byte b2 \<and> cont_byte b3 then 4
         else 0)"
| "utf8_len [] = 0"

definition utf8_encode :: "nat \<Rightarrow> bytes" where
  "utf8_encode r =
     (if r < 128 then [char_of r]
      else if r < 2048 then [char_of (192 + r div 64), char_of (128 + r mod 64)]
      else if r < 65536 then
        [char_of (224 + r div 4096), char_of (128 + r div 64 mod 64), char_of (128 + r mod 64)]
      else
        [char_of (240 + r div 262144), char_of (128 + r div 4096 mod 64),
         char_of (128 + r div 64 mod 64), char_of (128 + r mod 64)])"

definition rune_error :: bytes where "rune_error = [CHR 0xEF, CHR 0xBF, CHR 0xBD]"

section \<open>String literals\<close>

definition hex_val :: "char \<Rightarrow> nat" where
  "hex_val c = (if is_digit c then code c - 48 else if 97 \<le> code c then code c - 87 else code c - 55)"

definition hex4 :: "bytes \<Rightarrow> nat option" where
  "hex4 xs = (case xs of
       a # b # c # d # _ \<Rightarrow>
         if is_hex a \<and> is_hex b \<and> is_hex c \<and> is_hex d
         then Some (((hex_val a * 16 + hex_val b) * 16 + hex_val c) * 16 + hex_val d) else None
     | _ \<Rightarrow> None)"

definition esc_char :: "char \<Rightarrow> char" where
  "esc_char c = (if c = CHR ''b'' then CHR 0x08 else if c = CHR ''f'' then CHR 0x0C
     else if c = CHR ''n'' then CHR 0x0A else if c = CHR ''r'' then CHR 0x0D
     else if c = CHR ''t'' then CHR 0x09 else c)"

text \<open>The value of a \<open>\u\<close> escape: a surrogate pair is one rune; a lone surrogate becomes
  U+FFFD and what follows it is read on its own. The second component is the number of bytes
  read after the first four hex digits.\<close>

definition escape_rune :: "nat \<Rightarrow> bytes \<Rightarrow> bytes \<times> nat" where
  "escape_rune r rest =
     (if 55296 \<le> r \<and> r < 57344 then
        (case (if r < 56320 \<and> take 2 rest = [CHR 0x5C, CHR ''u''] then hex4 (drop 2 rest) else None) of
           Some r2 \<Rightarrow>
             if 56320 \<le> r2 \<and> r2 < 57344
             then (utf8_encode ((r - 55296) * 1024 + (r2 - 56320) + 65536), 6)
             else (rune_error, 0)
         | None \<Rightarrow> (rune_error, 0))
      else (utf8_encode r, 0))"

text \<open>The bytes of a string literal up to its closing quote; the argument starts after the
  opening quote.\<close>

function unquote_body :: "bytes \<Rightarrow> bytes" where
  "unquote_body [] = []"
| "unquote_body (c # cs) =
     (if c = CHR 0x22 then []
      else if c = CHR 0x5C then
        (case cs of
           [] \<Rightarrow> []
         | e # es \<Rightarrow>
             if e = CHR ''u'' then
               (case hex4 es of
                  None \<Rightarrow> []
                | Some r \<Rightarrow> (case escape_rune r (drop 4 es) of
                    (out, n) \<Rightarrow> out @ unquote_body (drop (4 + n) es)))
             else esc_char e # unquote_body es)
      else if code c < 128 then c # unquote_body cs
      else (let n = utf8_len (c # cs)
            in if n = 0 then rune_error @ unquote_body cs
               else take n (c # cs) @ unquote_body (drop (n - 1) cs)))"
  by pat_completeness auto
termination
  by (relation "measure length") auto

definition json_unquote :: "bytes \<Rightarrow> bytes" where
  "json_unquote lit = unquote_body (drop 1 lit)"

definition hex_digit :: "nat \<Rightarrow> char" where
  "hex_digit n = (if n < 10 then char_of (48 + n) else char_of (87 + n))"

definition u_escape :: "char \<Rightarrow> bytes" where
  "u_escape c = [CHR 0x5C] @ ''u00'' @ [hex_digit (code c div 16), hex_digit (code c mod 16)]"

definition html_char :: "char \<Rightarrow> bool" where
  "html_char c \<longleftrightarrow> c = CHR ''<'' \<or> c = CHR ''>'' \<or> c = CHR ''&''"

text \<open>\<open>appendString\<close> with HTML escaping, as \<open>json.Marshal\<close> uses it.\<close>

function quote_body :: "bytes \<Rightarrow> bytes" where
  "quote_body [] = []"
| "quote_body (c # cs) =
     (if code c < 128 then
        (if c = CHR 0x22 \<or> c = CHR 0x5C then [CHR 0x5C, c]
         else if c = CHR 0x08 then [CHR 0x5C, CHR ''b'']
         else if c = CHR 0x0C then [CHR 0x5C, CHR ''f'']
         else if c = CHR 0x0A then [CHR 0x5C, CHR ''n'']
         else if c = CHR 0x0D then [CHR 0x5C, CHR ''r'']
         else if c = CHR 0x09 then [CHR 0x5C, CHR ''t'']
         else if code c < 32 \<or> html_char c then u_escape c
         else [c]) @ quote_body cs
      else (let n = utf8_len (c # cs)
            in if n = 0 then [CHR 0x5C] @ ''ufffd'' @ quote_body cs
               else if take 3 (c # cs) = [CHR 0xE2, CHR 0x80, CHR 0xA8] then
                 [CHR 0x5C] @ ''u2028'' @ quote_body (drop 2 cs)
               else if take 3 (c # cs) = [CHR 0xE2, CHR 0x80, CHR 0xA9] then
                 [CHR 0x5C] @ ''u2029'' @ quote_body (drop 2 cs)
               else take n (c # cs) @ quote_body (drop (n - 1) cs)))"
  by pat_completeness auto
termination
  by (relation "measure length") auto

definition json_quote :: "bytes \<Rightarrow> bytes" where
  "json_quote s = [CHR 0x22] @ quote_body s @ [CHR 0x22]"

section \<open>Raw messages\<close>

text \<open>\<open>compact\<close> with escaping, as \<open>json.Marshal\<close> applies it to a \<open>RawMessage\<close> it has checked:
  space outside strings is dropped, HTML characters and the line separators are escaped.
  The flag is true inside a string literal.\<close>

fun compact_body :: "bool \<Rightarrow> bytes \<Rightarrow> bytes" where
  "compact_body ins [] = []"
| "compact_body ins (c # cs) =
     (if html_char c then u_escape c @ compact_body ins cs
      else if c = CHR 0xE2 \<and> take 2 cs = [CHR 0x80, CHR 0xA8] then
        [CHR 0x5C] @ ''u2028'' @ compact_body ins (drop 2 cs)
      else if c = CHR 0xE2 \<and> take 2 cs = [CHR 0x80, CHR 0xA9] then
        [CHR 0x5C] @ ''u2029'' @ compact_body ins (drop 2 cs)
      else if ins then
        (if c = CHR 0x5C then c # take 1 cs @ compact_body True (drop 1 cs)
         else c # compact_body (c \<noteq> CHR 0x22) cs)
      else if is_space c then compact_body False cs
      else c # compact_body (c = CHR 0x22) cs)"

text \<open>Marshalling a non-nil \<open>RawMessage\<close>: invalid JSON, the empty text included, is an error.\<close>

definition marshal_raw :: "bytes \<Rightarrow> bytes option" where
  "marshal_raw raw = (if json_Valid raw then Some (compact_body False raw) else None)"

section \<open>Objects and arrays\<close>

text \<open>The members of a valid object literal, in order, as decoded keys and raw values; the
  argument starts after the opening brace. On text that is not an object body the list stops
  where the text does.\<close>

function members_from :: "bytes \<Rightarrow> (bytes \<times> bytes) list" where
  "members_from xs =
     (case decode_first xs of
        DValue k r \<Rightarrow>
          (case skip_space r of
             [] \<Rightarrow> []
           | c # r1 \<Rightarrow>
               if c \<noteq> CHR '':'' then [] else
               (case decode_first r1 of
                  DValue v r2 \<Rightarrow>
                    (json_unquote k, v) #
                    (case skip_space r2 of
                       [] \<Rightarrow> []
                     | d # r3 \<Rightarrow> if d = CHR '','' then members_from r3 else [])
                | _ \<Rightarrow> []))
      | _ \<Rightarrow> [])"
  by pat_completeness auto
termination
proof (relation "measure length")
  fix xs k r c r1 v r2 d r3
  assume a: "decode_first xs = DValue k r" "skip_space r = c # r1"
    "decode_first r1 = DValue v r2" "skip_space r2 = d # r3"
  have "length (skip_space ys) \<le> length ys" for ys
    by (simp add: skip_space_def length_dropWhile_le)
  from this [of r] this [of r2] a decode_first_rest [OF a(1)] decode_first_rest [OF a(3)]
  show "(r3, xs) \<in> measure length" by simp
qed simp

function elements_from :: "bytes \<Rightarrow> bytes list" where
  "elements_from xs =
     (case decode_first xs of
        DValue v r \<Rightarrow>
          v # (case skip_space r of
                 [] \<Rightarrow> []
               | d # r1 \<Rightarrow> if d = CHR '','' then elements_from r1 else [])
      | _ \<Rightarrow> [])"
  by pat_completeness auto
termination
proof (relation "measure length")
  fix xs v r d r1
  assume a: "decode_first xs = DValue v r" "skip_space r = d # r1"
  have "length (skip_space r) \<le> length r"
    by (simp add: skip_space_def length_dropWhile_le)
  with a decode_first_rest [OF a(1)] show "(r1, xs) \<in> measure length" by simp
qed simp

declare members_from.simps [simp del] elements_from.simps [simp del]

definition json_members :: "bytes \<Rightarrow> (bytes \<times> bytes) list" where
  "json_members raw = members_from (drop 1 (skip_space raw))"

definition json_elements :: "bytes \<Rightarrow> bytes list" where
  "json_elements raw = elements_from (drop 1 (skip_space raw))"

section \<open>Number literals\<close>

text \<open>Sign, integer digits, fraction digits and exponent of a JSON number literal.\<close>

record num_literal =
  nl_neg :: bool
  nl_int :: bytes
  nl_frac :: bytes
  nl_exp :: int

definition read_exp :: "bytes \<Rightarrow> int" where
  "read_exp xs =
     (case xs of
        e # r \<Rightarrow>
          if e \<noteq> CHR ''e'' \<and> e \<noteq> CHR ''E'' then 0
          else (case r of
                  c # ds \<Rightarrow>
                    if c = CHR ''-'' then - int (digits_val ds)
                    else if c = CHR ''+'' then int (digits_val ds) else int (digits_val r)
                | [] \<Rightarrow> 0)
      | [] \<Rightarrow> 0)"

definition num_parts :: "bytes \<Rightarrow> num_literal" where
  "num_parts lit =
     (let neg = (take 1 lit = ''-''); body = (if neg then drop 1 lit else lit);
          r1 = dropWhile is_digit body; dot = (take 1 r1 = ''.'')
      in \<lparr>nl_neg = neg, nl_int = takeWhile is_digit body,
          nl_frac = (if dot then takeWhile is_digit (drop 1 r1) else []),
          nl_exp = read_exp (if dot then dropWhile is_digit (drop 1 r1) else r1)\<rparr>)"

definition num_mantissa :: "num_literal \<Rightarrow> nat" where
  "num_mantissa l = digits_val (nl_int l @ nl_frac l)"

definition num_exp10 :: "num_literal \<Rightarrow> int" where
  "num_exp10 l = nl_exp l - int (length (nl_frac l))"

definition pow10 :: "int \<Rightarrow> rat" where
  "pow10 e = (if e < 0 then 1 / 10 ^ nat (- e) else 10 ^ nat e)"

definition num_value :: "bytes \<Rightarrow> rat" where
  "num_value lit =
     (let l = num_parts lit; v = of_nat (num_mantissa l) * pow10 (num_exp10 l)
      in if nl_neg l then - v else v)"

text \<open>A number literal converts to \<open>float64\<close> unless it rounds to an infinity.\<close>

definition float64_in_range :: "bytes \<Rightarrow> bool" where
  "float64_in_range lit \<longleftrightarrow> \<bar>num_value lit\<bar> < 2 ^ 1024 - 2 ^ 970"

section \<open>Unmarshalling\<close>

text \<open>One field: its current value and the raw JSON value give the new value and whether the
  type did not fit. \<open>null\<close> leaves a value unchanged, clears a pointer, and is kept by a
  raw message.\<close>

type_synonym 'v field_dec = "'v \<Rightarrow> bytes \<Rightarrow> 'v \<times> bool"

definition starts :: "char \<Rightarrow> bytes \<Rightarrow> bool" where
  "starts c xs \<longleftrightarrow> take 1 xs = [c]"

definition dec_string :: "bytes field_dec" where
  "dec_string cur raw =
     (if raw = ''null'' then (cur, False)
      else if starts (CHR 0x22) raw then (json_unquote raw, False) else (cur, True))"

definition dec_int :: "int field_dec" where
  "dec_int cur raw =
     (if raw = ''null'' then (cur, False)
      else if starts (CHR 0x22) raw then (cur, True)
      else case ParseInt64 raw of Some v \<Rightarrow> (v, False) | None \<Rightarrow> (cur, True))"

definition dec_uint32 :: "nat field_dec" where
  "dec_uint32 cur raw =
     (if raw = ''null'' then (cur, False)
      else if starts (CHR 0x22) raw then (cur, True)
      else case ParseUint32 raw of Some v \<Rightarrow> (v, False) | None \<Rightarrow> (cur, True))"

definition dec_int_ptr :: "int option field_dec" where
  "dec_int_ptr cur raw =
     (if raw = ''null'' then (None, False)
      else case dec_int (case cur of None \<Rightarrow> 0 | Some v \<Rightarrow> v) raw of (v, e) \<Rightarrow> (Some v, e))"

definition dec_bool :: "bool field_dec" where
  "dec_bool cur raw =
     (if raw = ''null'' then (cur, False)
      else if raw = ''true'' then (True, False) else if raw = ''false'' then (False, False) else (cur, True))"

definition dec_raw :: "bytes field_dec" where
  "dec_raw cur raw = (raw, False)"

definition dec_strings :: "bytes list field_dec" where
  "dec_strings cur raw =
     (if raw = ''null'' then ([], False)
      else if starts (CHR ''['') raw then
        (let rs = map (\<lambda>(i, e). dec_string (if i < length cur then cur ! i else []) e)
                    (enumerate 0 (json_elements raw))
         in (map fst rs, list_ex snd rs))
      else (cur, True))"

text \<open>Setting one field of a struct, with its JSON name.\<close>

definition on_field :: "('s \<Rightarrow> 'v) \<Rightarrow> (('v \<Rightarrow> 'v) \<Rightarrow> 's \<Rightarrow> 's) \<Rightarrow> 'v field_dec \<Rightarrow> 's field_dec" where
  "on_field get upd dec s raw = (case dec (get s) raw of (v, e) \<Rightarrow> (upd (\<lambda>_. v) s, e))"

text \<open>Keys match a field name exactly or, failing that, up to case; the Kelvin sign and the long
  s fold to the letters K and S.\<close>

fun fold_key :: "bytes \<Rightarrow> bytes" where
  "fold_key [] = []"
| "fold_key (c # cs) =
     (if c = CHR 0xC5 \<and> take 1 cs = [CHR 0xBF] then CHR ''S'' # fold_key (drop 1 cs)
      else if c = CHR 0xE2 \<and> take 2 cs = [CHR 0x84, CHR 0xAA] then CHR ''K'' # fold_key (drop 2 cs)
      else upper_char c # fold_key cs)"

definition find_field :: "(bytes \<times> 's field_dec) list \<Rightarrow> bytes \<Rightarrow> 's field_dec option" where
  "find_field fds k =
     (case map_of fds k of
        Some d \<Rightarrow> Some d
      | None \<Rightarrow> map_option snd (find (\<lambda>(n, d). fold_key n = fold_key k) fds))"

definition set_members ::
  "bool \<Rightarrow> (bytes \<times> 's field_dec) list \<Rightarrow> (bytes \<times> bytes) list \<Rightarrow> 's \<Rightarrow> 's \<times> bool" where
  "set_members strict fds ms s =
     fold (\<lambda>(k, raw) (s, err).
        case find_field fds k of
          None \<Rightarrow> (s, err \<or> strict)
        | Some d \<Rightarrow> (case d s raw of (s', e) \<Rightarrow> (s', err \<or> e))) ms (s, False)"

text \<open>Decoding one syntactically valid value into a struct. A type that does not fit is reported
  at the end; the other members are still set.\<close>

definition decode_struct ::
  "bool \<Rightarrow> (bytes \<times> 's field_dec) list \<Rightarrow> bytes \<Rightarrow> 's \<Rightarrow> 's \<times> bool" where
  "decode_struct strict fds raw s =
     (if raw = ''null'' then (s, False)
      else if starts (CHR ''{'') raw then set_members strict fds (json_members raw) s
      else (s, True))"

text \<open>\<open>json.Unmarshal\<close> into a struct: a syntax error leaves the target untouched.\<close>

definition json_Unmarshal :: "(bytes \<times> 's field_dec) list \<Rightarrow> bytes \<Rightarrow> 's \<Rightarrow> 's \<times> bool" where
  "json_Unmarshal fds data s =
     (if json_Valid data then
        (case decode_first data of
           DValue raw rest \<Rightarrow> decode_struct False fds raw s
         | _ \<Rightarrow> (s, True))
      else (s, True))"

end
