(* ===== verification/Jsonrpc.thy ===== *)
theory Jsonrpc
  imports Go_Json
begin

text \<open>
  The JSON-RPC 2.0 layer of \<open>src/pkg/contracts/rpc.go\<close>: requests, responses and errors, the
  validation of identifiers, and the marshalling of responses.
\<close>

abbreviation JSONRPCVersion :: bytes where "JSONRPCVersion \<equiv> ''2.0''"
abbreviation ErrParse :: int where "ErrParse \<equiv> - 32700"
abbreviation ErrInvalidRequest :: int where "ErrInvalidRequest \<equiv> - 32600"
abbreviation ErrMethodNotFound :: int where "ErrMethodNotFound \<equiv> - 32601"
abbreviation ErrInvalidParams :: int where "ErrInvalidParams \<equiv> - 32602"
abbreviation ErrInternal :: int where "ErrInternal \<equiv> - 32603"

abbreviation ErrAppFailure :: int where "ErrAppFailure \<equiv> 1"
abbreviation ErrTimeout :: int where "ErrTimeout \<equiv> 2"
abbreviation ErrServiceUnavailable :: int where "ErrServiceUnavailable \<equiv> 3"
abbreviation ErrValidationFailed :: int where "ErrValidationFailed \<equiv> 4"
abbreviation ErrRollbackSuccess :: int where "ErrRollbackSuccess \<equiv> 5"
abbreviation ErrRollbackFailed :: int where "ErrRollbackFailed \<equiv> 6"

record jsonrpc_request =
  rq_JSONRPC :: bytes
  rq_Method :: bytes
  rq_Params :: bytes
  rq_ID :: bytes

record jsonrpc_error =
  je_Code :: int
  je_Message :: bytes
  je_Data :: bytes

record jsonrpc_response =
  rs_JSONRPC :: bytes
  rs_Result :: bytes
  rs_Error :: "jsonrpc_error option"
  rs_ID :: bytes

section \<open>Identifiers\<close>

definition validateJSONRPCID :: "bytes \<Rightarrow> bool \<Rightarrow> go_error option" where
  "validateJSONRPCID rid allowNull =
     (let trimmed = TrimSpace rid
      in if trimmed = [] then None
         else if \<not> json_Valid trimmed then Some (EMsg ''id must contain valid JSON'')
         else if trimmed = ''null'' then (if allowNull then None else Some (EMsg ''id cannot be null''))
         else if starts (CHR ''{'') trimmed \<or> starts (CHR ''['') trimmed
           then Some (EMsg ''id cannot be an object or array'')
         else if starts (CHR ''t'') trimmed \<or> starts (CHR ''f'') trimmed
           then Some (EMsg ''id cannot be a boolean'')
         else if starts (CHR 0x22) trimmed
           then (if json_unquote trimmed = [] then Some (EMsg ''id cannot be an empty string'') else None)
         else (if float64_in_range trimmed then None
               else Some (EMsg ''id must be a valid number without parsing issues'')))"

definition ValidResponseID :: "bytes \<Rightarrow> bytes" where
  "ValidResponseID rid =
     (if 0 < length rid \<and> validateJSONRPCID rid True = None then rid else ''null'')"

section \<open>Requests\<close>

definition Request_Validate :: "jsonrpc_request \<Rightarrow> go_error option" where
  "Request_Validate r =
     (if rq_JSONRPC r \<noteq> JSONRPCVersion then Some (EMsg ''invalid jsonrpc version'')
      else if rq_Method r = [] then Some (EMsg ''method must be specified'')
      else
        case (if 0 < length (rq_ID r) then validateJSONRPCID (rq_ID r) False else None) of
          Some e \<Rightarrow> Some e
        | None \<Rightarrow>
            if 0 < length (rq_Params r) then
              (let trimmed = TrimSpace (rq_Params r)
               in if \<not> json_Valid trimmed then Some (EMsg ''params must contain valid JSON'')
                  else if trimmed = ''null''
                    then Some (EMsg ''params must be an object or array if present, not null'')
                  else if \<not> starts (CHR ''{'') trimmed \<and> \<not> starts (CHR ''['') trimmed
                    then Some (EMsg ''params must be an object or array'')
                  else None)
            else None)"

section \<open>Responses\<close>

definition quoted :: "bytes \<Rightarrow> bytes" where
  "quoted s = [CHR 0x22] @ s @ [CHR 0x22]"

definition success_result :: bytes where
  "success_result = ''{'' @ quoted ''status'' @ '':{'' @ quoted ''error'' @ '':0,'' @ quoted ''text'' @ '':''
     @ quoted ''Success'' @ ''}}''"

definition marshal_error :: "jsonrpc_error \<Rightarrow> bytes option" where
  "marshal_error e =
     (let front = ''{'' @ quoted ''code'' @ '':'' @ show_int (je_Code e) @ '','' @ quoted ''message'' @ '':''
                @ json_quote (je_Message e)
      in if je_Data e = [] then Some (front @ ''}'')
         else case marshal_raw (je_Data e) of
                None \<Rightarrow> None
              | Some d \<Rightarrow> Some (front @ '','' @ quoted ''data'' @ '':'' @ d @ ''}''))"

text \<open>\<open>JSONRPCResponse.MarshalJSON\<close>: an error suppresses the result, an empty result becomes the
  success object, an empty id becomes \<open>null\<close>. A raw message that is not valid JSON makes
  \<open>json.Marshal\<close> fail, which is \<open>None\<close>.\<close>

definition Response_Marshal :: "jsonrpc_response \<Rightarrow> bytes option" where
  "Response_Marshal r =
     (let result = (case rs_Error r of Some e \<Rightarrow> [] | None \<Rightarrow>
                      if rs_Result r = [] then success_result else rs_Result r);
          rid = (if rs_ID r = [] then ''null'' else rs_ID r);
          front = ''{'' @ quoted ''jsonrpc'' @ '':'' @ json_quote (rs_JSONRPC r)
      in case (if result = [] then Some []
               else map_option (\<lambda>x. '','' @ quoted ''result'' @ '':'' @ x) (marshal_raw result)) of
           None \<Rightarrow> None
         | Some res \<Rightarrow>
             (case (case rs_Error r of
                      None \<Rightarrow> Some []
                    | Some e \<Rightarrow> map_option (\<lambda>x. '','' @ quoted ''error'' @ '':'' @ x) (marshal_error e)) of
                None \<Rightarrow> None
              | Some err \<Rightarrow>
                  (case marshal_raw rid of
                     None \<Rightarrow> None
                   | Some i \<Rightarrow> Some (front @ res @ err @ '','' @ quoted ''id'' @ '':'' @ i @ ''}''))))"

definition Response_Validate :: "jsonrpc_response \<Rightarrow> go_error option" where
  "Response_Validate r =
     (if rs_JSONRPC r \<noteq> JSONRPCVersion then Some (EMsg ''invalid jsonrpc version'')
      else if rs_ID r = [] then Some (EMsg ''id is required in JSON-RPC responses'')
      else
        let hasError = rs_Error r \<noteq> None;
            allowNullID = (case rs_Error r of None \<Rightarrow> False
                           | Some e \<Rightarrow> je_Code e = ErrParse \<or> je_Code e = ErrInvalidRequest)
        in case validateJSONRPCID (rs_ID r) allowNullID of
             Some e \<Rightarrow> Some e
           | None \<Rightarrow>
               let hasResult = 0 < length (rs_Result r)
               in if hasResult \<and> \<not> json_Valid (rs_Result r) then Some (EMsg ''result must contain valid JSON'')
                  else if hasResult \<and> hasError
                    then Some (EMsg ''response cannot contain both result and error'')
                  else if \<not> hasResult \<and> \<not> hasError
                    then Some (EMsg ''response must contain either result or error'')
                  else if rs_ID r = [] then Some (EMsg ''id must be included in the response'')
                  else None)"

section \<open>Errors\<close>

text \<open>Marshalling the data object of one integer member cannot fail.\<close>

definition NewInternalJSONRPCError :: "int \<Rightarrow> bytes \<Rightarrow> jsonrpc_error result" where
  "NewInternalJSONRPCError appCode message =
     (if appCode \<in> set [ErrAppFailure, ErrTimeout, ErrServiceUnavailable, ErrValidationFailed,
                        ErrRollbackSuccess, ErrRollbackFailed]
      then Inr \<lparr>je_Code = ErrInternal, je_Message = message,
                je_Data = ''{'' @ quoted ''application_code'' @ '':'' @ show_int appCode @ ''}''\<rparr>
      else Inl (EMsg ''unsupported application code''))"

definition FormatLogID :: "bytes \<Rightarrow> bytes" where
  "FormatLogID rid =
     (if rid = [] then ''null''
      else if 128 < length rid then take 128 rid @ ''...(truncated)'' else rid)"

end
