(* ===== verification/Json_Codec.thy ===== *)
theory Json_Codec
  imports Go_Json Jsonrpc
begin

text \<open>
  Objects of plain strings, numbers and literals survive \<open>json.Marshal\<close> followed by
  \<open>json.Unmarshal\<close>: the text of such an object is valid for the scanner and its members are read
  back as they were written.
\<close>

section \<open>Plain strings\<close>

text \<open>Printable ASCII that the encoder does not escape: what UUIDs, time stamps and the fixed texts
  of the client are made of.\<close>

definition plain :: "char \<Rightarrow> bool" where
  "plain c \<longleftrightarrow> 32 \<le> code c \<and> code c < 128 \<and> c \<noteq> CHR 0x22 \<and> c \<noteq> CHR 0x5C \<and> \<not> html_char c"

lemma quote_body_plain: "list_all plain s \<Longrightarrow> quote_body s = s"
proof (induction s)
  case (Cons c s)
  then have "quote_body (c # s) = c # quote_body s"
    by (subst quote_body.simps) (auto simp: plain_def)
  with Cons show ?case by simp
qed simp

lemma unquote_body_plain: "list_all plain s \<Longrightarrow> unquote_body (s @ CHR 0x22 # r) = s"
  by (induction s) (auto simp: plain_def)

lemma json_unquote_plain [simp]: "list_all plain s \<Longrightarrow> json_unquote (json_quote s) = s"
  by (simp add: json_unquote_def json_quote_def quote_body_plain unquote_body_plain)

lemma json_quote_plain: "list_all plain s \<Longrightarrow> json_quote s = quoted s"
  by (simp add: json_quote_def quoted_def quote_body_plain)

lemma json_unquote_quoted: "list_all plain s \<Longrightarrow> json_unquote (quoted s) = s"
  using json_unquote_plain by (simp add: json_quote_plain)

section \<open>Runs of the scanner inside a value\<close>

text \<open>The run of the scanner over a text at whose end it is still inside the outermost value;
  \<open>None\<close> when the value ends earlier or the text is wrong.\<close>

fun walk :: "scanner \<Rightarrow> bytes \<Rightarrow> scanner option" where
  "walk st [] = Some st"
| "walk st (c # cs) =
     (case scan_step st c of
        (st', ScanContinue) \<Rightarrow> walk st' cs
      | (st', ScanEndContainer) \<Rightarrow> if snd st' = [] then None else walk st' cs
      | _ \<Rightarrow> None)"

lemma walk_append: "walk st (xs @ ys) = (case walk st xs of None \<Rightarrow> None | Some st' \<Rightarrow> walk st' ys)"
  by (induction st xs rule: walk.induct) (auto split: prod.splits scan_op.splits)

lemma walk_scan_run: "walk st xs = Some st' \<Longrightarrow> scan_run st (xs @ ys) = scan_run st' ys"
proof (induction st xs rule: walk.induct)
  case (2 st c cs)
  then show ?case
    by (cases "scan_step st c"; cases "snd (scan_step st c)") (auto simp: scan_run_def split: if_splits)
qed (simp add: scan_run_def)

lemma walk_dec_scan: "walk st xs = Some st' \<Longrightarrow> dec_scan st acc (xs @ ys) = dec_scan st' (rev xs @ acc) ys"
proof (induction st xs arbitrary: acc rule: walk.induct)
  case (2 st c cs)
  then show ?case
    by (cases "scan_step st c"; cases "snd (scan_step st c)") (auto split: if_splits)
qed simp

text \<open>A text that the scanner reads as one value, which a following comma, brace or space ends.\<close>

abbreviation closer :: "char \<Rightarrow> bool" where
  "closer c \<equiv> c = CHR '','' \<or> c = CHR ''}'' \<or> c = CHR '' ''"

definition scalar_text :: "bytes \<Rightarrow> bool" where
  "scalar_text v \<longleftrightarrow> v \<noteq> [] \<and> \<not> is_space (hd v) \<and>
     (\<forall>k. \<exists>st. walk (BeginValue, k) v = Some (st, k)
        \<and> (\<forall>c. closer c \<longrightarrow> scan_step (st, k) c = end_value k c))"

lemma walk_plain: "list_all plain s \<Longrightarrow> walk (InString, k) s = Some (InString, k)"
  by (induction s) (auto simp: plain_def)

lemma not_space [simp]: "\<not> is_space (CHR 0x22)" "\<not> is_space (CHR '':'')" "\<not> is_space (CHR '','')"
  "\<not> is_space (CHR ''{'')" "\<not> is_space (CHR ''}'')" "\<not> is_space (CHR ''t'')" "\<not> is_space (CHR ''f'')"
  "\<not> is_space (CHR ''-'')" "\<not> is_space (CHR ''n'')"
  by (simp_all add: is_space_def)

lemma walk_string:
  "list_all plain s \<Longrightarrow> walk (InString, k) (s @ [CHR 0x22]) = Some (EndValue, k)"
  by (simp add: walk_append walk_plain)

lemma scalar_quote: "list_all plain s \<Longrightarrow> scalar_text (json_quote s)"
  by (simp add: scalar_text_def json_quote_def quote_body_plain begin_value_def walk_string)

lemma scalar_bool: "scalar_text ''true''" "scalar_text ''false''" "scalar_text ''null''"
  by (simp_all add: scalar_text_def begin_value_def is_digit19_def expect_def)

lemma digit_facts: "is_digit c \<Longrightarrow> \<not> is_space c \<and> c \<noteq> CHR ''{'' \<and> c \<noteq> CHR ''['' \<and> c \<noteq> CHR 0x22 \<and> c \<noteq> CHR ''-''
    \<and> c \<noteq> CHR ''t'' \<and> c \<noteq> CHR ''f'' \<and> c \<noteq> CHR ''n''"
  by (auto simp: is_digit_def is_space_def)

lemma show_nat_lead: "0 < n \<Longrightarrow> \<exists>d ds. show_nat n = d # ds \<and> is_digit19 d \<and> list_all is_digit (d # ds)"
proof (induction n rule: show_nat.induct)
  case (1 n)
  show ?case
  proof (cases "n < 10")
    case True
    with "1.prems" show ?thesis
      by (subst show_nat.simps) (simp add: is_digit19_def of_char_of)
  next
    case False
    then have "0 < n div 10" by (simp add: div_greater_zero_iff)
    with "1.IH" [OF False] obtain d ds where "show_nat (n div 10) = d # ds" "is_digit19 d" "list_all is_digit (d # ds)"
      by blast
    with False show ?thesis by (subst show_nat.simps) simp
  qed
qed

lemma walk_digits: "list_all is_digit ds \<Longrightarrow> walk (Int1, k) ds = Some (Int1, k)"
  by (induction ds) auto

lemma char_zero: "char_of (48 :: nat) = CHR ''0''"
  by code_simp

lemma number_state:
  assumes "d # ds = show_nat n" and "st = BeginValue \<or> st = Neg"
  shows "\<exists>st'. walk (st, k) (d # ds) = Some (st', k) \<and> (st' = Int0 \<or> st' = Int1)"
proof (cases "n = 0")
  case True
  then have "d = CHR ''0''" "ds = []" using assms(1) by (simp_all add: show_nat.simps char_zero)
  then show ?thesis using assms(2) by (auto simp: begin_value_def is_space_def)
next
  case False
  then have "is_digit19 d" "list_all is_digit ds" "is_digit d" using show_nat_lead [of n] assms(1) by auto
  moreover have "d \<noteq> CHR ''0''" using \<open>is_digit19 d\<close> by (auto simp: is_digit19_def)
  ultimately show ?thesis
    using assms(2) digit_facts [of d] by (auto simp: begin_value_def walk_digits expect_def)
qed

lemma number_closes:
  "st = Int0 \<or> st = Int1 \<Longrightarrow> closer c \<Longrightarrow> scan_step (st, k) c = end_value k c"
  by (auto simp: int0_step_def is_digit_def)

lemma scalar_int: "scalar_text (show_int i)"
proof -
  obtain d ds where d: "show_nat (nat \<bar>i\<bar>) = d # ds" by (cases "show_nat (nat \<bar>i\<bar>)") auto
  have dig: "is_digit d" using show_nat_digits [of "nat \<bar>i\<bar>"] d by simp
  show ?thesis
  proof (cases "i < 0")
    case True
    then have i: "show_int i = CHR ''-'' # d # ds" using d by (simp add: show_int_def)
    have "\<exists>st. walk (BeginValue, k) (show_int i) = Some (st, k) \<and> (st = Int0 \<or> st = Int1)" for k
      using number_state [OF d [symmetric], of Neg k] by (simp add: i begin_value_def)
    then show ?thesis using i number_closes unfolding scalar_text_def by (metis list.discI list.sel(1) not_space(8))
  next
    case False
    then have i: "show_int i = d # ds" using d by (simp add: show_int_def)
    have "\<exists>st. walk (BeginValue, k) (show_int i) = Some (st, k) \<and> (st = Int0 \<or> st = Int1)" for k
      unfolding i by (rule number_state [OF d [symmetric] disjI1 [OF refl]])
    then show ?thesis
      using i number_closes digit_facts [OF dig] unfolding scalar_text_def by (metis list.discI list.sel(1))
  qed
qed

lemma scalar_Valid:
  assumes "scalar_text v"
  shows "json_Valid v"
proof -
  obtain st where "walk scan_start v = Some (st, [])" "scan_step (st, []) (CHR '' '') = end_value [] (CHR '' '')"
    using assms by (auto simp: scalar_text_def scan_start_def)
  then show ?thesis
    using walk_scan_run [of scan_start v "(st, [])" "'' ''"]
    by (simp add: json_Valid_def scan_run_def end_value_def is_space_def)
qed

lemma decode_scalar:
  assumes "scalar_text v" and "c = CHR '','' \<or> c = CHR ''}''"
  shows "decode_first (v @ c # r) = DValue v (c # r)"
proof -
  obtain st where st: "walk (BeginValue, []) v = Some (st, [])" "scan_step (st, []) c = end_value [] c"
    using assms by (auto simp: scalar_text_def)
  have "skip_space v = v" using assms(1) by (cases v) (auto simp: scalar_text_def skip_space_def)
  then show ?thesis
    using walk_dec_scan [OF st(1), of "[]" "c # r"] st(2)
    by (simp add: decode_first_def scan_start_def end_value_def)
qed

lemma decode_key:
  assumes "list_all plain s"
  shows "decode_first (quoted s @ CHR '':'' # r) = DValue (quoted s) (CHR '':'' # r)"
proof -
  have w: "walk (BeginValue, []) (quoted s) = Some (EndValue, [])"
    using walk_string [OF assms] by (simp add: quoted_def begin_value_def)
  have "skip_space (quoted s) = quoted s" by (simp add: skip_space_def quoted_def)
  then show ?thesis
    using walk_dec_scan [OF w, of "[]" "CHR '':'' # r"] by (simp add: decode_first_def scan_start_def end_value_def)
qed

text \<open>The texts of the identifiers a request carries: integers and plain strings. They are
  compact JSON already.\<close>

definition id_text :: "bytes \<Rightarrow> bool" where
  "id_text v \<longleftrightarrow> (\<exists>i. v = show_int i) \<or> (\<exists>s. list_all plain s \<and> v = json_quote s)"

lemma id_text_scalar: "id_text v \<Longrightarrow> scalar_text v"
  by (auto simp: id_text_def scalar_int scalar_quote)

lemma compact_digits:
  "list_all (\<lambda>c. is_digit c \<or> c = CHR ''-'') v \<Longrightarrow> compact_body False v = v"
proof (induction v)
  case (Cons c v)
  then have "\<not> html_char c" "\<not> is_space c" "c \<noteq> CHR 0xE2" "c \<noteq> CHR 0x22"
    by (auto simp: html_char_def is_space_def is_digit_def)
  with Cons show ?case by simp
qed simp

lemma compact_plain:
  "list_all plain s \<Longrightarrow> compact_body True (s @ [CHR 0x22]) = s @ [CHR 0x22]"
proof (induction s)
  case (Cons c s)
  then have "\<not> html_char c" "c \<noteq> CHR 0xE2" "c \<noteq> CHR 0x22" "c \<noteq> CHR 0x5C" by (auto simp: plain_def)
  with Cons show ?case by simp
qed (simp add: html_char_def)

lemma id_text_marshal: "id_text v \<Longrightarrow> marshal_raw v = Some v"
proof -
  assume v: "id_text v"
  have "compact_body False v = v"
  proof (cases "\<exists>i. v = show_int i")
    case True
    then obtain i where "v = show_int i" by blast
    then have "list_all (\<lambda>c. is_digit c \<or> c = CHR ''-'') v"
      using char_not_in_show_int [of _ i] unfolding list_all_iff by blast
    then show ?thesis by (rule compact_digits)
  next
    case False
    then obtain s where "list_all plain s" "v = json_quote s" using v by (auto simp: id_text_def)
    then show ?thesis by (simp add: json_quote_def quote_body_plain compact_plain html_char_def)
  qed
  then show ?thesis using v by (simp add: marshal_raw_def scalar_Valid id_text_scalar)
qed

section \<open>Objects\<close>

definition json_member :: "bytes \<Rightarrow> bytes \<Rightarrow> bytes" where
  "json_member name v = quoted name @ '':'' @ v"

text \<open>The members of a non-empty object, with the closing brace.\<close>

fun body_text :: "(bytes \<times> bytes) list \<Rightarrow> bytes" where
  "body_text [] = ''}''"
| "body_text [(n, v)] = json_member n v @ ''}''"
| "body_text ((n, v) # ms) = json_member n v @ '','' @ body_text ms"

definition object_text :: "(bytes \<times> bytes) list \<Rightarrow> bytes" where
  "object_text ms = CHR ''{'' # body_text ms"

definition members_ok :: "(bytes \<times> bytes) list \<Rightarrow> bool" where
  "members_ok ms \<longleftrightarrow> ms \<noteq> [] \<and> (\<forall>(n, v) \<in> set ms. list_all plain n \<and> scalar_text v)"

lemma members_body: "members_ok ms \<Longrightarrow> members_from (body_text ms) = ms"
proof (induction ms rule: body_text.induct)
  case (2 n v)
  then have "list_all plain n" "scalar_text v" by (simp_all add: members_ok_def)
  then show ?case
    by (subst members_from.simps)
      (simp add: json_member_def decode_key decode_scalar skip_space_def json_unquote_quoted)
next
  case (3 n v m ms)
  then have "list_all plain n" "scalar_text v" "members_ok (m # ms)" by (auto simp: members_ok_def)
  with 3 show ?case
    by (subst members_from.simps)
      (simp add: json_member_def decode_key decode_scalar skip_space_def json_unquote_quoted)
qed (simp add: members_ok_def)

text \<open>The scanner over the members, up to the closing brace.\<close>

lemma walk_member:
  assumes "list_all plain n" and "scalar_text v" and "st = BeginStringOrEmpty \<or> st = BeginString"
  shows "\<exists>st'. walk (st, ParseObjectKey # k) (json_member n v) = Some (st', ParseObjectValue # k)
     \<and> (\<forall>c. closer c \<longrightarrow> scan_step (st', ParseObjectValue # k) c = end_value (ParseObjectValue # k) c)"
proof -
  have "walk (st, ParseObjectKey # k) (quoted n @ '':'') = Some (BeginValue, ParseObjectValue # k)"
  proof -
    have "walk (st, ParseObjectKey # k) (quoted n) = Some (EndValue, ParseObjectKey # k)"
      using assms(3) walk_string [OF assms(1)] by (auto simp: quoted_def begin_string_def)
    then show ?thesis by (simp add: walk_append end_value_def)
  qed
  then have "walk (st, ParseObjectKey # k) (json_member n v) = walk (BeginValue, ParseObjectValue # k) v"
    using walk_append [of "(st, ParseObjectKey # k)" "quoted n @ '':''" v] by (simp add: json_member_def)
  with assms(2) show ?thesis unfolding scalar_text_def by simp
qed

lemma walk_body:
  "members_ok ms \<Longrightarrow> st = BeginStringOrEmpty \<or> st = BeginString \<Longrightarrow>
     \<exists>xs st'. body_text ms = xs @ ''}'' \<and> walk (st, [ParseObjectKey]) xs = Some (st', [ParseObjectValue])
        \<and> scan_step (st', [ParseObjectValue]) (CHR ''}'') = ((EndTop, []), ScanEndContainer)"
proof (induction ms arbitrary: st rule: body_text.induct)
  case (2 n v)
  then have "list_all plain n" "scalar_text v" by (simp_all add: members_ok_def)
  from walk_member [OF this "2.prems"(2), of "[]"] show ?case
    by (auto simp: end_value_def pop_parse_def)
next
  case (3 n v m ms)
  then have ok: "list_all plain n" "scalar_text v" "members_ok (m # ms)" by (auto simp: members_ok_def)
  from walk_member [OF ok(1,2) "3.prems"(2), of "[]"] obtain st1 where
    st1: "walk (st, [ParseObjectKey]) (json_member n v) = Some (st1, [ParseObjectValue])"
      "scan_step (st1, [ParseObjectValue]) (CHR '','') = end_value [ParseObjectValue] (CHR '','')"
    by auto
  from "3.IH" [OF ok(3), of BeginString] obtain xs st' where
    xs: "body_text (m # ms) = xs @ ''}''" "walk (BeginString, [ParseObjectKey]) xs = Some (st', [ParseObjectValue])"
      "scan_step (st', [ParseObjectValue]) (CHR ''}'') = ((EndTop, []), ScanEndContainer)"
    by auto
  have "walk (st, [ParseObjectKey]) (json_member n v @ '','' @ xs) = Some (st', [ParseObjectValue])"
    using st1 xs(2) by (simp add: walk_append end_value_def)
  moreover have "body_text ((n, v) # m # ms) = (json_member n v @ '','' @ xs) @ ''}''"
    using xs(1) by simp
  ultimately show ?case using xs(3) by blast
qed (simp add: members_ok_def)

lemma object_text_reads:
  assumes "members_ok ms"
  shows "json_Valid (object_text ms)" and "decode_first (object_text ms) = DValue (object_text ms) []"
    and "json_members (object_text ms) = ms"
proof -
  from walk_body [OF assms, of BeginStringOrEmpty] obtain xs st where
    xs: "body_text ms = xs @ ''}''" "walk (BeginStringOrEmpty, [ParseObjectKey]) xs = Some (st, [ParseObjectValue])"
      "scan_step (st, [ParseObjectValue]) (CHR ''}'') = ((EndTop, []), ScanEndContainer)" by auto
  have w: "walk scan_start (CHR ''{'' # xs) = Some (st, [ParseObjectValue])"
    using xs(2) by (simp add: scan_start_def begin_value_def push_parse_def maxNestingDepth_def)
  have t: "object_text ms = (CHR ''{'' # xs) @ ''}''" using xs(1) by (simp add: object_text_def)
  have "scan_run scan_start ((CHR ''{'' # xs) @ ''} '') = scan_run (st, [ParseObjectValue]) ''} ''"
    by (rule walk_scan_run [OF w])
  also have "\<dots> = (EndTop, [])" using xs(3) by (simp add: scan_run_def is_space_def)
  finally show "json_Valid (object_text ms)" unfolding json_Valid_def t by simp
  have "dec_scan scan_start [] (object_text ms) = DValue (object_text ms) []"
    unfolding t walk_dec_scan [OF w] using xs(3) by simp
  then show "decode_first (object_text ms) = DValue (object_text ms) []"
    by (simp add: decode_first_def object_text_def skip_space_def)
  show "json_members (object_text ms) = ms"
    using members_body [OF assms] by (simp add: json_members_def object_text_def skip_space_def)
qed

text \<open>Reading such an object into a struct sets its members one after the other.\<close>

lemma json_Unmarshal_object:
  "members_ok ms \<Longrightarrow> json_Unmarshal fds (object_text ms) s = set_members False fds ms s"
  by (simp add: json_Unmarshal_def object_text_reads decode_struct_def) (simp add: object_text_def starts_def)

text \<open>The rules by which \<open>simp\<close> runs the decoder on a given text.\<close>

lemma dec_scan_run:
  "scan_step st c = (st', ScanContinue) \<Longrightarrow> dec_scan st acc (c # cs) = dec_scan st' (c # acc) cs"
  "scan_step st c = ((q, k), ScanEndContainer) \<Longrightarrow>
     dec_scan st acc (c # cs) = (if k = [] then DValue (rev (c # acc)) cs else dec_scan (q, k) (c # acc) cs)"
  "scan_step st c = (st', ScanEnd) \<Longrightarrow> dec_scan st acc (c # cs) = DValue (rev acc) (c # cs)"
  by simp_all

lemmas json_eval = dec_scan_run json_Unmarshal_def json_Valid_def decode_first_def scan_run_def scan_start_def begin_value_def
  begin_string_def end_value_def push_parse_def pop_parse_def maxNestingDepth_def is_space_def is_digit19_def is_digit_def
  expect_def int0_step_def quoted_def skip_space_def decode_struct_def json_members_def members_from.simps starts_def
  set_members_def find_field_def on_field_def json_unquote_def dec_string_def dec_int_def dec_int_ptr_def dec_raw_def
  dec_bool_def ParseInt64_def digits_val_def digit_val_def

lemma starts_quote [simp]: "starts (CHR 0x22) (json_quote s)"
  by (simp add: starts_def json_quote_def)

lemma dec_string_quote [simp]: "list_all plain s \<Longrightarrow> dec_string cur (json_quote s) = (s, False)"
  by (simp add: dec_string_def) (simp add: json_quote_def)

section \<open>Invariants of decoding\<close>

text \<open>A property of the struct that every field decoder keeps is kept by decoding.\<close>

lemma set_members_keeps:
  assumes "P s" and fields: "\<And>k d s raw. find_field fds k = Some d \<Longrightarrow> P s \<Longrightarrow> P (fst (d s raw))"
  shows "P (fst (set_members b fds ms s))"
proof -
  have "P (fst (fold (\<lambda>(k, raw) (s, err).
        case find_field fds k of None \<Rightarrow> (s, err \<or> b)
        | Some d \<Rightarrow> (case d s raw of (s', e) \<Rightarrow> (s', err \<or> e))) ms (s, e)))" for e
    using \<open>P s\<close>
  proof (induction ms arbitrary: s e)
    case (Cons kv ms)
    obtain k raw where kv: "kv = (k, raw)" by (cases kv)
    show ?case
    proof (cases "find_field fds k")
      case None
      with Cons kv show ?thesis by simp
    next
      case (Some d)
      from fields [OF Some Cons.prems, of raw] have "P (fst (d s raw))" .
      with Cons.IH [of "fst (d s raw)"] Some kv show ?thesis by (simp add: case_prod_beta)
    qed
  qed simp
  then show ?thesis by (simp add: set_members_def)
qed

lemma find_field_in: "find_field fds k = Some d \<Longrightarrow> d \<in> snd ` set fds"
proof (cases "map_of fds k")
  case None
  moreover assume "find_field fds k = Some d"
  ultimately obtain p where "find (\<lambda>(n, d). fold_key n = fold_key k) fds = Some p" "snd p = d"
    by (auto simp: find_field_def)
  then show ?thesis by (metis find_Some_iff image_eqI nth_mem)
next
  case (Some d')
  moreover assume "find_field fds k = Some d"
  ultimately have "map_of fds k = Some d" by (simp add: find_field_def)
  from map_of_SomeD [OF this] show ?thesis by force
qed

lemma json_Unmarshal_keeps:
  assumes "P s" and "\<And>d s raw. d \<in> snd ` set fds \<Longrightarrow> P s \<Longrightarrow> P (fst (d s raw))"
  shows "P (fst (json_Unmarshal fds data s))"
proof -
  have "P (fst (set_members False fds ms s))" for ms
    by (rule set_members_keeps [of P, OF assms(1)]) (erule assms(2) [OF find_field_in])
  with assms(1) show ?thesis by (simp add: json_Unmarshal_def decode_struct_def split: decoded.split)
qed

text \<open>Two structs decoded from the same text agree on what their decoders treat alike.\<close>

lemma set_members_agree:
  assumes "f s = g t"
    and "\<And>k raw s t. f s = g t \<Longrightarrow>
       f (case find_field fds k of None \<Rightarrow> s | Some d \<Rightarrow> fst (d s raw)) =
       g (case find_field fds' k of None \<Rightarrow> t | Some d \<Rightarrow> fst (d t raw))"
  shows "f (fst (set_members b fds ms s)) = g (fst (set_members b fds' ms t))"
proof -
  let ?st = "\<lambda>fds. \<lambda>(k, raw) (s, err).
        case find_field fds k of None \<Rightarrow> (s, err \<or> b) | Some d \<Rightarrow> (case d s raw of (s', e) \<Rightarrow> (s', err \<or> e))"
  have one: "fst (?st fds (k, raw) (s, err)) = (case find_field fds k of None \<Rightarrow> s | Some d \<Rightarrow> fst (d s raw))"
    for fds :: "(bytes \<times> 'x field_dec) list" and k raw s err
    by (auto split: option.splits prod.splits)
  have "f (fst (fold (?st fds) ms (s, e))) = g (fst (fold (?st fds') ms (t, e')))" for e e'
    using assms(1)
  proof (induction ms arbitrary: s t e e')
    case (Cons kv ms)
    obtain k raw where kv: "kv = (k, raw)" by (cases kv)
    obtain s1 e1 where st1: "?st fds (k, raw) (s, e) = (s1, e1)" by (cases "?st fds (k, raw) (s, e)")
    obtain t1 e1' where st2: "?st fds' (k, raw) (t, e') = (t1, e1')" by (cases "?st fds' (k, raw) (t, e')")
    note st = st1 st2
    have "s1 = (case find_field fds k of None \<Rightarrow> s | Some d \<Rightarrow> fst (d s raw))"
      "t1 = (case find_field fds' k of None \<Rightarrow> t | Some d \<Rightarrow> fst (d t raw))"
      using one [of fds k raw s e] one [of fds' k raw t e'] unfolding st fst_conv by (simp_all only:)
    then have "f s1 = g t1" using assms(2) [where k = k and raw = raw, OF Cons.prems] by (simp only:)
    from Cons.IH [OF this] show ?case unfolding kv fold.simps comp_def st .
  qed simp
  then show ?thesis by (simp add: set_members_def)
qed

lemma json_Unmarshal_agree:
  assumes "f s = g t"
    and "\<And>k raw s t. f s = g t \<Longrightarrow>
       f (case find_field fds k of None \<Rightarrow> s | Some d \<Rightarrow> fst (d s raw)) =
       g (case find_field fds' k of None \<Rightarrow> t | Some d \<Rightarrow> fst (d t raw))"
  shows "f (fst (json_Unmarshal fds data s)) = g (fst (json_Unmarshal fds' data t))"
proof -
  have "f (fst (set_members False fds ms s)) = g (fst (set_members False fds' ms t))" for ms
    by (rule set_members_agree [OF assms])
  with assms(1) show ?thesis by (simp add: json_Unmarshal_def decode_struct_def split: decoded.split)
qed

lemma ParseInt64_range: "ParseInt64 s = Some v \<Longrightarrow> - (2 ^ 63) \<le> v \<and> v < 2 ^ 63"
  by (auto simp: ParseInt64_def Let_def split: if_splits prod.splits list.splits)

definition in_int64 :: "int \<Rightarrow> bool" where
  "in_int64 v \<longleftrightarrow> - (2 ^ 63) \<le> v \<and> v < 2 ^ 63"

lemma in_int64_0 [simp]: "in_int64 0"
  by (simp add: in_int64_def)

lemma dec_int_range: "in_int64 cur \<Longrightarrow> in_int64 (fst (dec_int cur raw))"
  using ParseInt64_range by (auto simp: dec_int_def in_int64_def split: option.splits)

end
