(* ===== verification/Go_Time.thy ===== *)
theory Go_Time
  imports Go_Text "HOL-Library.Monad_Syntax"
begin

text \<open>
  What the client uses of Go's \<open>time\<close> package: the proleptic Gregorian calendar, formatting a UTC
  instant as RFC 3339, parsing RFC 3339 as leniently as \<open>time.Parse\<close> does, and the saturating
  difference of two instants.
\<close>

section \<open>The calendar\<close>

definition leap :: "nat \<Rightarrow> bool" where
  "leap y \<longleftrightarrow> 4 dvd y \<and> (\<not> 100 dvd y \<or> 400 dvd y)"

definition year_len :: "nat \<Rightarrow> nat" where
  "year_len y = (if leap y then 366 else 365)"

definition month_lens :: "nat \<Rightarrow> nat list" where
  "month_lens y = [31, if leap y then 29 else 28, 31, 30, 31, 30, 31, 31, 30, 31, 30, 31]"

text \<open>Days from 1 January of year 0 to 1 January of year \<open>y\<close>.\<close>

definition days_before_year :: "nat \<Rightarrow> nat" where
  "days_before_year y = 365 * y + (y + 3) div 4 + (y + 399) div 400 - (y + 99) div 100"

definition days_from_civil :: "nat \<Rightarrow> nat \<Rightarrow> nat \<Rightarrow> nat" where
  "days_from_civil y m d = days_before_year y + sum_list (take (m - 1) (month_lens y)) + (d - 1)"

function year_from :: "nat \<Rightarrow> nat \<Rightarrow> nat \<times> nat" where
  "year_from y z = (if z < year_len y then (y, z) else year_from (y + 1) (z - year_len y))"
  by pat_completeness auto
termination
  by (relation "measure snd") (auto simp: year_len_def split: if_splits)

declare year_from.simps [simp del]

fun month_from :: "nat list \<Rightarrow> nat \<Rightarrow> nat \<Rightarrow> nat \<times> nat" where
  "month_from [] m z = (m, z)"
| "month_from (l # ls) m z = (if z < l then (m, z) else month_from ls (m + 1) (z - l))"

text \<open>Year, month and day of a day number; whole 400-year cycles are skipped at once.\<close>

definition civil_from_days :: "nat \<Rightarrow> nat \<times> nat \<times> nat" where
  "civil_from_days z =
     (let (y, r) = year_from (400 * (z div 146097)) (z mod 146097);
          (m, d) = month_from (month_lens y) 1 r
      in (y, m, d + 1))"

text \<open>The day number of 1 January 1970.\<close>

abbreviation unix_epoch_days :: nat where "unix_epoch_days \<equiv> 719528"

section \<open>Format\<close>

definition dig :: "nat \<Rightarrow> char" where "dig n = char_of (48 + n mod 10)"

definition show2 :: "nat \<Rightarrow> bytes" where "show2 n = [dig (n div 10), dig n]"

definition show4 :: "nat \<Rightarrow> bytes" where
  "show4 n = [dig (n div 1000), dig (n div 100), dig (n div 10), dig n]"

text \<open>\<open>t.UTC().Format(time.RFC3339)\<close> for an instant in the years 0 to 9999.\<close>

definition FormatRFC3339 :: "instant \<Rightarrow> bytes" where
  "FormatRFC3339 t =
     (let s = nat (t div Second + 86400 * int unix_epoch_days);
          sod = s mod 86400
      in case civil_from_days (s div 86400) of (y, m, d) \<Rightarrow>
           show4 y @ ''-'' @ show2 m @ ''-'' @ show2 d @ ''T'' @ show2 (sod div 3600) @ '':''
             @ show2 (sod div 60 mod 60) @ '':'' @ show2 (sod mod 60) @ ''Z'')"

section \<open>Parse\<close>

definition take_num :: "nat \<Rightarrow> bytes \<Rightarrow> (nat \<times> bytes) option" where
  "take_num n s =
     (if n \<le> length s \<and> list_all is_digit (take n s) then Some (digits_val (take n s), drop n s) else None)"

fun skip_char :: "char \<Rightarrow> bytes \<Rightarrow> bytes option" where
  "skip_char c (x # s) = (if x = c then Some s else None)"
| "skip_char c [] = None"

text \<open>The hour of the layout is not zero-padded for the parser: one digit is accepted.\<close>

definition take_hour :: "bytes \<Rightarrow> (nat \<times> bytes) option" where
  "take_hour s = (case take_num 2 s of Some r \<Rightarrow> Some r | None \<Rightarrow> take_num 1 s)"

text \<open>A fractional second after \<open>.\<close> or \<open>,\<close> is accepted although the layout has none; digits past the
  ninth are dropped.\<close>

definition take_fraction :: "bytes \<Rightarrow> nat \<times> bytes" where
  "take_fraction s =
     (case s of
        c # d # r \<Rightarrow>
          if (c = CHR ''.'' \<or> c = CHR '','') \<and> is_digit d then
            (let ds = take 9 (takeWhile is_digit (d # r))
             in (digits_val ds * 10 ^ (9 - length ds), dropWhile is_digit (d # r)))
          else (0, s)
      | _ \<Rightarrow> (0, s))"

text \<open>\<open>Z\<close>, or a signed offset \<open>hh:mm\<close>, which Go bounds by 24 hours and 60 minutes; nothing may
  follow. The result is the offset in seconds.\<close>

definition take_zone :: "bytes \<Rightarrow> int option" where
  "take_zone s =
     (case s of
        [] \<Rightarrow> None
      | c # r \<Rightarrow>
          if c = CHR ''Z'' then (if r = [] then Some 0 else None)
          else do {
            (hr, r1) \<leftarrow> take_num 2 r;
            r2 \<leftarrow> skip_char (CHR '':'') r1;
            (mm, r3) \<leftarrow> take_num 2 r2;
            if 24 < hr \<or> 60 < mm \<or> r3 \<noteq> [] then None
            else if c = CHR ''+'' then Some (int (hr * 3600 + mm * 60))
            else if c = CHR ''-'' then Some (- int (hr * 3600 + mm * 60))
            else None
          })"

definition ParseRFC3339 :: "bytes \<Rightarrow> instant option" where
  "ParseRFC3339 s = do {
     (y, s1) \<leftarrow> take_num 4 s;
     s2 \<leftarrow> skip_char (CHR ''-'') s1;
     (mo, s3) \<leftarrow> take_num 2 s2;
     s4 \<leftarrow> skip_char (CHR ''-'') s3;
     (d, s5) \<leftarrow> take_num 2 s4;
     s6 \<leftarrow> skip_char (CHR ''T'') s5;
     (h, s7) \<leftarrow> take_hour s6;
     s8 \<leftarrow> skip_char (CHR '':'') s7;
     (mi, s9) \<leftarrow> take_num 2 s8;
     s10 \<leftarrow> skip_char (CHR '':'') s9;
     (sec, s11) \<leftarrow> take_num 2 s10;
     (let (ns, s12) = take_fraction s11
      in do {
        off \<leftarrow> take_zone s12;
        if mo < 1 \<or> 12 < mo \<or> d < 1 \<or> month_lens y ! (mo - 1) < d \<or> 24 \<le> h \<or> 60 \<le> mi \<or> 60 \<le> sec
        then None
        else Some ((int (days_from_civil y mo d) - int unix_epoch_days) * 86400 * Second
                   + (int (h * 3600 + mi * 60 + sec) - off) * Second + int ns)
      })
   }"

text \<open>\<open>t.Sub(u)\<close> saturates at the bounds of a 64-bit duration.\<close>

definition time_Sub :: "instant \<Rightarrow> instant \<Rightarrow> duration" where
  "time_Sub t u = max (- (2 ^ 63)) (min (2 ^ 63 - 1) (t - u))"

section \<open>Calendar laws\<close>

lemma days_before_year_Suc: "days_before_year (Suc y) = days_before_year y + year_len y"
proof -
  have q: "(Suc y + (n - 1)) div n = (y + (n - 1)) div n + (if n dvd y then 1 else 0)" if "1 < n" for n
  proof -
    obtain k where k: "n = Suc k" "0 < k" using \<open>1 < n\<close> by (cases n) auto
    have "(Suc y + k) mod n = 0 \<longleftrightarrow> n dvd y"
      using k by (simp add: mod_eq_0_iff_dvd) (metis add_Suc_right dvd_add_left_iff dvd_refl)
    then show ?thesis using k by (simp add: div_Suc)
  qed
  have le: "(y + 99) div 100 \<le> 365 * y + (y + 3) div 4" by linarith
  define a b c where abc: "a = (y + 3) div 4" "b = (y + 99) div 100" "c = (y + 399) div 400"
  have "(Suc y + 3) div 4 = a + (if 4 dvd y then 1 else 0)"
    "(Suc y + 99) div 100 = b + (if 100 dvd y then 1 else 0)"
    "(Suc y + 399) div 400 = c + (if 400 dvd y then 1 else 0)"
    using q [of 4] q [of 100] q [of 400] by (simp_all add: abc)
  moreover have "b \<le> 365 * y + a" using le by (simp add: abc)
  moreover have "400 dvd y \<longrightarrow> 100 dvd y" "100 dvd y \<longrightarrow> 4 dvd y"
    by (rule impI, erule dvd_trans [rotated], simp)+
  ultimately show ?thesis
    unfolding days_before_year_def year_len_def leap_def abc [symmetric]
    by (cases "4 dvd y"; cases "100 dvd y"; cases "400 dvd y") simp_all
qed

lemma days_before_year_cycle: "days_before_year (400 * k) = 146097 * k"
  by (simp add: days_before_year_def)

lemma year_from_spec:
  "year_from y z = (y', r) \<Longrightarrow> r < year_len y' \<and> days_before_year y' + r = days_before_year y + z"
proof (induction y z rule: year_from.induct)
  case (1 y z)
  then show ?case
    by (cases "z < year_len y")
      (auto simp: year_from.simps [of y z] days_before_year_Suc)
qed

lemma month_from_spec:
  "z < sum_list ls \<Longrightarrow> month_from ls m z = (m', d) \<Longrightarrow>
     m \<le> m' \<and> m' - m < length ls \<and> d < ls ! (m' - m) \<and> sum_list (take (m' - m) ls) + d = z"
proof (induction ls arbitrary: m z)
  case Nil
  then show ?case by simp
next
  case (Cons l ls)
  show ?case
  proof (cases "z < l")
    case True
    with Cons.prems show ?thesis by simp
  next
    case False
    with Cons.prems have "month_from ls (m + 1) (z - l) = (m', d)" "z - l < sum_list ls" by auto
    from Cons.IH [OF this(2,1)] False have
      IH: "m + 1 \<le> m'" "m' - (m + 1) < length ls" "d < ls ! (m' - (m + 1))"
        "l + (sum_list (take (m' - (m + 1)) ls) + d) = z" by auto
    moreover have "m' - m = Suc (m' - (m + 1))" using IH(1) by simp
    ultimately show ?thesis by simp
  qed
qed

lemma sum_month_lens: "sum_list (month_lens y) = year_len y"
  by (simp add: month_lens_def year_len_def)

lemma civil_from_days_spec:
  assumes "civil_from_days z = (y, m, d)"
  shows "1 \<le> m \<and> m \<le> 12 \<and> 1 \<le> d \<and> d \<le> month_lens y ! (m - 1) \<and> days_from_civil y m d = z"
proof -
  obtain r where y: "year_from (400 * (z div 146097)) (z mod 146097) = (y, r)"
    and m: "month_from (month_lens y) 1 r = (m, d - 1)" and d: "1 \<le> d"
    using assms by (auto simp: civil_from_days_def split: prod.splits)
  have len: "length (month_lens y) = 12" by (simp add: month_lens_def)
  from year_from_spec [OF y] have r: "r < year_len y" "days_before_year y + r = z"
    by (simp_all add: days_before_year_cycle)
  from month_from_spec [OF _ m] r(1) len have
    "1 \<le> m" "m - 1 < 12" "d - 1 < month_lens y ! (m - 1)"
      "sum_list (take (m - 1) (month_lens y)) + (d - 1) = r"
    by (simp_all add: sum_month_lens)
  with r(2) d show ?thesis unfolding days_from_civil_def by linarith
qed

lemma days_before_year_mono: "y \<le> y' \<Longrightarrow> days_before_year y \<le> days_before_year y'"
  by (induction rule: dec_induct) (simp_all add: days_before_year_Suc)

text \<open>Days before 1 January 10000 have a four-digit year.\<close>

lemma civil_year_bound:
  assumes "civil_from_days z = (y, m, d)" and "z < days_before_year 10000"
  shows "y < 10000"
proof (rule ccontr)
  assume "\<not> y < 10000"
  then have "days_before_year 10000 \<le> days_before_year y" by (simp add: days_before_year_mono)
  with civil_from_days_spec [OF assms(1)] assms(2) show False by (simp add: days_from_civil_def)
qed

section \<open>Round trip\<close>

lemma dig_digit [simp]: "is_digit (dig n)"
  by (simp add: dig_def)

lemma digit_val_dig [simp]: "digit_val (dig n) = n mod 10"
  by (simp add: dig_def digit_val_def)

lemma take_num_show2 [simp]: "n < 100 \<Longrightarrow> take_num 2 (show2 n @ s) = Some (n, s)"
  by (simp add: take_num_def show2_def digits_val_def numeral_2_eq_2)

lemma take_num_show4 [simp]: "n < 10000 \<Longrightarrow> take_num 4 (show4 n @ s) = Some (n, s)"
proof -
  assume "n < 10000"
  then have a: "n div 10 div 10 div 10 < 10" by (simp add: div_mult2_eq [symmetric] div_less_iff_less_mult)
  have "n div 100 = n div 10 div 10" "n div 1000 = n div 10 div 10 div 10"
    by (simp_all add: div_mult2_eq [symmetric])
  then have "digits_val (show4 n) = n"
    using a mod_mult_div_eq [of n 10] mod_mult_div_eq [of "n div 10" 10]
      mod_mult_div_eq [of "n div 10 div 10" 10]
    by (simp add: show4_def digits_val_def)
  then show ?thesis by (simp add: take_num_def show4_def)
qed

lemma take_fraction_Z [simp]: "take_fraction (CHR ''Z'' # s) = (0, CHR ''Z'' # s)"
  by (simp add: take_fraction_def split: list.splits)

lemma ParseRFC3339_Format:
  assumes "- int unix_epoch_days * 86400 * Second \<le> t"
    and "t < (int (days_before_year 10000) - int unix_epoch_days) * 86400 * Second"
  shows "ParseRFC3339 (FormatRFC3339 t) = Some (t - t mod Second)"
proof -
  define s where "s = nat (t div Second + 86400 * int unix_epoch_days)"
  obtain y m d where c: "civil_from_days (s div 86400) = (y, m, d)" by (cases "civil_from_days (s div 86400)") auto
  have s: "int s = t div Second + 86400 * int unix_epoch_days" using assms(1) by (simp add: s_def)
  have "int s < int (days_before_year 10000) * 86400" using s assms(2) by simp
  then have "s div 86400 < days_before_year 10000"
    by (simp add: div_less_iff_less_mult)
  with civil_year_bound [OF c] have y: "y < 10000" by simp
  from civil_from_days_spec [OF c] have md: "1 \<le> m" "m \<le> 12" "1 \<le> d" "d \<le> month_lens y ! (m - 1)"
    and days: "days_from_civil y m d = s div 86400" by auto
  have "m - 1 < 12" using md by simp
  then have "month_lens y ! (m - 1) \<le> 31"
    by (auto simp: month_lens_def less_Suc_eq numeral_eq_Suc)
  then have d: "d < 100" using md by simp
  have sod: "s mod 86400 div 3600 < 24" "s mod 86400 div 60 mod 60 < 60" "s mod 86400 mod 60 < 60"
    by (simp_all add: div_less_iff_less_mult)
  have split: "s mod 86400 div 3600 * 3600 + s mod 86400 div 60 mod 60 * 60 + s mod 86400 mod 60 = s mod 86400"
  proof -
    define x where "x = s mod 86400"
    have "x div 3600 = x div 60 div 60" by (simp add: div_mult2_eq [symmetric])
    then show ?thesis
      unfolding x_def [symmetric]
      using mod_mult_div_eq [of x 60] mod_mult_div_eq [of "x div 60" 60] by linarith
  qed
  have "FormatRFC3339 t = show4 y @ ''-'' @ show2 m @ ''-'' @ show2 d @ ''T'' @ show2 (s mod 86400 div 3600) @ '':''
      @ show2 (s mod 86400 div 60 mod 60) @ '':'' @ show2 (s mod 86400 mod 60) @ ''Z''"
    using c unfolding FormatRFC3339_def s_def [symmetric] Let_def by (simp only: prod.case)
  moreover have "(int (days_from_civil y m d) - int unix_epoch_days) * 86400 * Second
      + int (s mod 86400) * Second = t - t mod Second"
  proof -
    have "int (s div 86400) * 86400 + int (s mod 86400) = int s"
      by (metis div_mult_mod_eq of_nat_add of_nat_mult of_nat_numeral)
    then have "(int (s div 86400) - int unix_epoch_days) * 86400 + int (s mod 86400) = t div Second"
      using s by simp
    then show ?thesis
      unfolding days using div_mult_mod_eq [of t Second] by linarith
  qed
  moreover have "ParseRFC3339 (show4 y @ ''-'' @ show2 m @ ''-'' @ show2 d @ ''T'' @ show2 h @ '':''
      @ show2 mi @ '':'' @ show2 se @ ''Z'') =
      Some ((int (days_from_civil y m d) - int unix_epoch_days) * 86400 * Second
             + int (h * 3600 + mi * 60 + se) * Second)"
    if "h < 24" "mi < 60" "se < 60" for h mi se
    using md d y that by (simp add: ParseRFC3339_def take_hour_def take_zone_def)
  note this [OF sod]
  ultimately show ?thesis by (simp only: split)
qed

end
