(* ===== verification/Op_Store.thy ===== *)
theory Op_Store
  imports Json_Codec Go_Time "HOL-Library.Char_ord" "HOL-Library.List_Lexorder"
begin

text \<open>
  The durable store of background operations: its interface and record
  (\<open>src/pkg/reqmgr/store.go\<close>) and the disk implementation (\<open>disk_store.go\<close>), one JSON file per
  operation, written to a temporary file and renamed into place. The file system is a map from
  names to contents; every system call that can fail has its outcome in a record of faults. The
  UUID library is the parameter \<open>uuid_ok\<close>, the predicate of \<open>uuid.Parse\<close> succeeding.
\<close>

section \<open>Records\<close>

record persistent_operation =
  po_OperationID :: bytes
  po_RPCID :: bytes
  po_CloudRPCID :: bytes
  po_Target :: bytes
  po_Action :: bytes
  po_Stage :: bytes
  po_Status :: bytes
  po_Active :: bool
  po_BootID :: bytes
  po_CreatedAt :: bytes
  po_UpdatedAt :: bytes

definition zero_operation :: persistent_operation where
  "zero_operation = \<lparr>po_OperationID = [], po_RPCID = [], po_CloudRPCID = [], po_Target = [],
     po_Action = [], po_Stage = [], po_Status = [], po_Active = False, po_BootID = [],
     po_CreatedAt = [], po_UpdatedAt = []\<rparr>"

text \<open>\<open>json.Marshal\<close> of an operation, in the order of the struct's fields; \<open>boot_id\<close> is omitted when
  empty. It fails when \<open>CloudRPCID\<close> is not JSON.\<close>

definition op_Marshal :: "persistent_operation \<Rightarrow> bytes option" where
  "op_Marshal op =
     (case (if po_CloudRPCID op = [] then Some ''null'' else marshal_raw (po_CloudRPCID op)) of
        None \<Rightarrow> None
      | Some cid \<Rightarrow>
          Some (''{'' @ json_member ''operation_id'' (json_quote (po_OperationID op))
            @ '','' @ json_member ''rpc_id'' (json_quote (po_RPCID op))
            @ '','' @ json_member ''cloud_rpc_id'' cid
            @ '','' @ json_member ''target'' (json_quote (po_Target op))
            @ '','' @ json_member ''action'' (json_quote (po_Action op))
            @ '','' @ json_member ''stage'' (json_quote (po_Stage op))
            @ '','' @ json_member ''status'' (json_quote (po_Status op))
            @ '','' @ json_member ''active'' (if po_Active op then ''true'' else ''false'')
            @ (if po_BootID op = [] then [] else '','' @ json_member ''boot_id'' (json_quote (po_BootID op)))
            @ '','' @ json_member ''created_at'' (json_quote (po_CreatedAt op))
            @ '','' @ json_member ''updated_at'' (json_quote (po_UpdatedAt op)) @ ''}''))"

definition op_fields :: "(bytes \<times> persistent_operation field_dec) list" where
  "op_fields =
     [(''operation_id'', on_field po_OperationID po_OperationID_update dec_string),
      (''rpc_id'', on_field po_RPCID po_RPCID_update dec_string),
      (''cloud_rpc_id'', on_field po_CloudRPCID po_CloudRPCID_update dec_raw),
      (''target'', on_field po_Target po_Target_update dec_string),
      (''action'', on_field po_Action po_Action_update dec_string),
      (''stage'', on_field po_Stage po_Stage_update dec_string),
      (''status'', on_field po_Status po_Status_update dec_string),
      (''active'', on_field po_Active po_Active_update dec_bool),
      (''boot_id'', on_field po_BootID po_BootID_update dec_string),
      (''created_at'', on_field po_CreatedAt po_CreatedAt_update dec_string),
      (''updated_at'', on_field po_UpdatedAt po_UpdatedAt_update dec_string)]"

definition op_Unmarshal :: "bytes \<Rightarrow> persistent_operation option" where
  "op_Unmarshal data =
     (case json_Unmarshal op_fields data zero_operation of (op, err) \<Rightarrow> if err then None else Some op)"

section \<open>The disk\<close>

text \<open>The regular files of \<open>basePath\<close> by name, and those of \<open>basePath/quarantine\<close>. The only
  subdirectory is \<open>quarantine\<close>, which the directory scan skips.\<close>

record disk =
  dk_files :: "(bytes, bytes) fmap"
  dk_quarantine :: "(bytes, bytes) fmap"

definition NewDiskOperationStore :: "go_error option \<Rightarrow> go_error option \<Rightarrow> disk \<Rightarrow> disk result" where
  "NewDiskOperationStore mkdir_base mkdir_quarantine d =
     (case mkdir_base of
        Some e \<Rightarrow> Inl (EWrap ''failed to create operation store directory'' e)
      | None \<Rightarrow>
          (case mkdir_quarantine of
             Some e \<Rightarrow> Inl (EWrap ''failed to create quarantine directory'' e)
           | None \<Rightarrow> Inr d))"

definition getPath :: "(bytes \<Rightarrow> bool) \<Rightarrow> bytes \<Rightarrow> bytes result" where
  "getPath uuid_ok operationID =
     (if uuid_ok operationID then Inr (operationID @ ''.json'')
      else Inl (EWrap ''invalid operation ID'' (EMsg ''uuid'')))"

subsection \<open>Save\<close>

text \<open>The outcome of each system call of \<open>Save\<close>; a failing write may have stored a prefix, and the
  removal of the temporary file may fail silently.\<close>

record save_env =
  se_ctx :: "go_error option"
  se_tmp :: bytes
  se_open :: "go_error option"
  se_write :: "(go_error \<times> nat) option"
  se_sync :: "go_error option"
  se_close :: "go_error option"
  se_rename :: "go_error option"
  se_remove_fails :: bool
  se_opendir :: "go_error option"
  se_syncdir :: "go_error option"

definition set_file :: "bytes \<Rightarrow> bytes \<Rightarrow> disk \<Rightarrow> disk" where
  "set_file name data d = d\<lparr>dk_files := fmupd name data (dk_files d)\<rparr>"

definition del_file :: "bytes \<Rightarrow> disk \<Rightarrow> disk" where
  "del_file name d = d\<lparr>dk_files := fmdrop name (dk_files d)\<rparr>"

text \<open>\<open>os.Remove(tempPath)\<close>, its error ignored.\<close>

definition remove_tmp :: "save_env \<Rightarrow> bytes \<Rightarrow> disk \<Rightarrow> disk" where
  "remove_tmp env tmp d = (if se_remove_fails env then d else del_file tmp d)"

text \<open>\<open>Save\<close> with the disk after every system call that changed it, oldest first: what a crash or a
  concurrent reader can find.\<close>

definition Save_steps ::
  "(bytes \<Rightarrow> bool) \<Rightarrow> save_env \<Rightarrow> persistent_operation option \<Rightarrow> disk \<Rightarrow> go_error option \<times> disk list" where
  "Save_steps uuid_ok env operation d =
     (case se_ctx env of Some e \<Rightarrow> (Some e, []) | None \<Rightarrow>
     (case operation of None \<Rightarrow> (Some (EMsg ''operation cannot be nil''), []) | Some op \<Rightarrow>
     (case op_Marshal op of None \<Rightarrow> (Some (EMsg ''json''), []) | Some data \<Rightarrow>
     (case getPath uuid_ok (po_OperationID op) of Inl e \<Rightarrow> (Some e, []) | Inr target \<Rightarrow>
     (let tmp = target @ ''.tmp.'' @ se_tmp env in
      case se_open env of Some e \<Rightarrow> (Some e, []) | None \<Rightarrow>
     (let d1 = set_file tmp [] d in
      case se_write env of
        Some (e, n) \<Rightarrow> (let d2 = set_file tmp (take n data) d1 in (Some e, [d1, d2, remove_tmp env tmp d2]))
      | None \<Rightarrow>
     (let d2 = set_file tmp data d1 in
      case se_sync env of Some e \<Rightarrow> (Some e, [d1, d2, remove_tmp env tmp d2]) | None \<Rightarrow>
     (case se_close env of Some e \<Rightarrow> (Some e, [d1, d2, remove_tmp env tmp d2]) | None \<Rightarrow>
     (case se_rename env of Some e \<Rightarrow> (Some e, [d1, d2, remove_tmp env tmp d2]) | None \<Rightarrow>
     (let d3 = set_file target data (del_file tmp d2) in
      case se_opendir env of
        Some e \<Rightarrow> (Some (EWrap ''failed to open directory for sync'' e), [d1, d2, d3])
      | None \<Rightarrow>
     (case se_syncdir env of
        Some e \<Rightarrow> (Some (EWrap ''failed to sync directory'' e), [d1, d2, d3])
      | None \<Rightarrow> (None, [d1, d2, d3]))))))))))))"

definition disk_Save ::
  "(bytes \<Rightarrow> bool) \<Rightarrow> save_env \<Rightarrow> persistent_operation option \<Rightarrow> disk \<Rightarrow> go_error option \<times> disk" where
  "disk_Save uuid_ok env operation d =
     (case Save_steps uuid_ok env operation d of (r, ds) \<Rightarrow> (r, if ds = [] then d else last ds))"

subsection \<open>Get and Delete\<close>

definition disk_Get ::
  "(bytes \<Rightarrow> bool) \<Rightarrow> go_error option \<Rightarrow> go_error option \<Rightarrow> bytes \<Rightarrow> disk
     \<Rightarrow> persistent_operation option result" where
  "disk_Get uuid_ok ctx read_err operationID d =
     (case ctx of Some e \<Rightarrow> Inl e | None \<Rightarrow>
     (case getPath uuid_ok operationID of Inl e \<Rightarrow> Inl e | Inr target \<Rightarrow>
     (case fmlookup (dk_files d) target of None \<Rightarrow> Inr None | Some data \<Rightarrow>
     (case read_err of Some e \<Rightarrow> Inl e | None \<Rightarrow>
     (case op_Unmarshal data of None \<Rightarrow> Inl (EMsg ''json'') | Some op \<Rightarrow> Inr (Some op))))))"

record delete_env =
  de_ctx :: "go_error option"
  de_remove :: "go_error option"
  de_opendir :: "go_error option"
  de_syncdir :: "go_error option"

definition deletePathDurably :: "delete_env \<Rightarrow> bytes \<Rightarrow> disk \<Rightarrow> go_error option \<times> disk" where
  "deletePathDurably env path d =
     (case de_remove env of Some e \<Rightarrow> (Some e, d) | None \<Rightarrow>
     (let d1 = del_file path d in
      case de_opendir env of Some e \<Rightarrow> (Some (EWrap ''failed to open directory for sync'' e), d1) | None \<Rightarrow>
     (case de_syncdir env of Some e \<Rightarrow> (Some (EWrap ''failed to sync directory'' e), d1)
      | None \<Rightarrow> (None, d1))))"

definition disk_Delete ::
  "(bytes \<Rightarrow> bool) \<Rightarrow> delete_env \<Rightarrow> bytes \<Rightarrow> disk \<Rightarrow> go_error option \<times> disk" where
  "disk_Delete uuid_ok env operationID d =
     (case de_ctx env of Some e \<Rightarrow> (Some e, d) | None \<Rightarrow>
     (case getPath uuid_ok operationID of Inl e \<Rightarrow> (Some e, d) | Inr target \<Rightarrow>
      deletePathDurably env target d))"

subsection \<open>GetActive\<close>

text \<open>The outcomes of the directory scan: the context and the clock at each entry, the entries whose
  file cannot be read, and the entries whose move to the quarantine fails or whose directories
  cannot be synced. \<open>ge_tie\<close> orders operations with equal time stamps, which \<open>sort.Slice\<close> leaves
  open.\<close>

record scan_env =
  ge_ctx :: "go_error option"
  ge_readdir :: "go_error option"
  ge_ctx_at :: "bytes \<Rightarrow> go_error option"
  ge_read :: "bytes \<Rightarrow> bool"
  ge_now :: "bytes \<Rightarrow> instant"
  ge_rename :: "bytes \<Rightarrow> go_error option"
  ge_qsync :: "bytes \<Rightarrow> go_error option"
  ge_psync :: "bytes \<Rightarrow> go_error option"
  ge_tie :: "bytes \<Rightarrow> nat"

definition quarantinePathDurably :: "scan_env \<Rightarrow> bytes \<Rightarrow> disk \<Rightarrow> go_error option \<times> disk" where
  "quarantinePathDurably env filename d =
     (let target = filename @ ''.'' @ show_int (ge_now env filename) @ ''.corrupt'' in
      case ge_rename env filename of Some e \<Rightarrow> (Some e, d) | None \<Rightarrow>
     (let data = (case fmlookup (dk_files d) filename of None \<Rightarrow> [] | Some x \<Rightarrow> x);
          d1 = (del_file filename d)\<lparr>dk_quarantine := fmupd target data (dk_quarantine d)\<rparr> in
      case ge_qsync env filename of Some e \<Rightarrow> (Some (EWrap ''failed to sync quarantine dir'' e), d1) | None \<Rightarrow>
     (case ge_psync env filename of Some e \<Rightarrow> (Some (EWrap ''failed to sync operations dir'' e), d1)
      | None \<Rightarrow> (None, d1))))"

text \<open>What the scan decides about the content of the file \<open>name\<close>: corrupt, inactive, or the
  operation.\<close>

datatype entry_class = Corrupt | Inactive | Usable persistent_operation

definition classify :: "(bytes \<Rightarrow> bool) \<Rightarrow> bytes \<Rightarrow> bytes \<Rightarrow> entry_class" where
  "classify uuid_ok name data =
     (case op_Unmarshal data of None \<Rightarrow> Corrupt | Some op \<Rightarrow>
        if \<not> uuid_ok (po_OperationID op) then Corrupt
        else if name \<noteq> po_OperationID op @ ''.json'' then Corrupt
        else if ParseRFC3339 (po_UpdatedAt op) = None then Corrupt
        else if \<not> po_Active op then Inactive
        else Usable op)"

fun scan_entries ::
  "(bytes \<Rightarrow> bool) \<Rightarrow> scan_env \<Rightarrow> bytes list \<Rightarrow> persistent_operation list \<Rightarrow> disk
     \<Rightarrow> persistent_operation list result \<times> disk" where
  "scan_entries uuid_ok env [] allOps d = (Inr allOps, d)"
| "scan_entries uuid_ok env (name # names) allOps d =
     (case ge_ctx_at env name of Some e \<Rightarrow> (Inl e, d) | None \<Rightarrow>
      if \<not> HasSuffix name ''.json'' then scan_entries uuid_ok env names allOps d
      else case (if ge_read env name then None else fmlookup (dk_files d) name) of
        None \<Rightarrow> scan_entries uuid_ok env names allOps d
      | Some data \<Rightarrow>
          (case classify uuid_ok name data of
             Corrupt \<Rightarrow> scan_entries uuid_ok env names allOps (snd (quarantinePathDurably env name d))
           | Inactive \<Rightarrow> scan_entries uuid_ok env names allOps d
           | Usable op \<Rightarrow> scan_entries uuid_ok env names (allOps @ [op]) d))"

text \<open>The comparison reads an unparsable time stamp as the zero time, 1 January of year 1.\<close>

definition updated_at :: "persistent_operation \<Rightarrow> instant" where
  "updated_at op = (case ParseRFC3339 (po_UpdatedAt op) of None \<Rightarrow> - 62135596800 * Second | Some t \<Rightarrow> t)"

text \<open>Newest first: sorted by the negated time stamp, after the arbitrary order of ties.\<close>

definition sort_newest :: "scan_env \<Rightarrow> persistent_operation list \<Rightarrow> persistent_operation list" where
  "sort_newest env ops = sort_key (\<lambda>op. - updated_at op) (sort_key (\<lambda>op. ge_tie env (po_OperationID op)) ops)"

text \<open>\<open>os.ReadDir\<close> lists the names in byte order.\<close>

definition ReadDir :: "disk \<Rightarrow> bytes list" where
  "ReadDir d = sorted_list_of_fset (fmdom (dk_files d))"

definition disk_GetActive ::
  "(bytes \<Rightarrow> bool) \<Rightarrow> scan_env \<Rightarrow> int \<Rightarrow> disk \<Rightarrow> persistent_operation list result \<times> disk" where
  "disk_GetActive uuid_ok env limit d =
     (case ge_ctx env of Some e \<Rightarrow> (Inl e, d) | None \<Rightarrow>
     (case ge_readdir env of Some e \<Rightarrow> (Inl e, d) | None \<Rightarrow>
     (case scan_entries uuid_ok env (ReadDir d) [] d of
        (Inl e, d') \<Rightarrow> (Inl e, d')
      | (Inr allOps, d') \<Rightarrow>
          (let ops = sort_newest env allOps
           in (Inr (if limit > 0 \<and> int (length ops) > limit then take (nat limit) ops else ops), d')))))"

end
