(* ===== verification/Transactions.thy ===== *)
theory Transactions
  imports Uc_Prelude
begin

text \<open>
  Transactions and their lifecycle (\<open>src/pkg/reqmgr/transaction.go\<close>), and the cache of completed
  responses (\<open>src/pkg/reqmgr/cache.go\<close>).
\<close>

section \<open>The lifecycle\<close>

datatype tx_state =
    TxCreated | TxPreparingDispatch | TxPendingPublish | TxInFlight
  | TxCompleted | TxFailed | TxTimedOut

text \<open>The Go constants are numbered by \<open>iota\<close>; their order is the order of the lifecycle.\<close>

fun tx_iota :: "tx_state \<Rightarrow> nat" where
  "tx_iota TxCreated = 0"
| "tx_iota TxPreparingDispatch = 1"
| "tx_iota TxPendingPublish = 2"
| "tx_iota TxInFlight = 3"
| "tx_iota TxCompleted = 4"
| "tx_iota TxFailed = 5"
| "tx_iota TxTimedOut = 6"

lemma tx_iota_inj: "tx_iota a = tx_iota b \<Longrightarrow> a = b"
  by (cases a; cases b) simp_all

instantiation tx_state :: linorder
begin

definition less_eq_tx_state :: "tx_state \<Rightarrow> tx_state \<Rightarrow> bool" where
  "less_eq_tx_state a b \<longleftrightarrow> tx_iota a \<le> tx_iota b"

definition less_tx_state :: "tx_state \<Rightarrow> tx_state \<Rightarrow> bool" where
  "less_tx_state a b \<longleftrightarrow> tx_iota a < tx_iota b"

instance
  by standard (auto simp: less_eq_tx_state_def less_tx_state_def intro: tx_iota_inj)

end

definition validateTransition :: "tx_state \<Rightarrow> tx_state \<Rightarrow> go_error option" where
  "validateTransition frm to =
     (case frm of
        TxCreated \<Rightarrow>
          if to = TxPreparingDispatch \<or> to = TxFailed then None else Some ErrInvalidStateTransition
      | TxPreparingDispatch \<Rightarrow>
          if to = TxPendingPublish \<or> to = TxFailed then None else Some ErrInvalidStateTransition
      | TxPendingPublish \<Rightarrow>
          if to = TxInFlight \<or> to = TxFailed \<or> to = TxCompleted then None
          else Some ErrInvalidStateTransition
      | TxInFlight \<Rightarrow>
          if to = TxCompleted \<or> to = TxFailed \<or> to = TxTimedOut then None
          else Some ErrInvalidStateTransition
      | TxCompleted \<Rightarrow> Some ErrAlreadyTerminal
      | TxFailed \<Rightarrow> Some ErrAlreadyTerminal
      | TxTimedOut \<Rightarrow> Some ErrAlreadyTerminal)"

fun tx_state_String :: "tx_state \<Rightarrow> string" where
  "tx_state_String TxCreated = ''TxCreated''"
| "tx_state_String TxPreparingDispatch = ''TxPreparingDispatch''"
| "tx_state_String TxPendingPublish = ''TxPendingPublish''"
| "tx_state_String TxInFlight = ''TxInFlight''"
| "tx_state_String TxCompleted = ''TxCompleted''"
| "tx_state_String TxFailed = ''TxFailed''"
| "tx_state_String TxTimedOut = ''TxTimedOut''"

definition is_terminal :: "tx_state \<Rightarrow> bool" where
  "is_terminal s \<longleftrightarrow> s = TxCompleted \<or> s = TxFailed \<or> s = TxTimedOut"

text \<open>The lifecycle as a relation, and the runs through it.\<close>

inductive lifecycle_step :: "tx_state \<Rightarrow> tx_state \<Rightarrow> bool" where
  step: "validateTransition a b = None \<Longrightarrow> lifecycle_step a b"

inductive_cases lifecycle_stepE: "lifecycle_step a b"

fun lifecycle_run :: "tx_state \<Rightarrow> tx_state list \<Rightarrow> bool" where
  "lifecycle_run s [] = True"
| "lifecycle_run s (t # ts) = (validateTransition s t = None \<and> lifecycle_run t ts)"

lemma validateTransition_None:
  "validateTransition a b = None \<longleftrightarrow>
     (a, b) \<in> {(TxCreated, TxPreparingDispatch), (TxCreated, TxFailed),
               (TxPreparingDispatch, TxPendingPublish), (TxPreparingDispatch, TxFailed),
               (TxPendingPublish, TxInFlight), (TxPendingPublish, TxFailed), (TxPendingPublish, TxCompleted),
               (TxInFlight, TxCompleted), (TxInFlight, TxFailed), (TxInFlight, TxTimedOut)}"
  by (cases a; cases b) (simp_all add: validateTransition_def)

lemma transition_increases: "validateTransition a b = None \<Longrightarrow> a < b"
  by (auto simp: validateTransition_None less_tx_state_def)

lemma transition_from_live: "validateTransition a b = None \<Longrightarrow> \<not> is_terminal a"
  by (auto simp: validateTransition_None is_terminal_def)

lemma terminal_blocks: "is_terminal a \<Longrightarrow> validateTransition a b = Some ErrAlreadyTerminal"
  by (cases a) (auto simp: is_terminal_def validateTransition_def)

text \<open>A run has at most four steps and passes at most one terminal state, its last.\<close>

lemma lifecycle_run_mono: "lifecycle_run s ts \<Longrightarrow> t \<in> set ts \<Longrightarrow> s < t"
  by (induction ts arbitrary: s) (auto dest: transition_increases intro: less_trans)

lemma lifecycle_run_terminal: "lifecycle_run s ts \<Longrightarrow> is_terminal s \<Longrightarrow> ts = []"
  by (cases ts) (auto dest: transition_from_live)

lemma lifecycle_run_sorted: "lifecycle_run s ts \<Longrightarrow> sorted_wrt (<) (s # ts)"
proof (induction ts arbitrary: s)
  case Nil
  then show ?case by simp
next
  case (Cons t ts)
  then have "sorted_wrt (<) (t # ts)" by (simp del: sorted_wrt.simps)
  moreover have "\<forall>x \<in> set (t # ts). s < x" using lifecycle_run_mono [OF Cons.prems] by blast
  ultimately show ?case by simp
qed

text \<open>The number of steps left from a state.\<close>

fun steps_left :: "tx_state \<Rightarrow> nat" where
  "steps_left TxCreated = 4"
| "steps_left TxPreparingDispatch = 3"
| "steps_left TxPendingPublish = 2"
| "steps_left TxInFlight = 1"
| "steps_left _ = 0"

lemma transition_steps_left: "validateTransition a b = None \<Longrightarrow> Suc (steps_left b) \<le> steps_left a"
  by (auto simp: validateTransition_None)

lemma lifecycle_run_steps: "lifecycle_run s ts \<Longrightarrow> length ts \<le> steps_left s"
  by (induction ts arbitrary: s) (fastforce dest: transition_steps_left)+

lemma lifecycle_run_length: "lifecycle_run TxCreated ts \<Longrightarrow> length ts \<le> 4"
  using lifecycle_run_steps by fastforce

lemma lifecycle_run_last:
  "lifecycle_run s ts \<Longrightarrow> \<forall>i < length ts. is_terminal (ts ! i) \<longrightarrow> i = length ts - 1"
proof (induction ts arbitrary: s)
  case Nil
  then show ?case by simp
next
  case (Cons t ts)
  then have run: "lifecycle_run t ts" by simp
  show ?case
  proof (intro allI impI)
    fix i
    assume i: "i < length (t # ts)" "is_terminal ((t # ts) ! i)"
    show "i = length (t # ts) - 1"
    proof (cases i)
      case 0
      with i lifecycle_run_terminal [OF run] show ?thesis by simp
    next
      case (Suc j)
      with i Cons.IH [OF run] show ?thesis by auto
    qed
  qed
qed

section \<open>Transactions\<close>

text \<open>A \<open>time.AfterFunc\<close> timer: armed to fire at an instant, or stopped.\<close>

datatype go_timer = Armed instant | Stopped

record transaction =
  tx_RPCID :: string
  tx_OperationID :: string
  tx_CloudSessionID :: string
  tx_CloudRPCID :: bytes
  tx_RequestKey :: string
  tx_RespondToCloud :: bool
  tx_Method :: string
  tx_State :: tx_state
  tx_Payload :: "bytes option"
  tx_HandoffInProgress :: bool
  tx_CreatedAt :: instant
  tx_TimeoutDuration :: duration
  tx_DispatchDeadline :: instant
  tx_ResponseDeadline :: "instant option"
  tx_DispatchTimer :: "go_timer option"
  tx_ResponseTimer :: "go_timer option"

text \<open>The zero \<open>time.Time\<close> of a deadline that was never set is \<open>None\<close>; it lies before every
  instant the clock shows.\<close>

section \<open>The response cache\<close>

record cache_entry =
  ce_Payload :: bytes
  ce_ExpiresAt :: instant

type_synonym transaction_cache = "(string, cache_entry) fmap"

record cache_ttl_config =
  ct_DefaultTTL :: duration
  ct_MethodTTLs :: "string \<rightharpoonup> duration"

definition TTLForMethod :: "cache_ttl_config \<Rightarrow> string \<Rightarrow> duration" where
  "TTLForMethod c method =
     (case ct_MethodTTLs c method of
        Some ttl \<Rightarrow> if ttl > 0 then ttl
                    else if ct_DefaultTTL c > 0 then ct_DefaultTTL c else 5 * Minute
      | None \<Rightarrow> if ct_DefaultTTL c > 0 then ct_DefaultTTL c else 5 * Minute)"

definition NewTransactionCache :: transaction_cache where
  "NewTransactionCache = fmempty"

definition cache_Set :: "instant \<Rightarrow> string \<Rightarrow> bytes \<Rightarrow> duration \<Rightarrow> transaction_cache \<Rightarrow> transaction_cache" where
  "cache_Set now canonicalCloudID payload ttl c =
     fmupd canonicalCloudID \<lparr>ce_Payload = payload, ce_ExpiresAt = now + ttl\<rparr> c"

definition cache_Get :: "instant \<Rightarrow> string \<Rightarrow> transaction_cache \<Rightarrow> bytes option" where
  "cache_Get now canonicalCloudID c =
     (case fmlookup c canonicalCloudID of
        None \<Rightarrow> None
      | Some entry \<Rightarrow> if now \<ge> ce_ExpiresAt entry then None else Some (ce_Payload entry))"

definition sweepCache :: "instant \<Rightarrow> transaction_cache \<Rightarrow> transaction_cache" where
  "sweepCache now c =
     fmfilter (\<lambda>key. case fmlookup c key of None \<Rightarrow> False | Some entry \<Rightarrow> \<not> now \<ge> ce_ExpiresAt entry) c"

text \<open>The sweeper goroutine after a number of ticks; a non-positive interval means one minute.\<close>

primrec StartCacheSweeper :: "instant \<Rightarrow> duration \<Rightarrow> nat \<Rightarrow> transaction_cache \<Rightarrow> transaction_cache" where
  "StartCacheSweeper start interval 0 c = c"
| "StartCacheSweeper start interval (Suc n) c =
     sweepCache (start + int (Suc n) * (if interval \<le> 0 then 1 * Minute else interval))
       (StartCacheSweeper start interval n c)"

lemma TTLForMethod_pos: "0 < TTLForMethod c method"
  by (auto simp: TTLForMethod_def split: option.splits)

lemma cache_Get_Set:
  "cache_Get now' k' (cache_Set now k p ttl c) =
     (if k' = k then (if now' < now + ttl then Some p else None) else cache_Get now' k' c)"
  by (auto simp: cache_Get_def cache_Set_def)

text \<open>Sweeping is invisible to every later reader.\<close>

lemma cache_Get_sweep: "now \<le> now' \<Longrightarrow> cache_Get now' k (sweepCache now c) = cache_Get now' k c"
  by (auto simp: cache_Get_def sweepCache_def split: option.splits)

lemma sweep_no_expired:
  "fmlookup (sweepCache now c) k = Some e \<Longrightarrow> now < ce_ExpiresAt e \<and> fmlookup c k = Some e"
  by (auto simp: sweepCache_def split: option.splits if_splits)

lemma cache_Get_sweeper:
  "start + int n * (if interval \<le> 0 then 1 * Minute else interval) \<le> now \<Longrightarrow>
     cache_Get now k (StartCacheSweeper start interval n c) = cache_Get now k c"
proof (induction n)
  case 0
  then show ?case by simp
next
  case (Suc n)
  have "start + int n * (if interval \<le> 0 then 1 * Minute else interval) \<le> now"
    using Suc.prems by (auto simp: algebra_simps split: if_splits)
  with Suc show ?case by (simp add: cache_Get_sweep)
qed

section \<open>Properties\<close>

text \<open>C21: a transaction passes its states in strictly increasing order, in at most four steps, and
  reaches at most one terminal state, which is then its last.\<close>

theorem lifecycle_one_terminal_state:
  assumes "lifecycle_run TxCreated ts"
  shows "sorted_wrt (<) (TxCreated # ts) \<and> length ts \<le> 4
     \<and> (\<forall>i < length ts. is_terminal (ts ! i) \<longrightarrow> i = length ts - 1)"
  using lifecycle_run_sorted [OF assms] lifecycle_run_length [OF assms] lifecycle_run_last [OF assms]
  by blast

theorem lifecycle_one_terminal_state_witness:
  "lifecycle_run TxCreated [TxPreparingDispatch, TxPendingPublish, TxInFlight, TxTimedOut]
     \<and> sorted_wrt (<) [TxCreated, TxPreparingDispatch, TxPendingPublish, TxInFlight, TxTimedOut]"
  using lifecycle_one_terminal_state
    [of "[TxPreparingDispatch, TxPendingPublish, TxInFlight, TxTimedOut]"]
  by (simp add: validateTransition_None)

text \<open>C23: a cached response is returned for its key until its time to live has passed and never
  after, whatever number of sweeps ran meanwhile, and the sweeps remove no entry that a reader
  could still see.\<close>

theorem cache_serves_until_expiry:
  assumes "start + int n * (if interval \<le> 0 then 1 * Minute else interval) \<le> now"
  shows "cache_Get now k (StartCacheSweeper start interval n (cache_Set t key payload ttl c)) =
     (if k = key then (if now < t + ttl then Some payload else None) else cache_Get now k c)"
  by (simp only: cache_Get_sweeper [OF assms] cache_Get_Set)

theorem cache_serves_until_expiry_witness:
  "cache_Get (61 * Second) ''k'' (StartCacheSweeper 0 0 1 (cache_Set 0 ''k'' ''r'' (5 * Minute) fmempty)) = Some ''r''"
  using cache_serves_until_expiry [of 0 1 0 "61 * Second" "''k''" 0 "''k''" "''r''" "5 * Minute" fmempty]
  by simp

end
