(* ===== verification/Request_Key.thy ===== *)
theory Request_Key
  imports Go_Json
begin

text \<open>
  The canonical request key (\<open>CanonicalRequestKey\<close> of \<open>src/pkg/reqmgr/manager.go\<close>), by which
  duplicate requests are recognised: the session, a type tag, and the string or the exact
  rational value of the JSON-RPC id.
\<close>

text \<open>\<open>big.Rat.SetString\<close> on a JSON number literal: the exponent must fit 64 bits, and a non-zero
  mantissa must not be scaled by more than \<open>10^6\<close> decimal places.\<close>

definition Rat_SetString :: "bytes \<Rightarrow> rat option" where
  "Rat_SetString lit =
     (let l = num_parts lit
      in if nl_exp l < - (2 ^ 63) \<or> nl_exp l \<ge> 2 ^ 63 then None
         else if num_mantissa l \<noteq> 0 \<and> \<bar>num_exp10 l\<bar> > 1000000 then None
         else Some (num_value lit))"

text \<open>\<open>big.Rat.RatString\<close>: the numerator alone for an integer, else \<open>a/b\<close> in lowest terms.\<close>

definition RatString :: "rat \<Rightarrow> bytes" where
  "RatString r =
     (case quotient_of r of (a, b) \<Rightarrow> if b = 1 then show_int a else show_int a @ ''/'' @ show_int b)"

definition CanonicalRequestKey :: "string \<Rightarrow> bytes \<Rightarrow> string result" where
  "CanonicalRequestKey sessionID rid =
     (if length rid > 256 then Inl (EMsg ''json-rpc id exceeds maximum length'')
      else if rid = [] \<or> rid = ''null'' then Inr ''''
      else case decode_first rid of
        DValue raw rest \<Rightarrow>
          if decode_first rest \<noteq> DEOF then Inl (EMsg ''invalid json-rpc id: trailing content'')
          else if starts (CHR 0x22) raw then Inr (sessionID @ '':s:'' @ json_unquote raw)
          else if starts (CHR ''-'') raw \<or> list_ex is_digit (take 1 raw) then
            (case Rat_SetString raw of
               None \<Rightarrow> Inl (EMsg ''invalid json-rpc number'')
             | Some r \<Rightarrow> Inr (sessionID @ '':n:'' @ RatString r))
          else Inl (EMsg ''json-rpc id must be string or number'')
      | _ \<Rightarrow> Inl (EWrap ''invalid json-rpc id'' (EMsg ''json'')))"

text \<open>What an accepted id denotes: nothing for a notification, a string, or a rational number.\<close>

datatype id_value = NoID | StringID bytes | NumberID rat

definition id_denotes :: "bytes \<Rightarrow> id_value option" where
  "id_denotes rid =
     (if length rid > 256 then None
      else if rid = [] \<or> rid = ''null'' then Some NoID
      else case decode_first rid of
        DValue raw rest \<Rightarrow>
          if decode_first rest \<noteq> DEOF then None
          else if starts (CHR 0x22) raw then Some (StringID (json_unquote raw))
          else if starts (CHR ''-'') raw \<or> list_ex is_digit (take 1 raw)
          then map_option NumberID (Rat_SetString raw)
          else None
      | _ \<Rightarrow> None)"

fun key_of :: "string \<Rightarrow> id_value \<Rightarrow> string" where
  "key_of sess NoID = ''''"
| "key_of sess (StringID s) = sess @ '':s:'' @ s"
| "key_of sess (NumberID r) = sess @ '':n:'' @ RatString r"

lemma CanonicalRequestKey_denotes:
  "CanonicalRequestKey sess rid = Inr k \<longleftrightarrow> (\<exists>v. id_denotes rid = Some v \<and> k = key_of sess v)"
  by (auto simp: CanonicalRequestKey_def id_denotes_def split: decoded.splits option.splits)

lemma append_sep_inj:
  "c \<notin> set xs \<Longrightarrow> c \<notin> set ys \<Longrightarrow> xs @ c # us = ys @ c # vs \<longleftrightarrow> xs = ys \<and> us = vs"
proof (induction xs arbitrary: ys)
  case Nil
  then show ?case by (cases ys) auto
next
  case (Cons x xs)
  then show ?case by (cases ys) auto
qed

lemma RatString_inj [simp]: "RatString r = RatString s \<longleftrightarrow> r = s"
proof
  assume eq: "RatString r = RatString s"
  obtain a b c d where q: "quotient_of r = (a, b)" "quotient_of s = (c, d)" by fastforce
  have slash: "CHR ''/'' \<notin> set (show_int i)" for i
    by (rule char_not_in_show_int) simp_all
  then have sep: "show_int i @ CHR ''/'' # us = show_int j @ CHR ''/'' # vs \<longleftrightarrow> i = j \<and> us = vs" for i j us vs
    using append_sep_inj [of "CHR ''/''" "show_int i" "show_int j" us vs] slash by simp
  have noslash: "show_int i \<noteq> show_int j @ CHR ''/'' # us" for i j us
    using slash [of i] by auto
  have "a = c \<and> b = d"
    using eq q sep noslash noslash [symmetric] by (auto simp: RatString_def split: if_splits)
  with q show "r = s" by (metis quotient_of_inject)
qed simp

lemma key_of_session_inj:
  assumes "CHR '':'' \<notin> set sess" and "CHR '':'' \<notin> set sess'"
  shows "key_of sess v = key_of sess' v' \<longleftrightarrow> (v = NoID \<and> v' = NoID) \<or> (sess = sess' \<and> v = v')"
proof -
  have "sess @ CHR '':'' # us = sess' @ CHR '':'' # vs \<longleftrightarrow> sess = sess' \<and> us = vs" for us vs
    using append_sep_inj [of "CHR '':''" sess sess' us vs] assms by simp
  then show ?thesis by (cases v; cases v') auto
qed

lemma key_of_empty: "key_of sess v = '''' \<longleftrightarrow> v = NoID"
  by (cases v) auto

lemma CanonicalRequestKey_empty:
  "CanonicalRequestKey sess rid = Inr k \<Longrightarrow> k = '''' \<longleftrightarrow> rid = [] \<or> rid = ''null''"
  by (auto simp: CanonicalRequestKey_def split: if_splits decoded.splits option.splits)

section \<open>Properties\<close>

text \<open>C22: within session identifiers without a colon (the client uses UUIDs), two requests get the
  same non-empty key exactly when they belong to the same session and their ids denote the same
  JSON string or the same rational number, whatever their spelling; a request gets the empty
  key exactly when it has no id.\<close>

theorem request_key_identity:
  assumes "CHR '':'' \<notin> set sess" and "CHR '':'' \<notin> set sess'"
    and "CanonicalRequestKey sess rid = Inr k" and "CanonicalRequestKey sess' rid' = Inr k'"
  shows "(k = k' \<longleftrightarrow> (id_denotes rid = Some NoID \<and> id_denotes rid' = Some NoID)
                   \<or> (sess = sess' \<and> id_denotes rid = id_denotes rid'))
     \<and> (k = '''' \<longleftrightarrow> id_denotes rid = Some NoID)"
proof -
  obtain v v' where "id_denotes rid = Some v" "k = key_of sess v" "id_denotes rid' = Some v'"
      "k' = key_of sess' v'"
    using assms(3,4) by (auto simp: CanonicalRequestKey_denotes)
  then show ?thesis
    using key_of_session_inj [OF assms(1,2)] key_of_empty by auto
qed

theorem request_key_identity_witness:
  "CanonicalRequestKey ''s'' ''1'' = Inr ''s:n:1'' \<and> CanonicalRequestKey ''s'' ''1.0'' = Inr ''s:n:1''
     \<and> id_denotes ''1'' = id_denotes ''1.0''"
proof -
  have k: "CanonicalRequestKey ''s'' ''1'' = Inr ''s:n:1''" "CanonicalRequestKey ''s'' ''1.0'' = Inr ''s:n:1''"
    by code_simp+
  from request_key_identity [of "''s''" "''s''", OF _ _ k] k show ?thesis by auto
qed

end
