(* ===== verification/Manager.thy ===== *)
theory Manager
  imports Transactions Request_Key Scheduler Op_Store
begin

text \<open>
  The request manager (\<open>src/pkg/reqmgr/manager.go\<close>): its state and its operations. Every operation
  the code runs between \<open>m.mu.Lock\<close> and \<open>m.mu.Unlock\<close> is one function on the state; the operations
  that drop the mutex around disk access are the sequence of their locked sections. The clock and
  the identifiers that \<open>uuid.New\<close> returns are arguments; the operation store is accessed between
  the sections.
\<close>

section \<open>State\<close>

record pending_reply =
  pr_Payload :: "bytes option"
  pr_State :: tx_state

datatype lock_owner = LockNone | LockOwnedByRPC | LockTransferPending | LockOwnedByOperation

record manager =
  mg_dispatchTimeout :: duration
  mg_transactionsByRPCID :: "(string, transaction) fmap"
  mg_activeCloudRequests :: "(string, string) fmap"
  mg_stateLock :: go_mutex
  mg_activeStateTx :: string
  mg_activeStateOwner :: lock_owner
  mg_releasingOperationID :: string
  mg_cache :: transaction_cache
  mg_cacheTTLConfig :: cache_ttl_config
  mg_scheduler :: "priority_scheduler option"
  mg_pendingReplies :: "(string, pending_reply) fmap"
  mg_maxConcurrentRequests :: int
  mg_sweeperTTL :: duration
  mg_activeRecordLimit :: int
  mg_bootID :: string

abbreviation txs :: "manager \<Rightarrow> (string, transaction) fmap" where "txs \<equiv> mg_transactionsByRPCID"
abbreviation live :: "manager \<Rightarrow> string \<Rightarrow> transaction option" where
  "live m rpcID \<equiv> fmlookup (mg_transactionsByRPCID m) rpcID"

text \<open>The text of \<open>/proc/sys/kernel/random/boot_id\<close>, when it can be read.\<close>

definition getSystemBootID :: "bytes result \<Rightarrow> string" where
  "getSystemBootID file =
     (case file of Inr data \<Rightarrow> (let bid = TrimSpace data in if bid \<noteq> [] then bid else '''') | Inl e \<Rightarrow> '''')"

definition SetBootID :: "string \<Rightarrow> manager \<Rightarrow> manager" where
  "SetBootID bootID m = m\<lparr>mg_bootID := bootID\<rparr>"

definition GetBootID :: "manager \<Rightarrow> string" where
  "GetBootID m = mg_bootID m"

text \<open>The cache and the store may be passed as \<open>nil\<close>; the store is present or not, as its content is
  not part of the manager's state.\<close>

definition NewRequestManager ::
  "bytes result \<Rightarrow> duration \<Rightarrow> cache_ttl_config \<Rightarrow> transaction_cache option \<Rightarrow> priority_scheduler option
     \<Rightarrow> bool \<Rightarrow> int \<Rightarrow> duration \<Rightarrow> int \<Rightarrow> manager result" where
  "NewRequestManager boot_file dispatchTimeout cacheTTLConfig cache scheduler store_present
     maxConcurrentRequests sweeperTTL activeRecordLimit =
     (case cache of None \<Rightarrow> Inl (EMsg ''cache cannot be nil'') | Some c \<Rightarrow>
      if \<not> store_present then Inl (EMsg ''store cannot be nil'')
      else Inr \<lparr>mg_dispatchTimeout = dispatchTimeout, mg_transactionsByRPCID = fmempty,
        mg_activeCloudRequests = fmempty, mg_stateLock = MUnlocked, mg_activeStateTx = '''',
        mg_activeStateOwner = LockNone, mg_releasingOperationID = '''', mg_cache = c,
        mg_cacheTTLConfig = cacheTTLConfig, mg_scheduler = scheduler, mg_pendingReplies = fmempty,
        mg_maxConcurrentRequests = maxConcurrentRequests, mg_sweeperTTL = sweeperTTL,
        mg_activeRecordLimit = activeRecordLimit, mg_bootID = getSystemBootID boot_file\<rparr>)"

section \<open>Creating transactions\<close>

definition set_tx :: "string \<Rightarrow> transaction \<Rightarrow> manager \<Rightarrow> manager" where
  "set_tx rpcID tx m = m\<lparr>mg_transactionsByRPCID := fmupd rpcID tx (txs m)\<rparr>"

definition new_tx ::
  "instant \<Rightarrow> string \<Rightarrow> string \<Rightarrow> bytes \<Rightarrow> string \<Rightarrow> bool \<Rightarrow> string \<Rightarrow> duration \<Rightarrow> duration \<Rightarrow> transaction" where
  "new_tx now rpcID sessionID cloudRPCID reqKey respondToCloud method timeout dispatchTimeout =
     \<lparr>tx_RPCID = rpcID, tx_OperationID = '''', tx_CloudSessionID = sessionID, tx_CloudRPCID = cloudRPCID,
      tx_RequestKey = reqKey, tx_RespondToCloud = respondToCloud, tx_Method = method,
      tx_State = TxCreated, tx_Payload = None, tx_HandoffInProgress = False, tx_CreatedAt = now,
      tx_TimeoutDuration = timeout, tx_DispatchDeadline = now + dispatchTimeout,
      tx_ResponseDeadline = None, tx_DispatchTimer = None, tx_ResponseTimer = None\<rparr>"

text \<open>\<open>rpcID\<close> is the identifier \<open>uuid.New\<close> returns for this call.\<close>

definition CreateTransaction ::
  "instant \<Rightarrow> string \<Rightarrow> string \<Rightarrow> bytes \<Rightarrow> bool \<Rightarrow> string \<Rightarrow> duration \<Rightarrow> bool \<Rightarrow> manager
     \<Rightarrow> transaction result \<times> manager" where
  "CreateTransaction now rpcID sessionID cloudRPCID respondToCloud method timeout isStateChanging m =
     (let isNotification = (cloudRPCID = [] \<or> cloudRPCID = ''null'') in
      if isNotification \<and> respondToCloud
        then (Inl (EMsg ''cannot request response for a notification (null/empty ID)''), m)
      else if method = ''upgrade'' \<and> \<not> isStateChanging
        then (Inl (EMsg ''upgrade must be state-changing''), m)
      else case CanonicalRequestKey sessionID cloudRPCID of Inl e \<Rightarrow> (Inl e, m) | Inr reqKey \<Rightarrow>
     (case cache_Get now reqKey (mg_cache m) of
        Some cachedPayload \<Rightarrow> (Inl (CachedResponseError cachedPayload), m)
      | None \<Rightarrow>
      if fmlookup (mg_activeCloudRequests m) reqKey \<noteq> None then (Inl ErrDuplicateRequest, m)
      else if int (fcard (fmdom (txs m))) \<ge> mg_maxConcurrentRequests m then (Inl ErrCapacityExceeded, m)
      else
        let tx = new_tx now rpcID sessionID cloudRPCID reqKey respondToCloud method timeout
                   (mg_dispatchTimeout m);
            register = (\<lambda>m. set_tx rpcID tx
              (if \<not> isNotification \<and> reqKey \<noteq> ''''
               then m\<lparr>mg_activeCloudRequests := fmupd reqKey rpcID (mg_activeCloudRequests m)\<rparr> else m))
        in if isStateChanging then
             (if \<not> respondToCloud \<or> isNotification
                then (Inl (EMsg ''state-changing commands must have a non-null ID''), m)
              else case mutex_TryLock (mg_stateLock m) of
                (l, False) \<Rightarrow> (Inl ErrStateLockBusy, m\<lparr>mg_stateLock := l\<rparr>)
              | (l, True) \<Rightarrow>
                  (Inr tx, register (m\<lparr>mg_stateLock := l, mg_activeStateTx := rpcID,
                                       mg_activeStateOwner := LockOwnedByRPC\<rparr>)))
           else (Inr tx, register m)))"

section \<open>Terminal transitions\<close>

text \<open>The response is pushed to the scheduler, if there is one; a refused push is only logged.\<close>

definition push_response :: "transaction \<Rightarrow> bytes option \<Rightarrow> manager \<Rightarrow> manager" where
  "push_response tx payload m =
     (case (payload, mg_scheduler m) of
        (Some p, Some s) \<Rightarrow>
          if tx_RespondToCloud tx \<and> 0 < length p then
            (case sched_Push \<lparr>om_SessionID = tx_CloudSessionID tx, om_Priority = PriorityHighest, om_Payload = p\<rparr> s of
               Inl e \<Rightarrow> m
             | Inr s' \<Rightarrow> m\<lparr>mg_scheduler := Some s'\<rparr>)
          else m
      | _ \<Rightarrow> m)"

definition terminalTransition ::
  "instant \<Rightarrow> string \<Rightarrow> tx_state \<Rightarrow> bytes option \<Rightarrow> manager \<Rightarrow> go_error option \<times> manager" where
  "terminalTransition now rpcID finalState payload m =
     (if \<not> is_terminal finalState then (Some ErrInvalidStateTransition, m)
      else case live m rpcID of None \<Rightarrow> (Some ErrTransactionNotFound, m) | Some tx \<Rightarrow>
     (case validateTransition (tx_State tx) finalState of Some e \<Rightarrow> (Some e, m) | None \<Rightarrow>
      let m1 = (case payload of
                  Some p \<Rightarrow>
                    if finalState = TxCompleted \<and> tx_RespondToCloud tx
                    then m\<lparr>mg_cache := cache_Set now (tx_RequestKey tx) p
                                         (TTLForMethod (mg_cacheTTLConfig m) (tx_Method tx)) (mg_cache m)\<rparr>
                    else m
                | None \<Rightarrow> m);
          m2 = m1\<lparr>mg_pendingReplies := fmdrop rpcID (mg_pendingReplies m1)\<rparr>;
          m3 = (if tx_RequestKey tx \<noteq> ''''
                then m2\<lparr>mg_activeCloudRequests := fmdrop (tx_RequestKey tx) (mg_activeCloudRequests m2)\<rparr>
                else m2);
          m4 = m3\<lparr>mg_transactionsByRPCID := fmdrop rpcID (txs m3)\<rparr>;
          m5 = (if mg_activeStateTx m4 = rpcID
                then m4\<lparr>mg_activeStateTx := '''', mg_activeStateOwner := LockNone,
                         mg_stateLock := mutex_Unlock (mg_stateLock m4)\<rparr>
                else m4)
      in (None, push_response tx payload m5)))"

text \<open>\<open>recoverToInFlight\<close> on a transaction of the map.\<close>

definition recoverToInFlight :: "string \<Rightarrow> transaction \<Rightarrow> manager \<Rightarrow> go_error option \<times> manager" where
  "recoverToInFlight rpcID tx m =
     (case validateTransition (tx_State tx) TxInFlight of
        Some e \<Rightarrow> (Some e, m)
      | None \<Rightarrow> (None, set_tx rpcID (tx\<lparr>tx_State := TxInFlight\<rparr>) m))"

definition drop_pending :: "string \<Rightarrow> manager \<Rightarrow> manager" where
  "drop_pending rpcID m = m\<lparr>mg_pendingReplies := fmdrop rpcID (mg_pendingReplies m)\<rparr>"

definition add_pending :: "string \<Rightarrow> pending_reply \<Rightarrow> manager \<Rightarrow> manager" where
  "add_pending rpcID p m = m\<lparr>mg_pendingReplies := fmupd rpcID p (mg_pendingReplies m)\<rparr>"

text \<open>Buffering a reply: the first one wins. (The nil check of the map never holds: the constructor
  makes it.)\<close>

definition buffer_reply :: "string \<Rightarrow> pending_reply \<Rightarrow> manager \<Rightarrow> go_error option \<times> manager" where
  "buffer_reply rpcID p m =
     (if fmlookup (mg_pendingReplies m) rpcID \<noteq> None then (Some ErrAlreadyTerminal, m)
      else (None, add_pending rpcID p m))"

definition preflight :: "tx_state \<Rightarrow> bool" where
  "preflight s \<longleftrightarrow> s = TxCreated \<or> s = TxPreparingDispatch \<or> s = TxPendingPublish"

definition dispatchTimeoutFail :: "instant \<Rightarrow> string \<Rightarrow> manager \<Rightarrow> manager" where
  "dispatchTimeoutFail now rpcID m =
     (case live m rpcID of None \<Rightarrow> m | Some tx \<Rightarrow>
      if preflight (tx_State tx) then
        (case fmlookup (mg_pendingReplies m) rpcID of
           Some pending \<Rightarrow>
             (let m1 = drop_pending rpcID m in
              case recoverToInFlight rpcID tx m1 of
                (None, m2) \<Rightarrow> snd (terminalTransition now rpcID (pr_State pending) (pr_Payload pending) m2)
              | (Some e, m2) \<Rightarrow> snd (terminalTransition now rpcID TxFailed None m2))
         | None \<Rightarrow> snd (terminalTransition now rpcID TxFailed None m))
      else m)"

section \<open>Progress towards dispatch\<close>

definition mark :: "tx_state \<Rightarrow> string \<Rightarrow> manager \<Rightarrow> go_error option \<times> manager" where
  "mark st rpcID m =
     (case live m rpcID of None \<Rightarrow> (Some ErrTransactionNotFound, m) | Some tx \<Rightarrow>
     (case validateTransition (tx_State tx) st of Some e \<Rightarrow> (Some e, m) | None \<Rightarrow>
      (None, set_tx rpcID (tx\<lparr>tx_State := st\<rparr>) m)))"

definition MarkPreparingDispatch :: "string \<Rightarrow> manager \<Rightarrow> go_error option \<times> manager" where
  "MarkPreparingDispatch rpcID m = mark TxPreparingDispatch rpcID m"

definition MarkPendingPublish :: "string \<Rightarrow> manager \<Rightarrow> go_error option \<times> manager" where
  "MarkPendingPublish rpcID m = mark TxPendingPublish rpcID m"

text \<open>\<open>DispatchTimer.Stop\<close> on a timer that is never created leaves \<open>nil\<close>.\<close>

definition stop_timer :: "go_timer option \<Rightarrow> go_timer option" where
  "stop_timer t = map_option (\<lambda>_. Stopped) t"

definition MarkInFlight :: "instant \<Rightarrow> string \<Rightarrow> manager \<Rightarrow> go_error option \<times> manager" where
  "MarkInFlight now rpcID m =
     (case live m rpcID of None \<Rightarrow> (Some ErrTransactionNotFound, m) | Some tx \<Rightarrow>
     (case validateTransition (tx_State tx) TxInFlight of Some e \<Rightarrow> (Some e, m) | None \<Rightarrow>
      let tx1 = tx\<lparr>tx_State := TxInFlight\<rparr>; m1 = set_tx rpcID tx1 m in
      case fmlookup (mg_pendingReplies m1) rpcID of
        Some pending \<Rightarrow>
          terminalTransition now rpcID (pr_State pending) (pr_Payload pending) (drop_pending rpcID m1)
      | None \<Rightarrow>
          (None, set_tx rpcID
             (tx1\<lparr>tx_DispatchTimer := stop_timer (tx_DispatchTimer tx1),
                  tx_ResponseDeadline := Some (now + tx_TimeoutDuration tx1),
                  tx_ResponseTimer := Some (Armed (now + tx_TimeoutDuration tx1))\<rparr>) m1)))"

section \<open>Terminal events\<close>

definition Complete :: "instant \<Rightarrow> string \<Rightarrow> bytes option \<Rightarrow> manager \<Rightarrow> go_error option \<times> manager" where
  "Complete now rpcID response m =
     (case live m rpcID of None \<Rightarrow> (Some ErrTransactionNotFound, m) | Some tx \<Rightarrow>
      if preflight (tx_State tx) \<or> tx_HandoffInProgress tx
      then buffer_reply rpcID \<lparr>pr_Payload = response, pr_State = TxCompleted\<rparr> m
      else terminalTransition now rpcID TxCompleted response m)"

text \<open>\<open>Fail\<close> and \<open>Timeout\<close> treat a reply that is already buffered alike: outside a handoff it is
  delivered first, when the transaction can be promoted to in-flight, and discarded otherwise.\<close>

definition fail_or_timeout ::
  "instant \<Rightarrow> string \<Rightarrow> tx_state \<Rightarrow> bytes option \<Rightarrow> transaction \<Rightarrow> manager \<Rightarrow> go_error option \<times> manager" where
  "fail_or_timeout now rpcID st payload tx m =
     (if tx_HandoffInProgress tx then buffer_reply rpcID \<lparr>pr_Payload = payload, pr_State = st\<rparr> m
      else case fmlookup (mg_pendingReplies m) rpcID of
        None \<Rightarrow> terminalTransition now rpcID st payload m
      | Some pending \<Rightarrow>
          (let m1 = drop_pending rpcID m in
           case recoverToInFlight rpcID tx m1 of
             (None, m2) \<Rightarrow>
               (Some ErrAlreadyTerminal,
                snd (terminalTransition now rpcID (pr_State pending) (pr_Payload pending) m2))
           | (Some e, m2) \<Rightarrow> terminalTransition now rpcID st payload m2))"

definition Fail :: "instant \<Rightarrow> string \<Rightarrow> bytes option \<Rightarrow> manager \<Rightarrow> go_error option \<times> manager" where
  "Fail now rpcID errResponse m =
     (case live m rpcID of None \<Rightarrow> (Some ErrTransactionNotFound, m) | Some tx \<Rightarrow>
      fail_or_timeout now rpcID TxFailed errResponse tx m)"

text \<open>A marshalling error is ignored by the code and leaves \<open>nil\<close>.\<close>

definition buildTimeoutResponse :: "transaction \<Rightarrow> bytes option" where
  "buildTimeoutResponse tx =
     (if \<not> tx_RespondToCloud tx then None
      else Response_Marshal
        \<lparr>rs_JSONRPC = JSONRPCVersion, rs_Result = [],
         rs_Error = (case NewInternalJSONRPCError ErrTimeout ''Command timed out waiting for device response'' of
                       Inl e \<Rightarrow> None | Inr e \<Rightarrow> Some e),
         rs_ID = tx_CloudRPCID tx\<rparr>)"

definition Timeout :: "instant \<Rightarrow> string \<Rightarrow> manager \<Rightarrow> go_error option \<times> manager" where
  "Timeout now rpcID m =
     (case live m rpcID of None \<Rightarrow> (Some ErrTransactionNotFound, m) | Some tx \<Rightarrow>
      fail_or_timeout now rpcID TxTimedOut (buildTimeoutResponse tx) tx m)"

definition GetTransaction :: "string \<Rightarrow> manager \<Rightarrow> transaction option" where
  "GetTransaction rpcID m = live m rpcID"

section \<open>Releasing an operation\<close>

text \<open>\<open>ReleaseOperationLock\<close> before its store access: the in-memory lock is given up first.\<close>

definition rel_begin :: "string \<Rightarrow> manager \<Rightarrow> go_error option \<times> manager" where
  "rel_begin operationID m =
     (if operationID = '''' then (Some ErrOperationNotActive, m)
      else if mg_releasingOperationID m = operationID then (Some ErrOperationReleaseInProgress, m)
      else if mg_activeStateTx m \<noteq> operationID \<or> mg_activeStateOwner m \<noteq> LockOwnedByOperation
        then (Some ErrOperationNotActive, m)
      else (None, m\<lparr>mg_releasingOperationID := operationID, mg_activeStateTx := '''',
                    mg_activeStateOwner := LockNone, mg_stateLock := mutex_Unlock (mg_stateLock m)\<rparr>))"

text \<open>And after it.\<close>

definition rel_finish :: "string \<Rightarrow> manager \<Rightarrow> manager" where
  "rel_finish operationID m =
     (if mg_releasingOperationID m = operationID then m\<lparr>mg_releasingOperationID := ''''\<rparr> else m)"

text \<open>The whole call, the store's \<open>Delete\<close> running between the two sections.\<close>

definition ReleaseOperationLock ::
  "(string \<Rightarrow> 's \<Rightarrow> go_error option \<times> 's) \<Rightarrow> string \<Rightarrow> manager \<times> 's \<Rightarrow> go_error option \<times> manager \<times> 's" where
  "ReleaseOperationLock delete operationID st =
     (case st of (m, store) \<Rightarrow>
      case rel_begin operationID m of
        (Some e, m') \<Rightarrow> (Some e, m', store)
      | (None, m') \<Rightarrow>
          (case delete operationID store of (err, store') \<Rightarrow> (err, rel_finish operationID m', store')))"

section \<open>Handing the lock over to a background operation\<close>

text \<open>\<open>RespondAndRetain\<close> up to its first unlock: the guards, then the handoff mark.\<close>

definition rar_begin :: "string \<Rightarrow> manager \<Rightarrow> transaction result \<times> manager" where
  "rar_begin rpcID m =
     (case live m rpcID of None \<Rightarrow> (Inl ErrTransactionNotFound, m) | Some tx \<Rightarrow>
      if tx_Method tx \<noteq> ''upgrade'' then (Inl (EMsg ''only upgrade operations can be retained''), m)
      else if tx_State tx \<noteq> TxInFlight \<and> tx_State tx \<noteq> TxPendingPublish then (Inl ErrInvalidStateTransition, m)
      else if mg_activeStateTx m \<noteq> rpcID then (Inl (EMsg ''transaction does not own the state lock''), m)
      else if tx_HandoffInProgress tx then (Inl ErrHandoffInProgress, m)
      else
        let tx1 = tx\<lparr>tx_ResponseTimer := stop_timer (tx_ResponseTimer tx), tx_HandoffInProgress := True\<rparr>
        in (Inr tx1, (set_tx rpcID tx1 m)\<lparr>mg_activeStateOwner := LockTransferPending\<rparr>))"

definition rar_operation :: "instant \<Rightarrow> string \<Rightarrow> string \<Rightarrow> transaction \<Rightarrow> string \<Rightarrow> persistent_operation" where
  "rar_operation now operationID rpcID tx bootID =
     \<lparr>po_OperationID = operationID, po_RPCID = rpcID, po_CloudRPCID = tx_CloudRPCID tx,
      po_Target = ''system'', po_Action = ''upgrade'', po_Stage = ''started'', po_Status = ''started'',
      po_Active = True, po_BootID = bootID, po_CreatedAt = FormatRFC3339 now, po_UpdatedAt = FormatRFC3339 now\<rparr>"

text \<open>The transaction object is shared with the map. When it left the map meanwhile, \<open>tx0\<close>, the
  content captured at the handoff, still has the fields that are read here, and the writes to it
  reach nobody: its timer only calls \<open>Timeout\<close> for an identifier that is gone.\<close>

definition upd_if_live :: "string \<Rightarrow> (transaction \<Rightarrow> transaction) \<Rightarrow> manager \<Rightarrow> manager" where
  "upd_if_live rpcID f m = (case live m rpcID of None \<Rightarrow> m | Some tx \<Rightarrow> set_tx rpcID (f tx) m)"

definition rar_save_failed ::
  "instant \<Rightarrow> string \<Rightarrow> transaction \<Rightarrow> go_error \<Rightarrow> manager \<Rightarrow> (string \<times> go_error option) \<times> manager" where
  "rar_save_failed now rpcID tx0 err m =
     (let m1 = upd_if_live rpcID (\<lambda>tx. tx\<lparr>tx_HandoffInProgress := False\<rparr>) m;
          m2 = (if mg_activeStateTx m1 = rpcID then m1\<lparr>mg_activeStateOwner := LockOwnedByRPC\<rparr> else m1)
      in case fmlookup (mg_pendingReplies m2) rpcID of
           Some pending \<Rightarrow>
             (case terminalTransition now rpcID (pr_State pending) (pr_Payload pending) (drop_pending rpcID m2) of
                (e, m3) \<Rightarrow> (('''', e), m3))
         | None \<Rightarrow>
             let tx = (case live m2 rpcID of None \<Rightarrow> tx0 | Some tx \<Rightarrow> tx) in
             if (case tx_ResponseDeadline tx of None \<Rightarrow> True | Some dl \<Rightarrow> dl - now \<le> 0)
             then (('''', Some ErrAlreadyTerminal),
                   snd (terminalTransition now rpcID TxTimedOut (buildTimeoutResponse tx) m2))
             else (('''', Some (EWrap ''failed to persist background operation'' err)),
                   upd_if_live rpcID (\<lambda>tx. tx\<lparr>tx_ResponseTimer := Some (Armed (the (tx_ResponseDeadline tx)))\<rparr>) m2))"

text \<open>After a successful save: either the call is over, or a buffered reply has to be delivered after
  the operation, which now owns the lock, has been released.\<close>

datatype rar_next = RarReturn "string \<times> go_error option" | RarRelease pending_reply

definition rar_saved ::
  "instant \<Rightarrow> string \<Rightarrow> string \<Rightarrow> bytes option \<Rightarrow> manager \<Rightarrow> rar_next \<times> manager" where
  "rar_saved now rpcID operationID response m =
     (let m1 = (if mg_activeStateTx m = rpcID
                then m\<lparr>mg_activeStateTx := operationID, mg_activeStateOwner := LockOwnedByOperation\<rparr> else m)
      in case fmlookup (mg_pendingReplies m1) rpcID of
           Some pending \<Rightarrow>
             if mg_activeStateTx m1 = operationID then (RarRelease pending, m1)
             else (case terminalTransition now rpcID (pr_State pending) (pr_Payload pending) (drop_pending rpcID m1) of
                     (e, m2) \<Rightarrow> (RarReturn ('''', e), m2))
         | None \<Rightarrow>
             (case terminalTransition now rpcID TxCompleted response m1 of
                (e, m2) \<Rightarrow> (RarReturn (operationID, e), m2)))"

definition rar_resume ::
  "instant \<Rightarrow> string \<Rightarrow> pending_reply \<Rightarrow> manager \<Rightarrow> (string \<times> go_error option) \<times> manager" where
  "rar_resume now rpcID pending m =
     (case terminalTransition now rpcID (pr_State pending) (pr_Payload pending) (drop_pending rpcID m) of
        (e, m1) \<Rightarrow> (('''', e), m1))"

text \<open>The whole call when no other goroutine runs between its sections; \<open>Save\<close> and \<open>Delete\<close> are the
  store's.\<close>

definition RespondAndRetain ::
  "(persistent_operation \<Rightarrow> 's \<Rightarrow> go_error option \<times> 's) \<Rightarrow> (string \<Rightarrow> 's \<Rightarrow> go_error option \<times> 's)
     \<Rightarrow> instant \<Rightarrow> string \<Rightarrow> string \<Rightarrow> bytes option \<Rightarrow> manager \<times> 's
     \<Rightarrow> (string \<times> go_error option) \<times> manager \<times> 's" where
  "RespondAndRetain save delete now operationID rpcID response st =
     (case st of (m, store) \<Rightarrow>
      case rar_begin rpcID m of
        (Inl e, m1) \<Rightarrow> (('''', Some e), m1, store)
      | (Inr tx, m1) \<Rightarrow>
          (case save (rar_operation now operationID rpcID tx (GetBootID m1)) store of
             (Some err, store1) \<Rightarrow>
               (case rar_save_failed now rpcID tx err m1 of (r, m2) \<Rightarrow> (r, m2, store1))
           | (None, store1) \<Rightarrow>
               (case rar_saved now rpcID operationID response m1 of
                  (RarReturn r, m2) \<Rightarrow> (r, m2, store1)
                | (RarRelease pending, m2) \<Rightarrow>
                    (case ReleaseOperationLock delete operationID (m2, store1) of
                       (errDelete, m3, store2) \<Rightarrow>
                         (case rar_resume now rpcID pending m3 of (r, m4) \<Rightarrow> (r, m4, store2))))))"

section \<open>Recovery at start-up and the orphan sweeper\<close>

definition stale_boot :: "string \<Rightarrow> persistent_operation \<Rightarrow> bool" where
  "stale_boot currentBootID op \<longleftrightarrow>
     currentBootID \<noteq> '''' \<and> po_BootID op \<noteq> '''' \<and> po_BootID op \<noteq> currentBootID"

text \<open>A missing or malformed time stamp counts as expired.\<close>

definition op_expired :: "instant \<Rightarrow> duration \<Rightarrow> persistent_operation \<Rightarrow> bool" where
  "op_expired now ttl op =
     (case ParseRFC3339 (po_UpdatedAt op) of None \<Rightarrow> True | Some updatedAt \<Rightarrow> time_Sub now updatedAt > ttl)"

fun start_loop ::
  "instant \<Rightarrow> persistent_operation list \<Rightarrow> string list \<Rightarrow> manager \<Rightarrow> string list \<times> manager" where
  "start_loop now [] staleBootOps m = (staleBootOps, m)"
| "start_loop now (op # ops) staleBootOps m =
     (if stale_boot (mg_bootID m) op then start_loop now ops (staleBootOps @ [po_OperationID op]) m
      else if mg_activeStateTx m = '''' \<and> \<not> op_expired now (mg_sweeperTTL m) op then
        (case mutex_TryLock (mg_stateLock m) of
           (l, True) \<Rightarrow>
             start_loop now ops staleBootOps
               (m\<lparr>mg_stateLock := l, mg_activeStateTx := po_OperationID op,
                  mg_activeStateOwner := LockOwnedByOperation\<rparr>)
         | (l, False) \<Rightarrow> start_loop now ops staleBootOps (m\<lparr>mg_stateLock := l\<rparr>))
      else start_loop now ops staleBootOps m)"

text \<open>The synchronous part of \<open>Start\<close>; the goroutines it launches are the cache sweeper and the
  repeated \<open>sweepOrphanedOperations\<close>.\<close>

definition Start ::
  "(int \<Rightarrow> 's \<Rightarrow> persistent_operation list result \<times> 's) \<Rightarrow> (string \<Rightarrow> 's \<Rightarrow> go_error option \<times> 's)
     \<Rightarrow> instant \<Rightarrow> manager \<times> 's \<Rightarrow> manager \<times> 's" where
  "Start get_active delete now st =
     (case st of (m, store) \<Rightarrow>
      case get_active (mg_activeRecordLimit m) store of
        (Inl e, store1) \<Rightarrow> (m, store1)
      | (Inr ops, store1) \<Rightarrow>
          (case start_loop now ops [] m of (stale, m1) \<Rightarrow>
             (m1, fold (\<lambda>staleID s. snd (delete staleID s)) stale store1)))"

text \<open>What the sweeper does with one record, given its two reads of the manager's state.\<close>

datatype sweep_action = SwDelete | SwRelease | SwLeave

definition sweep_decision :: "instant \<Rightarrow> string \<Rightarrow> persistent_operation \<Rightarrow> manager \<Rightarrow> sweep_action" where
  "sweep_decision now currentBootID op m =
     (if stale_boot currentBootID op then SwDelete
      else
        let isActive = (mg_activeStateTx m = po_OperationID op);
            isHandoff = (mg_activeStateOwner m = LockTransferPending)
        in if op_expired now (mg_sweeperTTL m) op then (if isActive then SwRelease else SwDelete)
           else if isHandoff then SwLeave
           else if \<not> isActive then SwDelete
           else SwLeave)"

definition sweep_one ::
  "(string \<Rightarrow> 's \<Rightarrow> go_error option \<times> 's) \<Rightarrow> instant \<Rightarrow> string \<Rightarrow> persistent_operation
     \<Rightarrow> manager \<times> 's \<Rightarrow> manager \<times> 's" where
  "sweep_one delete now currentBootID op st =
     (case st of (m, store) \<Rightarrow>
      case sweep_decision now currentBootID op m of
        SwDelete \<Rightarrow> (m, snd (delete (po_OperationID op) store))
      | SwRelease \<Rightarrow> snd (ReleaseOperationLock delete (po_OperationID op) (m, store))
      | SwLeave \<Rightarrow> (m, store))"

definition sweepOrphanedOperations ::
  "(int \<Rightarrow> 's \<Rightarrow> persistent_operation list result \<times> 's) \<Rightarrow> (string \<Rightarrow> 's \<Rightarrow> go_error option \<times> 's)
     \<Rightarrow> instant \<Rightarrow> manager \<times> 's \<Rightarrow> manager \<times> 's" where
  "sweepOrphanedOperations get_active delete now st =
     (case st of (m, store) \<Rightarrow>
      case get_active (mg_activeRecordLimit m) store of
        (Inl e, store1) \<Rightarrow> (m, store1)
      | (Inr ops, store1) \<Rightarrow> fold (sweep_one delete now (GetBootID m)) ops (m, store1))"

end
