(* ===== verification/Manager_Inv.thy ===== *)
theory Manager_Inv
  imports Manager
begin

text \<open>
  The invariant of the request manager's state and its preservation by every locked section of
  \<open>Manager\<close>: the tables agree with each other, the state lock is held exactly when somebody owns
  it, and every transaction that waits for a reply has a running response timer.
\<close>

section \<open>The invariant\<close>

definition tx_ok :: "manager \<Rightarrow> string \<Rightarrow> transaction \<Rightarrow> bool" where
  "tx_ok m rpcID tx \<longleftrightarrow> rpcID \<noteq> '''' \<and> tx_RPCID tx = rpcID \<and> \<not> is_terminal (tx_State tx)
     \<and> (tx_RespondToCloud tx \<longrightarrow> tx_RequestKey tx \<noteq> '''')
     \<and> (tx_RequestKey tx \<noteq> '''' \<longrightarrow> fmlookup (mg_activeCloudRequests m) (tx_RequestKey tx) = Some rpcID)"

text \<open>The tables: transactions are live and registered under their request key; every registered
  key and every buffered reply belongs to a live transaction; the capacity is respected.\<close>

definition table_inv :: "manager \<Rightarrow> bool" where
  "table_inv m \<longleftrightarrow>
     (\<forall>rpcID tx. live m rpcID = Some tx \<longrightarrow> tx_ok m rpcID tx)
     \<and> (\<forall>key rpcID. fmlookup (mg_activeCloudRequests m) key = Some rpcID \<longrightarrow>
          key \<noteq> '''' \<and> (\<exists>tx. live m rpcID = Some tx \<and> tx_RequestKey tx = key))
     \<and> (\<forall>rpcID p. fmlookup (mg_pendingReplies m) rpcID = Some p \<longrightarrow>
          live m rpcID \<noteq> None \<and> is_terminal (pr_State p))
     \<and> int (fcard (fmdom (txs m))) \<le> max 0 (mg_maxConcurrentRequests m)
     \<and> fmlookup (mg_cache m) '''' = None
     \<and> (\<forall>s. mg_scheduler m = Some s \<longrightarrow> sched_inv s)"

text \<open>The state lock and its owner. \<open>MFatal\<close>, the fatal unlock of an unlocked mutex, is excluded.\<close>

definition lock_inv :: "manager \<Rightarrow> bool" where
  "lock_inv m \<longleftrightarrow>
     (case mg_activeStateOwner m of
        LockNone \<Rightarrow> mg_stateLock m = MUnlocked \<and> mg_activeStateTx m = ''''
      | LockOwnedByRPC \<Rightarrow> mg_stateLock m = MLocked
          \<and> (\<exists>tx. live m (mg_activeStateTx m) = Some tx \<and> \<not> tx_HandoffInProgress tx)
      | LockTransferPending \<Rightarrow> mg_stateLock m = MLocked
          \<and> (\<exists>tx. live m (mg_activeStateTx m) = Some tx \<and> tx_HandoffInProgress tx)
      | LockOwnedByOperation \<Rightarrow> mg_stateLock m = MLocked
          \<and> mg_activeStateTx m \<noteq> '''' \<and> live m (mg_activeStateTx m) = None)"

text \<open>An in-flight transaction has a response deadline, and outside a handoff its timer is running;
  \<open>timer_inv_but\<close> exempts one transaction, whose fate is being decided.\<close>

definition timer_ok :: "transaction \<Rightarrow> bool" where
  "timer_ok tx \<longleftrightarrow> (tx_State tx = TxInFlight \<longrightarrow>
     (\<exists>t. tx_ResponseDeadline tx = Some t \<and> (\<not> tx_HandoffInProgress tx \<longrightarrow> tx_ResponseTimer tx = Some (Armed t))))"

definition timer_inv_but :: "string \<Rightarrow> manager \<Rightarrow> bool" where
  "timer_inv_but x m \<longleftrightarrow> (\<forall>rpcID tx. live m rpcID = Some tx \<longrightarrow> rpcID \<noteq> x \<longrightarrow> timer_ok tx)"

definition timer_inv :: "manager \<Rightarrow> bool" where
  "timer_inv m \<longleftrightarrow> (\<forall>rpcID tx. live m rpcID = Some tx \<longrightarrow> timer_ok tx)"

definition mgr_inv :: "manager \<Rightarrow> bool" where
  "mgr_inv m \<longleftrightarrow> table_inv m \<and> lock_inv m \<and> timer_inv m"

lemma mgr_invD:
  assumes "mgr_inv m"
  shows "table_inv m" "lock_inv m" "timer_inv m" "timer_inv_but x m"
  using assms by (auto simp: mgr_inv_def timer_inv_def timer_inv_but_def)

lemma table_inv_tx: "table_inv m \<Longrightarrow> live m r = Some tx \<Longrightarrow> tx_ok m r tx"
  by (simp add: table_inv_def)

lemma table_inv_pending:
  "table_inv m \<Longrightarrow> fmlookup (mg_pendingReplies m) r = Some p \<Longrightarrow> live m r \<noteq> None \<and> is_terminal (pr_State p)"
  unfolding table_inv_def by blast

lemma table_inv_key:
  "table_inv m \<Longrightarrow> fmlookup (mg_activeCloudRequests m) k = Some r \<Longrightarrow>
     k \<noteq> '''' \<and> (\<exists>tx. live m r = Some tx \<and> tx_RequestKey tx = k)"
  unfolding table_inv_def by blast

lemma table_inv_rest:
  assumes "table_inv m"
  shows "int (fcard (fmdom (txs m))) \<le> max 0 (mg_maxConcurrentRequests m)" "fmlookup (mg_cache m) '''' = None"
    "mg_scheduler m = Some s \<Longrightarrow> sched_inv s"
  using assms by (simp_all add: table_inv_def)

lemma table_invI:
  assumes "\<And>r tx. live m r = Some tx \<Longrightarrow> tx_ok m r tx"
    and "\<And>k r. fmlookup (mg_activeCloudRequests m) k = Some r \<Longrightarrow>
          k \<noteq> '''' \<and> (\<exists>tx. live m r = Some tx \<and> tx_RequestKey tx = k)"
    and "\<And>r p. fmlookup (mg_pendingReplies m) r = Some p \<Longrightarrow> live m r \<noteq> None \<and> is_terminal (pr_State p)"
    and "int (fcard (fmdom (txs m))) \<le> max 0 (mg_maxConcurrentRequests m)"
    and "fmlookup (mg_cache m) '''' = None" and "\<And>s. mg_scheduler m = Some s \<Longrightarrow> sched_inv s"
  shows "table_inv m"
  using assms unfolding table_inv_def by blast

text \<open>A state that differs only outside the tables.\<close>

lemma table_inv_cong:
  assumes "table_inv m" and "txs m' = txs m" and "mg_activeCloudRequests m' = mg_activeCloudRequests m"
    and "mg_pendingReplies m' = mg_pendingReplies m" and "mg_maxConcurrentRequests m' = mg_maxConcurrentRequests m"
    and "mg_cache m' = mg_cache m" and "mg_scheduler m' = mg_scheduler m"
  shows "table_inv m'"
  using assms(1) unfolding table_inv_def tx_ok_def assms(2-) .

lemma lock_inv_not_fatal: "lock_inv m \<Longrightarrow> mg_stateLock m \<noteq> MFatal"
  by (auto simp: lock_inv_def split: lock_owner.splits)

lemma lock_inv_held: "table_inv m \<Longrightarrow> lock_inv m \<Longrightarrow> mg_stateLock m = MLocked \<longleftrightarrow> mg_activeStateTx m \<noteq> ''''"
  by (auto simp: lock_inv_def tx_ok_def split: lock_owner.splits dest: table_inv_tx)

lemma lock_inv_owner:
  "lock_inv m \<Longrightarrow> table_inv m \<Longrightarrow> live m r = Some tx \<Longrightarrow> mg_activeStateTx m = r \<Longrightarrow>
     mg_stateLock m = MLocked \<and>
     mg_activeStateOwner m = (if tx_HandoffInProgress tx then LockTransferPending else LockOwnedByRPC)"
  by (auto simp: lock_inv_def tx_ok_def split: lock_owner.splits dest: table_inv_tx)

section \<open>What a terminal transition changes\<close>

definition accepts :: "manager \<Rightarrow> string \<Rightarrow> tx_state \<Rightarrow> bool" where
  "accepts m rpcID st \<longleftrightarrow> is_terminal st \<and>
     (case live m rpcID of None \<Rightarrow> False | Some tx \<Rightarrow> validateTransition (tx_State tx) st = None)"

lemma push_response_frame [simp]:
  "txs (push_response tx p m) = txs m"
  "mg_activeCloudRequests (push_response tx p m) = mg_activeCloudRequests m"
  "mg_pendingReplies (push_response tx p m) = mg_pendingReplies m"
  "mg_stateLock (push_response tx p m) = mg_stateLock m"
  "mg_activeStateTx (push_response tx p m) = mg_activeStateTx m"
  "mg_activeStateOwner (push_response tx p m) = mg_activeStateOwner m"
  "mg_releasingOperationID (push_response tx p m) = mg_releasingOperationID m"
  "mg_cache (push_response tx p m) = mg_cache m"
  "mg_cacheTTLConfig (push_response tx p m) = mg_cacheTTLConfig m"
  "mg_maxConcurrentRequests (push_response tx p m) = mg_maxConcurrentRequests m"
  "mg_sweeperTTL (push_response tx p m) = mg_sweeperTTL m"
  "mg_bootID (push_response tx p m) = mg_bootID m"
  by (auto simp: push_response_def split: option.splits sum.splits)

lemma push_response_sched:
  "(\<And>s. mg_scheduler m = Some s \<Longrightarrow> sched_inv s) \<Longrightarrow> mg_scheduler (push_response tx p m) = Some s \<Longrightarrow> sched_inv s"
  using prio.push_law by (fastforce simp: push_response_def split: option.splits sum.splits if_splits)

abbreviation tt :: "instant \<Rightarrow> string \<Rightarrow> tx_state \<Rightarrow> bytes option \<Rightarrow> manager \<Rightarrow> manager" where
  "tt now rpcID st p m \<equiv> snd (terminalTransition now rpcID st p m)"

lemma tt_rejected:
  "\<not> accepts m rpcID st \<Longrightarrow> \<exists>e. terminalTransition now rpcID st p m = (Some e, m)"
  by (auto simp: terminalTransition_def accepts_def split: option.splits)

lemma tt_result: "fst (terminalTransition now rpcID st p m) = None \<longleftrightarrow> accepts m rpcID st"
  by (auto simp: terminalTransition_def accepts_def Let_def split: option.splits)

lemma tt_frame [simp]:
  "txs (tt now rpcID st p m) = (if accepts m rpcID st then fmdrop rpcID (txs m) else txs m)"
  "mg_pendingReplies (tt now rpcID st p m) =
     (if accepts m rpcID st then fmdrop rpcID (mg_pendingReplies m) else mg_pendingReplies m)"
  "mg_activeStateTx (tt now rpcID st p m) =
     (if accepts m rpcID st \<and> mg_activeStateTx m = rpcID then '''' else mg_activeStateTx m)"
  "mg_activeStateOwner (tt now rpcID st p m) =
     (if accepts m rpcID st \<and> mg_activeStateTx m = rpcID then LockNone else mg_activeStateOwner m)"
  "mg_stateLock (tt now rpcID st p m) =
     (if accepts m rpcID st \<and> mg_activeStateTx m = rpcID then mutex_Unlock (mg_stateLock m) else mg_stateLock m)"
  "mg_releasingOperationID (tt now rpcID st p m) = mg_releasingOperationID m"
  "mg_maxConcurrentRequests (tt now rpcID st p m) = mg_maxConcurrentRequests m"
  "mg_sweeperTTL (tt now rpcID st p m) = mg_sweeperTTL m"
  "mg_bootID (tt now rpcID st p m) = mg_bootID m"
  by (auto simp: terminalTransition_def accepts_def Let_def split: option.splits)

lemma tt_keys:
  "live m rpcID = Some tx \<Longrightarrow> mg_activeCloudRequests (tt now rpcID st p m) =
     (if accepts m rpcID st \<and> tx_RequestKey tx \<noteq> '''' then fmdrop (tx_RequestKey tx) (mg_activeCloudRequests m)
      else mg_activeCloudRequests m)"
  by (auto simp: terminalTransition_def accepts_def Let_def split: option.splits)

lemma tt_cache:
  "live m rpcID = Some tx \<Longrightarrow> mg_cache (tt now rpcID st p m) =
     (if accepts m rpcID st \<and> st = TxCompleted \<and> tx_RespondToCloud tx \<and> p \<noteq> None
      then cache_Set now (tx_RequestKey tx) (the p) (TTLForMethod (mg_cacheTTLConfig m) (tx_Method tx)) (mg_cache m)
      else mg_cache m)"
  by (auto simp: terminalTransition_def accepts_def Let_def split: option.splits)

lemma tt_sched:
  assumes "\<And>s. mg_scheduler m = Some s \<Longrightarrow> sched_inv s" and "mg_scheduler (tt now rpcID st p m) = Some s"
  shows "sched_inv s"
proof (cases "accepts m rpcID st")
  case False
  then show ?thesis using tt_rejected [OF False, of now p] assms by auto
next
  case True
  then obtain tx m' where "tt now rpcID st p m = push_response tx p m'" "mg_scheduler m' = mg_scheduler m"
    by (auto simp: terminalTransition_def accepts_def Let_def split: option.splits)
  with assms show ?thesis using push_response_sched [of m' tx p s] by simp
qed

section \<open>Preservation by the terminal transition\<close>

lemma accepts_live: "accepts m rpcID st \<Longrightarrow> \<exists>tx. live m rpcID = Some tx"
  by (auto simp: accepts_def split: option.splits)

lemma fmdrop_capacity:
  "int (fcard (fmdom m)) \<le> k \<Longrightarrow> int (fcard (fmdom (fmdrop x m))) \<le> k"
  using fmdrop_card_le [of x m] by linarith

lemma tt_table_inv:
  assumes "table_inv m"
  shows "table_inv (tt now rpcID st p m)"
proof (cases "accepts m rpcID st")
  case False
  then show ?thesis using tt_rejected [OF False, of now p] assms by auto
next
  case True
  then obtain tx where tx: "live m rpcID = Some tx" using accepts_live by blast
  let ?m = "tt now rpcID st p m"
  note keys = tt_keys [OF tx, of now st p]
  have k: "fmlookup (mg_activeCloudRequests ?m) key =
      (if key \<noteq> '''' \<and> key = tx_RequestKey tx then None else fmlookup (mg_activeCloudRequests m) key)" for key
    using True by (auto simp: keys)
  have ok: "tx_ok m rpcID tx" using assms tx by (rule table_inv_tx)
  have "tx_ok ?m r t" if "live ?m r = Some t" for r t
  proof -
    have r: "r \<noteq> rpcID" "live m r = Some t" using that True by (auto split: if_splits)
    then have "tx_ok m r t" using assms table_inv_tx by blast
    with r ok show ?thesis unfolding tx_ok_def k by auto
  qed
  moreover have "key \<noteq> '''' \<and> (\<exists>t. live ?m r = Some t \<and> tx_RequestKey t = key)"
    if "fmlookup (mg_activeCloudRequests ?m) key = Some r" for key r
  proof -
    have "fmlookup (mg_activeCloudRequests m) key = Some r" "key \<noteq> '''' \<longrightarrow> key \<noteq> tx_RequestKey tx"
      using that by (auto simp: k split: if_splits)
    moreover then obtain t where "key \<noteq> ''''" "live m r = Some t" "tx_RequestKey t = key"
      using table_inv_key [OF assms] by blast
    ultimately show ?thesis using tx True by auto
  qed
  moreover have "live ?m r \<noteq> None \<and> is_terminal (pr_State q)"
    if "fmlookup (mg_pendingReplies ?m) r = Some q" for r q
    using that True table_inv_pending [OF assms, of r q] by (auto split: if_splits)
  moreover have "int (fcard (fmdom (txs ?m))) \<le> max 0 (mg_maxConcurrentRequests ?m)"
    using assms True fmdrop_capacity [of "txs m" _ rpcID] by (simp add: table_inv_def)
  moreover have "fmlookup (mg_cache ?m) '''' = None"
    using assms ok unfolding tt_cache [OF tx] tx_ok_def table_inv_def cache_Set_def by auto
  moreover have "sched_inv s" if "mg_scheduler ?m = Some s" for s
    using tt_sched [OF _ that] assms by (auto simp: table_inv_def)
  ultimately show ?thesis unfolding table_inv_def by blast
qed

lemma tt_lock_inv:
  assumes "table_inv m" and "lock_inv m"
  shows "lock_inv (tt now rpcID st p m)"
proof (cases "accepts m rpcID st")
  case False
  then show ?thesis using tt_rejected [OF False, of now p] assms by auto
next
  case True
  then obtain tx where tx: "live m rpcID = Some tx" using accepts_live by blast
  show ?thesis
  proof (cases "mg_activeStateTx m = rpcID")
    case a: True
    then show ?thesis using lock_inv_owner [OF assms(2,1) tx a] True by (simp add: lock_inv_def)
  next
    case False
    then show ?thesis using assms(2) True by (auto simp: lock_inv_def split: lock_owner.splits)
  qed
qed

lemma tt_timer_inv:
  "accepts m rpcID st \<Longrightarrow> timer_inv_but rpcID m \<Longrightarrow> timer_inv (tt now rpcID st p m)"
  by (auto simp: timer_inv_but_def timer_inv_def split: if_splits)

lemma tt_mgr_inv:
  assumes "table_inv m" and "lock_inv m" and "timer_inv_but rpcID m"
    and "accepts m rpcID st \<or> timer_inv m"
  shows "mgr_inv (tt now rpcID st p m)"
proof -
  have "timer_inv (tt now rpcID st p m)"
    using assms(3,4) tt_timer_inv tt_rejected [of m rpcID st now p] by (cases "accepts m rpcID st") auto
  then show ?thesis using assms by (simp add: mgr_inv_def tt_table_inv tt_lock_inv)
qed

lemma tt_keeps: "mgr_inv m \<Longrightarrow> mgr_inv (tt now rpcID st p m)"
  using tt_mgr_inv [of m rpcID st now p] mgr_invD [of m] by blast

section \<open>Preservation by elementary updates\<close>

text \<open>Rewriting a live transaction without touching its identity.\<close>

definition same_identity :: "transaction \<Rightarrow> transaction \<Rightarrow> bool" where
  "same_identity tx tx' \<longleftrightarrow> tx_RPCID tx' = tx_RPCID tx \<and> tx_RequestKey tx' = tx_RequestKey tx
     \<and> tx_RespondToCloud tx' = tx_RespondToCloud tx \<and> \<not> is_terminal (tx_State tx')"

lemma set_tx_frame [simp]:
  "live (set_tx r tx m) x = (if x = r then Some tx else live m x)"
  "mg_activeCloudRequests (set_tx r tx m) = mg_activeCloudRequests m"
  "mg_pendingReplies (set_tx r tx m) = mg_pendingReplies m"
  "mg_stateLock (set_tx r tx m) = mg_stateLock m"
  "mg_activeStateTx (set_tx r tx m) = mg_activeStateTx m"
  "mg_activeStateOwner (set_tx r tx m) = mg_activeStateOwner m"
  "mg_releasingOperationID (set_tx r tx m) = mg_releasingOperationID m"
  "mg_cache (set_tx r tx m) = mg_cache m"
  "mg_scheduler (set_tx r tx m) = mg_scheduler m"
  "mg_maxConcurrentRequests (set_tx r tx m) = mg_maxConcurrentRequests m"
  "mg_sweeperTTL (set_tx r tx m) = mg_sweeperTTL m"
  "mg_bootID (set_tx r tx m) = mg_bootID m"
  "fmdom (txs (set_tx r tx m)) = finsert r (fmdom (txs m))"
  by (auto simp: set_tx_def)

lemma set_tx_table_inv:
  assumes "table_inv m" and "live m r = Some tx" and "same_identity tx tx'"
  shows "table_inv (set_tx r tx' m)"
proof -
  have dom: "finsert r (fmdom (txs m)) = fmdom (txs m)"
    using assms(2) by (simp add: fmdomI finsert_absorb)
  have ok: "tx_ok m r tx" by (rule table_inv_tx [OF assms(1,2)])
  show ?thesis
  proof (rule table_invI)
    show "tx_ok (set_tx r tx' m) x t" if "live (set_tx r tx' m) x = Some t" for x t
      using that ok assms(3) table_inv_tx [OF assms(1), of x t]
      by (auto simp: tx_ok_def same_identity_def split: if_splits)
    show "k \<noteq> '''' \<and> (\<exists>t. live (set_tx r tx' m) x = Some t \<and> tx_RequestKey t = k)"
      if "fmlookup (mg_activeCloudRequests (set_tx r tx' m)) k = Some x" for k x
      using table_inv_key [OF assms(1), of k x] that assms(2,3) by (auto simp: same_identity_def)
    show "live (set_tx r tx' m) x \<noteq> None \<and> is_terminal (pr_State p)"
      if "fmlookup (mg_pendingReplies (set_tx r tx' m)) x = Some p" for x p
      using table_inv_pending [OF assms(1), of x p] that by simp
  qed (use table_inv_rest [OF assms(1)] dom in simp_all)
qed

lemma set_tx_lock_inv:
  assumes "lock_inv m" and "live m r = Some tx" and "tx_HandoffInProgress tx' = tx_HandoffInProgress tx"
  shows "lock_inv (set_tx r tx' m)"
  using assms by (auto simp: lock_inv_def split: lock_owner.splits)

lemma set_tx_timer_but: "timer_inv m \<Longrightarrow> timer_inv_but r (set_tx r tx m)"
  by (auto simp: timer_inv_def timer_inv_but_def)

lemma set_tx_timer: "timer_inv m \<Longrightarrow> timer_ok tx \<Longrightarrow> timer_inv (set_tx r tx m)"
  by (auto simp: timer_inv_def)

lemma pending_frame [simp]:
  "txs (drop_pending r m) = txs m" "txs (add_pending r p m) = txs m"
  "mg_activeCloudRequests (drop_pending r m) = mg_activeCloudRequests m"
  "mg_activeStateTx (drop_pending r m) = mg_activeStateTx m" "mg_activeStateTx (add_pending r p m) = mg_activeStateTx m"
  "mg_activeStateOwner (drop_pending r m) = mg_activeStateOwner m"
  "mg_activeStateOwner (add_pending r p m) = mg_activeStateOwner m"
  "mg_stateLock (drop_pending r m) = mg_stateLock m" "mg_stateLock (add_pending r p m) = mg_stateLock m"
  "mg_pendingReplies (drop_pending r m) = fmdrop r (mg_pendingReplies m)"
  "mg_sweeperTTL (drop_pending r m) = mg_sweeperTTL m" "mg_sweeperTTL (add_pending r p m) = mg_sweeperTTL m"
  "mg_bootID (drop_pending r m) = mg_bootID m" "mg_bootID (add_pending r p m) = mg_bootID m"
  "mg_activeCloudRequests (add_pending r p m) = mg_activeCloudRequests m"
  "mg_pendingReplies (add_pending r p m) = fmupd r p (mg_pendingReplies m)"
  "mg_cache (drop_pending r m) = mg_cache m" "mg_cache (add_pending r p m) = mg_cache m"
  "mg_scheduler (drop_pending r m) = mg_scheduler m" "mg_scheduler (add_pending r p m) = mg_scheduler m"
  "mg_maxConcurrentRequests (drop_pending r m) = mg_maxConcurrentRequests m"
  "mg_maxConcurrentRequests (add_pending r p m) = mg_maxConcurrentRequests m"
  "tx_ok (drop_pending r m) = tx_ok m" "tx_ok (add_pending r p m) = tx_ok m"
  by (simp_all add: drop_pending_def add_pending_def tx_ok_def fun_eq_iff)

lemma drop_pending_inv:
  "table_inv m \<Longrightarrow> table_inv (drop_pending r m)" "lock_inv m \<Longrightarrow> lock_inv (drop_pending r m)"
  "timer_inv m \<Longrightarrow> timer_inv (drop_pending r m)"
proof -
  show "table_inv (drop_pending r m)" if "table_inv m"
    by (rule table_invI)
      (use table_inv_tx [OF that] table_inv_key [OF that] table_inv_pending [OF that] table_inv_rest [OF that]
       in \<open>auto split: if_splits\<close>)
qed (simp_all add: lock_inv_def timer_inv_def split: lock_owner.splits)

lemma drop_pending_keeps: "mgr_inv m \<Longrightarrow> mgr_inv (drop_pending r m)"
  by (simp add: mgr_inv_def drop_pending_inv)

lemma add_pending_keeps:
  assumes "mgr_inv m" and "live m r \<noteq> None" and "is_terminal (pr_State p)"
  shows "mgr_inv (add_pending r p m)"
proof -
  have "table_inv (add_pending r p m)"
    by (rule table_invI)
      (use table_inv_tx table_inv_key table_inv_pending table_inv_rest mgr_invD(1) [OF assms(1)] assms(2,3)
       in \<open>auto split: if_splits\<close>)
  then show ?thesis using assms(1) by (simp add: mgr_inv_def lock_inv_def timer_inv_def split: lock_owner.splits)
qed

lemma buffer_reply_keeps:
  assumes "mgr_inv m" and "live m r \<noteq> None" and "is_terminal (pr_State p)"
  shows "mgr_inv (snd (buffer_reply r p m))"
  using add_pending_keeps [OF assms] assms(1) by (simp add: buffer_reply_def)

text \<open>A state change along the lifecycle keeps a transaction's identity.\<close>

lemma same_identity_state:
  "\<not> is_terminal st \<Longrightarrow> same_identity tx (tx\<lparr>tx_State := st\<rparr>)"
  by (simp add: same_identity_def)

section \<open>Preservation by the operations\<close>

lemma mark_keeps:
  assumes "mgr_inv m" and "st \<noteq> TxInFlight" and "\<not> is_terminal st"
  shows "mgr_inv (snd (mark st r m))"
proof (cases "live m r")
  case None
  with assms(1) show ?thesis by (simp add: mark_def)
next
  case (Some tx)
  have "mgr_inv (set_tx r (tx\<lparr>tx_State := st\<rparr>) m)"
    using set_tx_table_inv [OF mgr_invD(1) [OF assms(1)] Some same_identity_state [OF assms(3)]]
      set_tx_lock_inv [OF mgr_invD(2) [OF assms(1)] Some, of "tx\<lparr>tx_State := st\<rparr>"]
      set_tx_timer [OF mgr_invD(3) [OF assms(1)], of "tx\<lparr>tx_State := st\<rparr>" r] assms(2)
    by (simp add: mgr_inv_def timer_ok_def)
  with assms(1) Some show ?thesis by (simp add: mark_def split: option.splits)
qed

lemma MarkPreparingDispatch_keeps: "mgr_inv m \<Longrightarrow> mgr_inv (snd (MarkPreparingDispatch r m))"
  and MarkPendingPublish_keeps: "mgr_inv m \<Longrightarrow> mgr_inv (snd (MarkPendingPublish r m))"
  by (simp_all add: MarkPreparingDispatch_def MarkPendingPublish_def mark_keeps is_terminal_def)

text \<open>Delivering a buffered reply to a transaction that was just promoted to in-flight.\<close>

lemma deliver_promoted:
  assumes inv: "mgr_inv m" and tx: "live m r = Some tx" and st: "is_terminal st"
    and m1: "m1 = m \<or> m1 = drop_pending r m"
  shows "mgr_inv (tt now r st p (set_tx r (tx\<lparr>tx_State := TxInFlight\<rparr>) m1))"
    and "mgr_inv (tt now r st p (drop_pending r (set_tx r (tx\<lparr>tx_State := TxInFlight\<rparr>) m)))"
proof -
  let ?tx = "tx\<lparr>tx_State := TxInFlight\<rparr>"
  have I: "table_inv (set_tx r ?tx n) \<and> lock_inv (set_tx r ?tx n) \<and> timer_inv_but r (set_tx r ?tx n)
      \<and> accepts (set_tx r ?tx n) r st" if "mgr_inv n" "live n r = Some tx" for n
    using that set_tx_table_inv [OF mgr_invD(1) [OF that(1)] that(2) same_identity_state [of TxInFlight]]
      set_tx_lock_inv [OF mgr_invD(2) [OF that(1)] that(2), of ?tx]
      set_tx_timer_but [OF mgr_invD(3) [OF that(1)]] st
    by (auto simp: is_terminal_def accepts_def validateTransition_None)
  have "mgr_inv m1" "live m1 r = Some tx" using m1 inv tx drop_pending_keeps by auto
  from I [OF this] show "mgr_inv (tt now r st p (set_tx r ?tx m1))"
    using tt_mgr_inv by blast
  have "drop_pending r (set_tx r ?tx m) = set_tx r ?tx (drop_pending r m)"
    by (simp add: drop_pending_def set_tx_def)
  moreover have "mgr_inv (drop_pending r m)" "live (drop_pending r m) r = Some tx"
    using inv tx drop_pending_keeps by auto
  ultimately show "mgr_inv (tt now r st p (drop_pending r (set_tx r ?tx m)))"
    using I tt_mgr_inv by metis
qed

lemma MarkInFlight_keeps:
  assumes "mgr_inv m"
  shows "mgr_inv (snd (MarkInFlight now r m))"
proof (cases "live m r")
  case None
  with assms show ?thesis by (simp add: MarkInFlight_def)
next
  case (Some tx)
  let ?tx = "tx\<lparr>tx_State := TxInFlight, tx_DispatchTimer := stop_timer (tx_DispatchTimer tx),
      tx_ResponseDeadline := Some (now + tx_TimeoutDuration tx),
      tx_ResponseTimer := Some (Armed (now + tx_TimeoutDuration tx))\<rparr>"
  have "mgr_inv (set_tx r ?tx m)"
    using set_tx_table_inv [OF mgr_invD(1) [OF assms] Some, of ?tx]
      set_tx_lock_inv [OF mgr_invD(2) [OF assms] Some, of ?tx]
      set_tx_timer [OF mgr_invD(3) [OF assms], of ?tx r]
    by (simp add: mgr_inv_def timer_ok_def same_identity_def is_terminal_def)
  moreover have "set_tx r ?tx (set_tx r (tx\<lparr>tx_State := TxInFlight\<rparr>) m) = set_tx r ?tx m"
    by (simp add: set_tx_def)
  moreover have "is_terminal (pr_State p)" if "fmlookup (mg_pendingReplies m) r = Some p" for p
    using table_inv_pending [OF mgr_invD(1) [OF assms] that] by simp
  moreover from this have "mgr_inv (tt now r (pr_State p) (pr_Payload p)
      (drop_pending r (set_tx r (tx\<lparr>tx_State := TxInFlight\<rparr>) m)))"
    if "fmlookup (mg_pendingReplies m) r = Some p" for p
    using deliver_promoted(2) [OF assms Some] that by blast
  ultimately show ?thesis
    using assms Some by (simp add: MarkInFlight_def Let_def split: option.splits)
qed

lemma Complete_keeps: "mgr_inv m \<Longrightarrow> mgr_inv (snd (Complete now r p m))"
  using buffer_reply_keeps [of m r "\<lparr>pr_Payload = p, pr_State = TxCompleted\<rparr>"] tt_keeps [of m now r TxCompleted p]
  by (auto simp: Complete_def is_terminal_def split: option.splits)

lemma fail_or_timeout_keeps:
  assumes inv: "mgr_inv m" and tx: "live m r = Some tx" and st: "is_terminal st"
  shows "mgr_inv (snd (fail_or_timeout now r st p tx m))"
proof (cases "tx_HandoffInProgress tx")
  case True
  then show ?thesis using buffer_reply_keeps [OF inv, of r "\<lparr>pr_Payload = p, pr_State = st\<rparr>"] tx st
    by (simp add: fail_or_timeout_def)
next
  case False
  have "is_terminal (pr_State q)" if "fmlookup (mg_pendingReplies m) r = Some q" for q
    using table_inv_pending [OF mgr_invD(1) [OF inv] that] by simp
  then show ?thesis
    using False tt_keeps [OF inv, of now r st p] tt_keeps [OF drop_pending_keeps [OF inv], of now r st p]
      deliver_promoted(1) [OF inv tx, of _ "drop_pending r m"]
    by (auto simp: fail_or_timeout_def recoverToInFlight_def Let_def split: option.splits)
qed

lemma Fail_keeps: "mgr_inv m \<Longrightarrow> mgr_inv (snd (Fail now r p m))"
  and Timeout_keeps: "mgr_inv m \<Longrightarrow> mgr_inv (snd (Timeout now r m))"
  by (auto simp: Fail_def Timeout_def is_terminal_def fail_or_timeout_keeps split: option.splits)

lemma dispatchTimeoutFail_keeps:
  assumes "mgr_inv m"
  shows "mgr_inv (dispatchTimeoutFail now r m)"
proof (cases "live m r")
  case None
  with assms show ?thesis by (simp add: dispatchTimeoutFail_def)
next
  case (Some tx)
  have "is_terminal (pr_State q)" if "fmlookup (mg_pendingReplies m) r = Some q" for q
    using table_inv_pending [OF mgr_invD(1) [OF assms] that] by simp
  then show ?thesis
    using assms Some tt_keeps [OF assms, of now r TxFailed None]
      tt_keeps [OF drop_pending_keeps [OF assms], of now r TxFailed None]
      deliver_promoted(1) [OF assms Some, of _ "drop_pending r m"]
    by (auto simp: dispatchTimeoutFail_def recoverToInFlight_def Let_def split: option.splits)
qed

subsection \<open>Creating transactions\<close>

text \<open>An identifier that \<open>uuid.New\<close> may return: not empty and not in use.\<close>

definition fresh_id :: "manager \<Rightarrow> string \<Rightarrow> bool" where
  "fresh_id m x \<longleftrightarrow> x \<noteq> '''' \<and> live m x = None \<and> mg_activeStateTx m \<noteq> x"

definition register :: "string \<Rightarrow> transaction \<Rightarrow> manager \<Rightarrow> manager" where
  "register rpcID tx m = set_tx rpcID tx
     (if tx_RequestKey tx \<noteq> ''''
      then m\<lparr>mg_activeCloudRequests := fmupd (tx_RequestKey tx) rpcID (mg_activeCloudRequests m)\<rparr> else m)"

lemma register_frame [simp]:
  "live (register r tx m) x = (if x = r then Some tx else live m x)"
  "fmlookup (mg_activeCloudRequests (register r tx m)) k =
     (if k \<noteq> '''' \<and> k = tx_RequestKey tx then Some r else fmlookup (mg_activeCloudRequests m) k)"
  "mg_pendingReplies (register r tx m) = mg_pendingReplies m"
  "mg_stateLock (register r tx m) = mg_stateLock m"
  "mg_activeStateTx (register r tx m) = mg_activeStateTx m"
  "mg_activeStateOwner (register r tx m) = mg_activeStateOwner m"
  "mg_releasingOperationID (register r tx m) = mg_releasingOperationID m"
  "mg_cache (register r tx m) = mg_cache m"
  "mg_scheduler (register r tx m) = mg_scheduler m"
  "mg_maxConcurrentRequests (register r tx m) = mg_maxConcurrentRequests m"
  "fmdom (txs (register r tx m)) = finsert r (fmdom (txs m))"
  by (auto simp: register_def)

lemma register_table_inv:
  assumes inv: "table_inv m" and fresh: "r \<noteq> ''''" "live m r = None"
    and tx: "tx_RPCID tx = r" "\<not> is_terminal (tx_State tx)" "tx_RespondToCloud tx \<longrightarrow> tx_RequestKey tx \<noteq> ''''"
    and key: "fmlookup (mg_activeCloudRequests m) (tx_RequestKey tx) = None"
    and room: "int (fcard (fmdom (txs m))) < mg_maxConcurrentRequests m"
  shows "table_inv (register r tx m)"
proof (rule table_invI)
  show "tx_ok (register r tx m) x t" if "live (register r tx m) x = Some t" for x t
  proof (cases "x = r")
    case True
    with that tx fresh show ?thesis by (auto simp: tx_ok_def)
  next
    case False
    with that have "tx_ok m x t" using table_inv_tx [OF inv] by simp
    with key False show ?thesis by (auto simp: tx_ok_def)
  qed
  show "k \<noteq> '''' \<and> (\<exists>t. live (register r tx m) x = Some t \<and> tx_RequestKey t = k)"
    if "fmlookup (mg_activeCloudRequests (register r tx m)) k = Some x" for k x
    using that table_inv_key [OF inv, of k x] fresh by (auto split: if_splits)
  show "live (register r tx m) x \<noteq> None \<and> is_terminal (pr_State p)"
    if "fmlookup (mg_pendingReplies (register r tx m)) x = Some p" for x p
    using that table_inv_pending [OF inv, of x p] by simp
  show "int (fcard (fmdom (txs (register r tx m)))) \<le> max 0 (mg_maxConcurrentRequests (register r tx m))"
    using room by (simp add: fcard_finsert_if)
qed (use table_inv_rest [OF inv] in simp_all)

text \<open>An admitted request: the guards that held and the state it leads to.\<close>

lemma CreateTransaction_admitted:
  assumes "CreateTransaction now r sess cid respond method timeout sc m = (Inr tx, m')"
  shows "\<exists>key. CanonicalRequestKey sess cid = Inr key \<and> cache_Get now key (mg_cache m) = None
     \<and> fmlookup (mg_activeCloudRequests m) key = None
     \<and> int (fcard (fmdom (txs m))) < mg_maxConcurrentRequests m
     \<and> tx = new_tx now r sess cid key respond method timeout (mg_dispatchTimeout m)
     \<and> (respond \<longrightarrow> key \<noteq> '''') \<and> (method = ''upgrade'' \<longrightarrow> sc)
     \<and> (if sc then key \<noteq> '''' \<and> mg_stateLock m = MUnlocked
          \<and> m' = register r tx (m\<lparr>mg_stateLock := MLocked, mg_activeStateTx := r, mg_activeStateOwner := LockOwnedByRPC\<rparr>)
        else m' = register r tx m)"
proof -
  obtain key where key: "CanonicalRequestKey sess cid = Inr key"
    using assms by (auto simp: CreateTransaction_def Let_def split: sum.splits if_splits)
  note empty = CanonicalRequestKey_empty [OF key]
  have reg: "set_tx r (new_tx now r sess cid key respond method timeout d)
       (if key \<noteq> '''' then n\<lparr>mg_activeCloudRequests := fmupd key r (mg_activeCloudRequests n)\<rparr> else n) =
      register r (new_tx now r sess cid key respond method timeout d) n" for n d
    by (simp add: register_def new_tx_def)
  have lock: "mutex_TryLock l = (l', True) \<longleftrightarrow> l = MUnlocked \<and> l' = MLocked" for l l'
    by (cases l) auto
  from assms key empty reg [symmetric] show ?thesis
    by (cases sc) (auto simp: CreateTransaction_def Let_def lock
        split: if_splits option.splits prod.splits bool.splits)
qed

lemma CreateTransaction_refused:
  "CreateTransaction now r sess cid respond method timeout sc m = (Inl e, m') \<Longrightarrow> m' = m"
  by (cases "mg_stateLock m")
    (auto simp: CreateTransaction_def Let_def split: sum.splits if_splits option.splits)

lemma CreateTransaction_keeps:
  assumes inv: "mgr_inv m" and fresh: "fresh_id m r"
  shows "mgr_inv (snd (CreateTransaction now r sess cid respond method timeout sc m))"
proof (cases "CreateTransaction now r sess cid respond method timeout sc m")
  case (Pair res m')
  show ?thesis
  proof (cases res)
    case (Inl e)
    with Pair CreateTransaction_refused inv show ?thesis by fastforce
  next
    case (Inr tx)
    from CreateTransaction_admitted [OF Pair [unfolded Inr]] obtain key where
      key: "fmlookup (mg_activeCloudRequests m) key = None" "int (fcard (fmdom (txs m))) < mg_maxConcurrentRequests m"
        "tx = new_tx now r sess cid key respond method timeout (mg_dispatchTimeout m)" "respond \<longrightarrow> key \<noteq> ''''"
      and m': "m' = register r tx (if sc then m\<lparr>mg_stateLock := MLocked, mg_activeStateTx := r,
           mg_activeStateOwner := LockOwnedByRPC\<rparr> else m)"
      by (auto split: if_splits)
    have tx: "tx_RPCID tx = r" "\<not> is_terminal (tx_State tx)" "tx_RespondToCloud tx \<longrightarrow> tx_RequestKey tx \<noteq> ''''"
        "tx_RequestKey tx = key" "timer_ok tx" "\<not> tx_HandoffInProgress tx"
      using key by (simp_all add: new_tx_def is_terminal_def timer_ok_def)
    let ?m = "if sc then m\<lparr>mg_stateLock := MLocked, mg_activeStateTx := r,
           mg_activeStateOwner := LockOwnedByRPC\<rparr> else m"
    have "table_inv ?m"
      by (rule table_inv_cong [OF mgr_invD(1) [OF inv]]) simp_all
    then have "table_inv m'"
      unfolding m' using fresh tx key by (intro register_table_inv) (auto simp: fresh_id_def)
    moreover have "lock_inv m'"
      using mgr_invD(2) [OF inv] fresh tx unfolding m'
      by (auto simp: lock_inv_def fresh_id_def split: lock_owner.splits)
    moreover have "timer_inv m'"
      using mgr_invD(3) [OF inv] tx unfolding m' by (auto simp: timer_inv_def split: if_splits)
    ultimately show ?thesis using Pair by (simp add: mgr_inv_def)
  qed
qed

subsection \<open>Releasing an operation\<close>

lemma rel_begin_cases:
  "(\<exists>e. rel_begin x m = (Some e, m)) \<or>
   (x \<noteq> '''' \<and> mg_activeStateTx m = x \<and> mg_activeStateOwner m = LockOwnedByOperation
      \<and> rel_begin x m = (None, m\<lparr>mg_releasingOperationID := x, mg_activeStateTx := '''',
            mg_activeStateOwner := LockNone, mg_stateLock := mutex_Unlock (mg_stateLock m)\<rparr>))"
  by (auto simp: rel_begin_def)

lemma rel_begin_keeps:
  assumes "mgr_inv m"
  shows "mgr_inv (snd (rel_begin x m))"
  using rel_begin_cases [of x m]
proof
  assume r: "x \<noteq> '''' \<and> mg_activeStateTx m = x \<and> mg_activeStateOwner m = LockOwnedByOperation
      \<and> rel_begin x m = (None, m\<lparr>mg_releasingOperationID := x, mg_activeStateTx := '''',
            mg_activeStateOwner := LockNone, mg_stateLock := mutex_Unlock (mg_stateLock m)\<rparr>)"
  let ?m = "m\<lparr>mg_releasingOperationID := x, mg_activeStateTx := '''',
            mg_activeStateOwner := LockNone, mg_stateLock := mutex_Unlock (mg_stateLock m)\<rparr>"
  have "table_inv ?m" by (rule table_inv_cong [OF mgr_invD(1) [OF assms]]) simp_all
  moreover have "lock_inv ?m" using mgr_invD(2) [OF assms] r by (simp add: lock_inv_def)
  moreover have "timer_inv ?m" using mgr_invD(3) [OF assms] by (simp add: timer_inv_def)
  ultimately show ?thesis using r by (simp add: mgr_inv_def)
qed (use assms in auto)

lemma rel_finish_keeps:
  assumes "mgr_inv m"
  shows "mgr_inv (rel_finish x m)"
proof -
  have "table_inv (rel_finish x m)"
    by (rule table_inv_cong [OF mgr_invD(1) [OF assms]]) (simp_all add: rel_finish_def)
  moreover have "lock_inv (rel_finish x m)" "timer_inv (rel_finish x m)"
    using mgr_invD(2,3) [OF assms] by (simp_all add: rel_finish_def lock_inv_def timer_inv_def split: lock_owner.splits)
  ultimately show ?thesis by (simp add: mgr_inv_def)
qed

subsection \<open>The handoff\<close>

lemma rar_begin_cases:
  "(\<exists>e. rar_begin r m = (Inl e, m)) \<or>
   (\<exists>tx tx1. live m r = Some tx \<and> tx_Method tx = ''upgrade'' \<and> tx_State tx \<in> {TxInFlight, TxPendingPublish}
      \<and> mg_activeStateTx m = r \<and> \<not> tx_HandoffInProgress tx
      \<and> tx1 = tx\<lparr>tx_ResponseTimer := stop_timer (tx_ResponseTimer tx), tx_HandoffInProgress := True\<rparr>
      \<and> rar_begin r m = (Inr tx1, (set_tx r tx1 m)\<lparr>mg_activeStateOwner := LockTransferPending\<rparr>))"
  by (auto simp: rar_begin_def Let_def split: option.splits)

lemma rar_begin_keeps:
  assumes "mgr_inv m"
  shows "mgr_inv (snd (rar_begin r m))"
  using rar_begin_cases [of r m]
proof
  assume "\<exists>tx tx1. live m r = Some tx \<and> tx_Method tx = ''upgrade'' \<and> tx_State tx \<in> {TxInFlight, TxPendingPublish}
      \<and> mg_activeStateTx m = r \<and> \<not> tx_HandoffInProgress tx
      \<and> tx1 = tx\<lparr>tx_ResponseTimer := stop_timer (tx_ResponseTimer tx), tx_HandoffInProgress := True\<rparr>
      \<and> rar_begin r m = (Inr tx1, (set_tx r tx1 m)\<lparr>mg_activeStateOwner := LockTransferPending\<rparr>)"
  then obtain tx tx1 where tx: "live m r = Some tx" "tx_State tx \<in> {TxInFlight, TxPendingPublish}"
      "mg_activeStateTx m = r"
    and tx1: "tx1 = tx\<lparr>tx_ResponseTimer := stop_timer (tx_ResponseTimer tx), tx_HandoffInProgress := True\<rparr>"
    and res: "rar_begin r m = (Inr tx1, (set_tx r tx1 m)\<lparr>mg_activeStateOwner := LockTransferPending\<rparr>)"
    by blast
  let ?m = "(set_tx r tx1 m)\<lparr>mg_activeStateOwner := LockTransferPending\<rparr>"
  have "same_identity tx tx1" using tx(2) by (auto simp: tx1 same_identity_def is_terminal_def)
  then have "table_inv (set_tx r tx1 m)" by (rule set_tx_table_inv [OF mgr_invD(1) [OF assms] tx(1)])
  then have "table_inv ?m" by (rule table_inv_cong) simp_all
  moreover have "lock_inv ?m"
    using lock_inv_owner [OF mgr_invD(2,1) [OF assms] tx(1,3)] tx(3) tx1
    by (simp add: lock_inv_def)
  moreover have "timer_inv ?m"
  proof -
    have "timer_ok tx" using mgr_invD(3) [OF assms] tx(1) by (simp add: timer_inv_def)
    then have "timer_ok tx1" by (auto simp: timer_ok_def tx1)
    with mgr_invD(3) [OF assms] show ?thesis by (simp add: timer_inv_def)
  qed
  ultimately show ?thesis using res by (simp add: mgr_inv_def)
qed (use assms in auto)

text \<open>A failed save: the handoff mark is taken back, and the timer restarted or the transaction
  ended.\<close>

lemma upd_if_live_frame [simp]:
  "live (upd_if_live r f m) x = (if x = r then map_option f (live m r) else live m x)"
  "mg_pendingReplies (upd_if_live r f m) = mg_pendingReplies m"
  "mg_stateLock (upd_if_live r f m) = mg_stateLock m"
  "mg_activeStateTx (upd_if_live r f m) = mg_activeStateTx m"
  "mg_activeStateOwner (upd_if_live r f m) = mg_activeStateOwner m"
  by (auto simp: upd_if_live_def split: option.splits)

lemma upd_if_live_table_inv:
  assumes "table_inv m" and "\<And>tx. live m r = Some tx \<Longrightarrow> same_identity tx (f tx)"
  shows "table_inv (upd_if_live r f m)"
  using assms set_tx_table_inv [OF assms(1)] by (auto simp: upd_if_live_def split: option.splits)

definition rar_retract :: "string \<Rightarrow> manager \<Rightarrow> manager" where
  "rar_retract r m =
     (let m1 = upd_if_live r (\<lambda>tx. tx\<lparr>tx_HandoffInProgress := False\<rparr>) m
      in if mg_activeStateTx m1 = r then m1\<lparr>mg_activeStateOwner := LockOwnedByRPC\<rparr> else m1)"

lemma rar_retract_frame [simp]:
  "live (rar_retract r m) x = (if x = r then map_option (tx_HandoffInProgress_update (\<lambda>_. False)) (live m r) else live m x)"
  "mg_pendingReplies (rar_retract r m) = mg_pendingReplies m"
  "mg_activeStateTx (rar_retract r m) = mg_activeStateTx m"
  by (simp_all add: rar_retract_def Let_def)

lemma rar_retract_inv:
  assumes inv: "mgr_inv m" and r: "mg_activeStateTx m = r \<longrightarrow> live m r \<noteq> None"
  shows "table_inv (rar_retract r m)" "lock_inv (rar_retract r m)" "timer_inv_but r (rar_retract r m)"
proof -
  have "tx_ok m r tx" if "live m r = Some tx" for tx using table_inv_tx [OF mgr_invD(1) [OF inv] that] .
  then have "table_inv (upd_if_live r (\<lambda>tx. tx\<lparr>tx_HandoffInProgress := False\<rparr>) m)"
    by (intro upd_if_live_table_inv [OF mgr_invD(1) [OF inv]]) (auto simp: same_identity_def tx_ok_def)
  then show "table_inv (rar_retract r m)"
    unfolding rar_retract_def Let_def by (rule table_inv_cong) simp_all
  show "lock_inv (rar_retract r m)"
  proof (cases "mg_activeStateTx m = r")
    case True
    with r obtain tx where tx: "live m r = Some tx" by auto
    from lock_inv_owner [OF mgr_invD(2,1) [OF inv] tx True] True tx show ?thesis
      by (simp add: rar_retract_def Let_def lock_inv_def)
  next
    case False
    with mgr_invD(2) [OF inv] show ?thesis
      by (auto simp: rar_retract_def Let_def lock_inv_def split: lock_owner.splits)
  qed
  show "timer_inv_but r (rar_retract r m)"
    using mgr_invD(3) [OF inv] by (auto simp: timer_inv_but_def timer_inv_def)
qed

text \<open>Re-arming the timer at the response deadline restores the timer invariant.\<close>

lemma rearm_inv:
  assumes "table_inv m" "lock_inv m" "timer_inv_but r m"
    and "\<And>tx. live m r = Some tx \<Longrightarrow> tx_ResponseDeadline tx \<noteq> None"
  shows "mgr_inv (upd_if_live r (\<lambda>tx. tx\<lparr>tx_ResponseTimer := Some (Armed (the (tx_ResponseDeadline tx)))\<rparr>) m)"
proof -
  let ?m = "upd_if_live r (\<lambda>tx. tx\<lparr>tx_ResponseTimer := Some (Armed (the (tx_ResponseDeadline tx)))\<rparr>) m"
  have "table_inv ?m"
    using table_inv_tx [OF assms(1)]
    by (intro upd_if_live_table_inv [OF assms(1)]) (auto simp: same_identity_def tx_ok_def)
  moreover have "lock_inv ?m"
    using assms(2) by (auto simp: lock_inv_def split: lock_owner.splits)
  moreover have "timer_inv ?m"
    using assms(3,4) by (auto simp: timer_inv_def timer_inv_but_def timer_ok_def split: if_splits)
  ultimately show ?thesis by (simp add: mgr_inv_def)
qed

lemma tt_decides:
  assumes "table_inv m" "lock_inv m" "timer_inv_but r m" and "is_terminal st"
  shows "mgr_inv (tt now r st p m)"
proof (rule tt_mgr_inv [OF assms(1-3)])
  show "accepts m r st \<or> timer_inv m"
  proof (cases "accepts m r st")
    case False
    have "timer_ok tx" if "live m r = Some tx" for tx
      using False that assms(4) by (auto simp: accepts_def timer_ok_def validateTransition_None is_terminal_def)
    with assms(3) show ?thesis unfolding timer_inv_def timer_inv_but_def by blast
  qed simp
qed

lemma drop_pending_timer_but: "timer_inv_but r m \<Longrightarrow> timer_inv_but r (drop_pending x m)"
  by (simp add: timer_inv_but_def)

lemma rar_save_failed_eq:
  "rar_save_failed now r tx0 err m =
     (case fmlookup (mg_pendingReplies m) r of
        Some p \<Rightarrow>
          (('''', fst (terminalTransition now r (pr_State p) (pr_Payload p) (drop_pending r (rar_retract r m)))),
           tt now r (pr_State p) (pr_Payload p) (drop_pending r (rar_retract r m)))
      | None \<Rightarrow>
          let tx = (case live (rar_retract r m) r of None \<Rightarrow> tx0 | Some tx \<Rightarrow> tx) in
          if (case tx_ResponseDeadline tx of None \<Rightarrow> True | Some dl \<Rightarrow> dl - now \<le> 0)
          then (('''', Some ErrAlreadyTerminal), tt now r TxTimedOut (buildTimeoutResponse tx) (rar_retract r m))
          else (('''', Some (EWrap ''failed to persist background operation'' err)),
                upd_if_live r (\<lambda>tx. tx\<lparr>tx_ResponseTimer := Some (Armed (the (tx_ResponseDeadline tx)))\<rparr>) (rar_retract r m)))"
proof -
  have "rar_save_failed now r tx0 err m =
     (let m2 = rar_retract r m
      in case fmlookup (mg_pendingReplies m2) r of
           Some pending \<Rightarrow>
             (case terminalTransition now r (pr_State pending) (pr_Payload pending) (drop_pending r m2) of
                (e, m3) \<Rightarrow> (('''', e), m3))
         | None \<Rightarrow>
             let tx = (case live m2 r of None \<Rightarrow> tx0 | Some tx \<Rightarrow> tx) in
             if (case tx_ResponseDeadline tx of None \<Rightarrow> True | Some dl \<Rightarrow> dl - now \<le> 0)
             then (('''', Some ErrAlreadyTerminal),
                   snd (terminalTransition now r TxTimedOut (buildTimeoutResponse tx) m2))
             else (('''', Some (EWrap ''failed to persist background operation'' err)),
                   upd_if_live r (\<lambda>tx. tx\<lparr>tx_ResponseTimer := Some (Armed (the (tx_ResponseDeadline tx)))\<rparr>) m2))"
    unfolding rar_save_failed_def rar_retract_def Let_def ..
  then show ?thesis
    by (simp only: Let_def rar_retract_frame) (simp split: option.splits prod.splits)
qed

lemma rar_save_failed_keeps:
  assumes inv: "mgr_inv m" and r: "mg_activeStateTx m = r \<longrightarrow> live m r \<noteq> None"
  shows "mgr_inv (snd (rar_save_failed now r tx0 err m))"
proof -
  let ?m = "rar_retract r m"
  note I = rar_retract_inv [OF inv r]
  show ?thesis
  proof (cases "fmlookup (mg_pendingReplies m) r")
    case (Some p)
    then have "is_terminal (pr_State p)" using table_inv_pending [OF mgr_invD(1) [OF inv]] by blast
    from tt_decides [OF drop_pending_inv(1) [OF I(1)] drop_pending_inv(2) [OF I(2)] drop_pending_timer_but [OF I(3)] this]
    have "mgr_inv (tt now r (pr_State p) (pr_Payload p) (drop_pending r ?m))" .
    with Some show ?thesis by (simp add: rar_save_failed_eq)
  next
    case None
    let ?tx = "case live ?m r of None \<Rightarrow> tx0 | Some tx \<Rightarrow> tx"
    have "mgr_inv (tt now r TxTimedOut q ?m)" for q
      using tt_decides [OF I] by (simp add: is_terminal_def)
    moreover have "mgr_inv (upd_if_live r (\<lambda>tx. tx\<lparr>tx_ResponseTimer := Some (Armed (the (tx_ResponseDeadline tx)))\<rparr>) ?m)"
      if "tx_ResponseDeadline ?tx \<noteq> None"
      using that rearm_inv [OF I] by fastforce
    ultimately show ?thesis
      using None unfolding rar_save_failed_eq Let_def
      by (cases "tx_ResponseDeadline ?tx") (simp_all del: rar_retract_frame)
  qed
qed

text \<open>A successful save: the lock goes to the operation, whose identifier is fresh.\<close>

definition rar_transfer :: "string \<Rightarrow> string \<Rightarrow> manager \<Rightarrow> manager" where
  "rar_transfer r x m =
     (if mg_activeStateTx m = r
      then m\<lparr>mg_activeStateTx := x, mg_activeStateOwner := LockOwnedByOperation\<rparr> else m)"

lemma rar_transfer_keeps:
  assumes inv: "mgr_inv m" and r: "mg_activeStateTx m = r \<longrightarrow> live m r \<noteq> None"
    and x: "x \<noteq> ''''" "live m x = None"
  shows "mgr_inv (rar_transfer r x m)"
proof -
  have "table_inv (rar_transfer r x m)"
    by (rule table_inv_cong [OF mgr_invD(1) [OF inv]]) (simp_all add: rar_transfer_def)
  moreover have "lock_inv (rar_transfer r x m)"
  proof (cases "mg_activeStateTx m = r")
    case True
    with r obtain tx where "live m r = Some tx" by auto
    with lock_inv_owner [OF mgr_invD(2,1) [OF inv] this True] True x show ?thesis
      by (simp add: rar_transfer_def lock_inv_def)
  qed (use mgr_invD(2) [OF inv] in \<open>simp add: rar_transfer_def\<close>)
  moreover have "timer_inv (rar_transfer r x m)"
    using mgr_invD(3) [OF inv] by (simp add: rar_transfer_def timer_inv_def)
  ultimately show ?thesis by (simp add: mgr_inv_def)
qed

lemma rar_saved_eq:
  "rar_saved now r x response m =
     (let m1 = rar_transfer r x m
      in case fmlookup (mg_pendingReplies m) r of
           Some p \<Rightarrow>
             if mg_activeStateTx m1 = x then (RarRelease p, m1)
             else (RarReturn ('''', fst (terminalTransition now r (pr_State p) (pr_Payload p) (drop_pending r m1))),
                   tt now r (pr_State p) (pr_Payload p) (drop_pending r m1))
         | None \<Rightarrow> (RarReturn (x, fst (terminalTransition now r TxCompleted response m1)),
                   tt now r TxCompleted response m1))"
  by (simp add: rar_saved_def rar_transfer_def Let_def split: option.splits prod.splits)

lemma rar_saved_keeps:
  assumes "mgr_inv m" and "mg_activeStateTx m = r \<longrightarrow> live m r \<noteq> None" and "x \<noteq> ''''" "live m x = None"
  shows "mgr_inv (snd (rar_saved now r x response m))"
  using rar_transfer_keeps [OF assms] tt_keeps drop_pending_keeps
  by (auto simp: rar_saved_eq Let_def split: option.splits)

lemma rar_resume_keeps: "mgr_inv m \<Longrightarrow> mgr_inv (snd (rar_resume now r p m))"
  using tt_keeps [OF drop_pending_keeps]
  by (auto simp: rar_resume_def split: prod.splits) (metis snd_conv)

subsection \<open>Start-up\<close>

lemma NewRequestManager_inv:
  assumes "NewRequestManager bf dt ttl c sch sp maxc sttl rl = Inr m"
    and "c \<noteq> None \<Longrightarrow> fmlookup (the c) '''' = None" and "\<And>s. sch = Some s \<Longrightarrow> sched_inv s"
  shows "mgr_inv m"
  using assms
  by (auto simp: NewRequestManager_def mgr_inv_def table_inv_def lock_inv_def timer_inv_def fcard.rep_eq split: option.splits if_splits)

lemma start_loop_keeps:
  assumes "mgr_inv m" and "\<And>op. op \<in> set ops \<Longrightarrow> po_OperationID op \<noteq> '''' \<and> live m (po_OperationID op) = None"
  shows "mgr_inv (snd (start_loop now ops st m))"
  using assms
proof (induction ops arbitrary: m st)
  case Nil
  then show ?case by simp
next
  case (Cons op ops)
  let ?m = "m\<lparr>mg_stateLock := MLocked, mg_activeStateTx := po_OperationID op,
              mg_activeStateOwner := LockOwnedByOperation\<rparr>"
  have "table_inv ?m" by (rule table_inv_cong [OF mgr_invD(1) [OF Cons.prems(1)]]) simp_all
  moreover have "lock_inv ?m" using Cons.prems(2) [of op] by (simp add: lock_inv_def)
  moreover have "timer_inv ?m" using mgr_invD(3) [OF Cons.prems(1)] by (simp add: timer_inv_def)
  ultimately have "mgr_inv ?m" by (simp add: mgr_inv_def)
  moreover have "mutex_TryLock l = (l', True) \<longleftrightarrow> l = MUnlocked \<and> l' = MLocked"
    "mutex_TryLock l = (l', False) \<longleftrightarrow> l \<noteq> MUnlocked \<and> l' = l" for l l'
    by (cases l; auto)+
  moreover have "m\<lparr>mg_stateLock := mg_stateLock m\<rparr> = m" by simp
  ultimately show ?case
    using Cons.prems Cons.IH [of m] Cons.IH [of ?m]
    by (auto split: prod.splits bool.splits)
qed

end
