(* ===== verification/Manager_Sys.thy ===== *)
theory Manager_Sys
  imports Manager_Inv
begin

text \<open>
  The request manager under concurrency. Goroutines call the manager at any time, and the calls
  that access the operation store outside the mutex interleave with everything else: every locked
  section and every store access is one step of a transition system. The store is the map from
  operation identifiers to visible records; a failing \<open>Save\<close> or \<open>Delete\<close> may or may not have taken
  effect.
\<close>

section \<open>The transition system\<close>

text \<open>The calls that are one locked section each.\<close>

datatype mgr_call =
    CallPreparing string
  | CallPendingPublish string
  | CallInFlight instant string
  | CallComplete instant string "bytes option"
  | CallFail instant string "bytes option"
  | CallTimeout instant string
  | CallDispatchTimeout instant string
  | CallSweepCache instant
  | CallNext
  | CallPush outbound_message

fun exec_call :: "mgr_call \<Rightarrow> manager \<Rightarrow> manager" where
  "exec_call (CallPreparing r) m = snd (MarkPreparingDispatch r m)"
| "exec_call (CallPendingPublish r) m = snd (MarkPendingPublish r m)"
| "exec_call (CallInFlight now r) m = snd (MarkInFlight now r m)"
| "exec_call (CallComplete now r p) m = snd (Complete now r p m)"
| "exec_call (CallFail now r p) m = snd (Fail now r p m)"
| "exec_call (CallTimeout now r) m = snd (Timeout now r m)"
| "exec_call (CallDispatchTimeout now r) m = dispatchTimeoutFail now r m"
| "exec_call (CallSweepCache now) m = m\<lparr>mg_cache := sweepCache now (mg_cache m)\<rparr>"
| "exec_call CallNext m = m\<lparr>mg_scheduler := map_option (\<lambda>s. snd (tryDequeue s)) (mg_scheduler m)\<rparr>"
| "exec_call (CallPush msg) m =
     m\<lparr>mg_scheduler := map_option (\<lambda>s. case sched_Push msg s of Inl e \<Rightarrow> s | Inr s' \<Rightarrow> s') (mg_scheduler m)\<rparr>"

text \<open>Where a goroutine stands inside a call that drops the mutex: \<open>RespondAndRetain\<close> before and after
  \<open>Save\<close>, before its release, and before it delivers the buffered reply; \<open>ReleaseOperationLock\<close>
  before and after \<open>Delete\<close> (with the reply to deliver, when \<open>RespondAndRetain\<close> called it); the
  sweeper with a record it has read, and with its decision.\<close>

datatype pc =
    PcIdle
  | PcSave string string "bytes option" transaction persistent_operation
  | PcSaved string string "bytes option" transaction "go_error option"
  | PcRelease string string pending_reply
  | PcDelete "(string \<times> pending_reply) option" string
  | PcDeleted "(string \<times> pending_reply) option" string
  | PcResume string pending_reply
  | PcSweep persistent_operation string
  | PcSweepRelease string
  | PcSweepDelete string

record sys =
  sy_mgr :: manager
  sy_disk :: "(string, persistent_operation) fmap"
  sy_pc :: "nat \<Rightarrow> pc"
  sy_rpcs :: "string set"
  sy_ops :: "string set"
  sy_expired :: "string set"

text \<open>\<open>sy_rpcs\<close> and \<open>sy_ops\<close> are the identifiers ever used for transactions and for operations,
  \<open>sy_expired\<close> the operations a sweep has found past their time to live; they only serve to state
  freshness and the theorems.\<close>

fun after_delete :: "(string \<times> pending_reply) option \<Rightarrow> pc" where
  "after_delete None = PcIdle"
| "after_delete (Some (r, p)) = PcResume r p"

inductive sys_step :: "sys \<Rightarrow> sys \<Rightarrow> bool" where
  call: "sys_step s (s\<lparr>sy_mgr := exec_call c (sy_mgr s)\<rparr>)"
| create: "r \<noteq> '''' \<Longrightarrow> r \<notin> sy_rpcs s \<union> sy_ops s \<Longrightarrow>
     sys_step s (s\<lparr>sy_mgr := snd (CreateTransaction now r sess cid respond meth tmo sc (sy_mgr s)),
                   sy_rpcs := insert r (sy_rpcs s)\<rparr>)"
| retain: "x \<noteq> '''' \<Longrightarrow> x \<notin> sy_rpcs s \<union> sy_ops s \<Longrightarrow> sy_pc s i = PcIdle \<Longrightarrow>
     rar_begin r (sy_mgr s) = (Inr tx, m') \<Longrightarrow>
     sys_step s (s\<lparr>sy_mgr := m', sy_ops := insert x (sy_ops s),
       sy_pc := (sy_pc s)(i := PcSave r x resp tx (rar_operation now x r tx (GetBootID m')))\<rparr>)"
| save_ok: "sy_pc s i = PcSave r x resp tx op \<Longrightarrow>
     sys_step s (s\<lparr>sy_disk := fmupd x op (sy_disk s), sy_pc := (sy_pc s)(i := PcSaved r x resp tx None)\<rparr>)"
| save_err: "sy_pc s i = PcSave r x resp tx op \<Longrightarrow> d \<in> {sy_disk s, fmupd x op (sy_disk s)} \<Longrightarrow>
     sys_step s (s\<lparr>sy_disk := d, sy_pc := (sy_pc s)(i := PcSaved r x resp tx (Some e))\<rparr>)"
| save_failed: "sy_pc s i = PcSaved r x resp tx (Some e) \<Longrightarrow>
     sys_step s (s\<lparr>sy_mgr := snd (rar_save_failed now r tx e (sy_mgr s)), sy_pc := (sy_pc s)(i := PcIdle)\<rparr>)"
| saved_return: "sy_pc s i = PcSaved r x resp tx None \<Longrightarrow>
     rar_saved now r x resp (sy_mgr s) = (RarReturn res, m') \<Longrightarrow>
     sys_step s (s\<lparr>sy_mgr := m', sy_pc := (sy_pc s)(i := PcIdle)\<rparr>)"
| saved_release: "sy_pc s i = PcSaved r x resp tx None \<Longrightarrow>
     rar_saved now r x resp (sy_mgr s) = (RarRelease p, m') \<Longrightarrow>
     sys_step s (s\<lparr>sy_mgr := m', sy_pc := (sy_pc s)(i := PcRelease r x p)\<rparr>)"
| retain_release: "sy_pc s i = PcRelease r x p \<Longrightarrow> rel_begin x (sy_mgr s) = (res, m') \<Longrightarrow>
     sys_step s (s\<lparr>sy_mgr := m',
       sy_pc := (sy_pc s)(i := (if res = None then PcDelete (Some (r, p)) x else PcResume r p))\<rparr>)"
| release: "sy_pc s i = PcIdle \<Longrightarrow> rel_begin x (sy_mgr s) = (None, m') \<Longrightarrow>
     sys_step s (s\<lparr>sy_mgr := m', sy_pc := (sy_pc s)(i := PcDelete None x)\<rparr>)"
| delete: "sy_pc s i = PcDelete k x \<Longrightarrow> d \<in> {sy_disk s, fmdrop x (sy_disk s)} \<Longrightarrow>
     sys_step s (s\<lparr>sy_disk := d, sy_pc := (sy_pc s)(i := PcDeleted k x)\<rparr>)"
| deleted: "sy_pc s i = PcDeleted k x \<Longrightarrow>
     sys_step s (s\<lparr>sy_mgr := rel_finish x (sy_mgr s), sy_pc := (sy_pc s)(i := after_delete k)\<rparr>)"
| resume: "sy_pc s i = PcResume r p \<Longrightarrow>
     sys_step s (s\<lparr>sy_mgr := snd (rar_resume now r p (sy_mgr s)), sy_pc := (sy_pc s)(i := PcIdle)\<rparr>)"
| sweep_read: "sy_pc s i = PcIdle \<Longrightarrow> fmlookup (sy_disk s) x = Some op \<Longrightarrow>
     sys_step s (s\<lparr>sy_pc := (sy_pc s)(i := PcSweep op (GetBootID (sy_mgr s)))\<rparr>)"
| sweep_decide: "sy_pc s i = PcSweep op boot \<Longrightarrow>
     sys_step s (s\<lparr>sy_pc := (sy_pc s)(i :=
         (case sweep_decision now boot op (sy_mgr s) of
            SwDelete \<Rightarrow> PcSweepDelete (po_OperationID op)
          | SwRelease \<Rightarrow> PcSweepRelease (po_OperationID op)
          | SwLeave \<Rightarrow> PcIdle)),
       sy_expired := (if op_expired now (mg_sweeperTTL (sy_mgr s)) op
                      then insert (po_OperationID op) (sy_expired s) else sy_expired s)\<rparr>)"
| sweep_release: "sy_pc s i = PcSweepRelease x \<Longrightarrow> rel_begin x (sy_mgr s) = (res, m') \<Longrightarrow>
     sys_step s (s\<lparr>sy_mgr := m', sy_pc := (sy_pc s)(i := (if res = None then PcDelete None x else PcIdle))\<rparr>)"
| sweep_delete: "sy_pc s i = PcSweepDelete x \<Longrightarrow> d \<in> {sy_disk s, fmdrop x (sy_disk s)} \<Longrightarrow>
     sys_step s (s\<lparr>sy_disk := d, sy_pc := (sy_pc s)(i := PcIdle)\<rparr>)"

text \<open>The process starts with a fresh manager, an empty cache, and the records a previous run left:
  \<open>Start\<close> takes the lock for at most one of them and deletes those of earlier boots.\<close>

definition sys_init :: "sys \<Rightarrow> bool" where
  "sys_init s \<longleftrightarrow> (\<exists>bf dt ttl sch maxc sttl rl m0 now ops stale.
     NewRequestManager bf dt ttl (Some NewTransactionCache) sch True maxc sttl rl = Inr m0
     \<and> (\<forall>q. sch = Some q \<longrightarrow> sched_inv q)
     \<and> (\<forall>op \<in> set ops. fmlookup (sy_disk s) (po_OperationID op) = Some op)
     \<and> (\<forall>x op. fmlookup (sy_disk s) x = Some op \<longrightarrow> x \<noteq> '''' \<and> po_OperationID op = x)
     \<and> start_loop now ops [] m0 = (stale, sy_mgr s)
     \<and> sy_pc s = (\<lambda>i. if i < length stale then PcSweepDelete (stale ! i) else PcIdle)
     \<and> sy_rpcs s = {} \<and> sy_ops s = fset (fmdom (sy_disk s)) \<and> sy_expired s = {})"

inductive reachable :: "sys \<Rightarrow> bool" where
  init: "sys_init s \<Longrightarrow> reachable s"
| step: "reachable s \<Longrightarrow> sys_step s s' \<Longrightarrow> reachable s'"

section \<open>Calls only remove\<close>

text \<open>Apart from creation and the handoff, a locked section neither adds transactions nor changes a
  handoff mark, and gives up the lock only of a holder that is gone.\<close>

definition shrinks :: "manager \<Rightarrow> manager \<Rightarrow> bool" where
  "shrinks m m' \<longleftrightarrow>
     (\<forall>r tx'. live m' r = Some tx' \<longrightarrow> (\<exists>tx. live m r = Some tx \<and> tx_HandoffInProgress tx' = tx_HandoffInProgress tx))
     \<and> (mg_activeStateTx m' = mg_activeStateTx m \<and> mg_activeStateOwner m' = mg_activeStateOwner m
        \<or> mg_activeStateTx m' = '''' \<and> mg_activeStateOwner m' = LockNone \<and> live m' (mg_activeStateTx m) = None)
     \<and> mg_bootID m' = mg_bootID m \<and> mg_sweeperTTL m' = mg_sweeperTTL m"

lemma shrinks_refl [simp]: "shrinks m m"
  by (auto simp: shrinks_def)

lemma shrinks_tt:
  assumes "shrinks m n"
  shows "shrinks m (tt now r st p n)"
proof (cases "accepts n r st")
  case False
  then show ?thesis using tt_rejected [OF False, of now p] assms by auto
next
  case True
  have "\<exists>tx. live m x = Some tx \<and> tx_HandoffInProgress tx' = tx_HandoffInProgress tx"
    if "live (tt now r st p n) x = Some tx'" for x tx'
    using that assms True by (auto simp: shrinks_def split: if_splits)
  moreover have "mg_activeStateTx (tt now r st p n) = mg_activeStateTx m
        \<and> mg_activeStateOwner (tt now r st p n) = mg_activeStateOwner m
      \<or> mg_activeStateTx (tt now r st p n) = '''' \<and> mg_activeStateOwner (tt now r st p n) = LockNone
        \<and> live (tt now r st p n) (mg_activeStateTx m) = None"
    using assms True by (auto simp: shrinks_def)
  ultimately show ?thesis using assms by (simp add: shrinks_def)
qed

lemma shrinks_set_tx:
  "live m r = Some tx \<Longrightarrow> tx_HandoffInProgress tx' = tx_HandoffInProgress tx \<Longrightarrow> shrinks m (set_tx r tx' m)"
  by (auto simp: shrinks_def)

lemma shrinks_pending: "shrinks m n \<Longrightarrow> shrinks m (drop_pending r n)" "shrinks m n \<Longrightarrow> shrinks m (add_pending r p n)"
  by (simp_all add: shrinks_def)

lemma shrinks_set_tx_drop:
  "live m r = Some tx \<Longrightarrow> tx_HandoffInProgress tx' = tx_HandoffInProgress tx \<Longrightarrow>
     shrinks m (set_tx r tx' (drop_pending r m))"
  by (auto simp: shrinks_def)

lemma shrinks_set_tx2:
  "live m r = Some tx \<Longrightarrow> tx_HandoffInProgress tx' = tx_HandoffInProgress tx \<Longrightarrow>
     shrinks m (set_tx r tx' (set_tx r tx2 m))"
  by (auto simp: shrinks_def)

lemmas shrinks_intros = shrinks_refl shrinks_tt shrinks_set_tx shrinks_pending shrinks_set_tx_drop shrinks_set_tx2

lemma exec_call_shrinks: "shrinks m (exec_call c m)"
proof (cases c)
  case (CallInFlight now r)
  then show ?thesis
    by (auto simp: MarkInFlight_def Let_def split: option.splits intro!: shrinks_intros)
next
  case (CallComplete now r p)
  then show ?thesis
    by (auto simp: Complete_def buffer_reply_def split: option.splits intro!: shrinks_intros)
next
  case (CallFail now r p)
  then show ?thesis
    by (auto simp: Fail_def fail_or_timeout_def buffer_reply_def recoverToInFlight_def Let_def
        split: option.splits intro!: shrinks_intros)
next
  case (CallTimeout now r)
  then show ?thesis
    by (auto simp: Timeout_def fail_or_timeout_def buffer_reply_def recoverToInFlight_def Let_def
        split: option.splits intro!: shrinks_intros)
next
  case (CallDispatchTimeout now r)
  then show ?thesis
    by (auto simp: dispatchTimeoutFail_def recoverToInFlight_def Let_def
        split: option.splits intro!: shrinks_intros)
qed (auto simp: MarkPreparingDispatch_def MarkPendingPublish_def mark_def shrinks_def split: option.splits)

text \<open>A change of the cache and of the scheduler's content only.\<close>

lemma mgr_inv_outer:
  assumes inv: "mgr_inv m" and c: "fmlookup c '''' = None" and s: "\<And>q. s = Some q \<Longrightarrow> sched_inv q"
  shows "mgr_inv (m\<lparr>mg_cache := c, mg_scheduler := s\<rparr>)"
proof -
  let ?m = "m\<lparr>mg_cache := c, mg_scheduler := s\<rparr>"
  note t = mgr_invD(1) [OF inv]
  have ok: "tx_ok ?m = tx_ok m" by (simp add: tx_ok_def fun_eq_iff)
  have "table_inv ?m"
    by (rule table_invI)
      (use table_inv_tx [OF t] table_inv_key [OF t] table_inv_pending [OF t] table_inv_rest(1) [OF t] c s
       in \<open>simp_all add: ok\<close>)
  moreover have "lock_inv ?m" "timer_inv ?m"
    using mgr_invD(2,3) [OF inv] by (simp_all add: lock_inv_def timer_inv_def split: lock_owner.splits)
  ultimately show ?thesis by (simp add: mgr_inv_def)
qed

lemma exec_call_keeps:
  assumes "mgr_inv m"
  shows "mgr_inv (exec_call c m)"
proof (cases c)
  case (CallSweepCache now)
  have "fmlookup (sweepCache now (mg_cache m)) '''' = None"
    using table_inv_rest(2) [OF mgr_invD(1) [OF assms]] by (simp add: sweepCache_def)
  from mgr_inv_outer [OF assms this table_inv_rest(3) [OF mgr_invD(1) [OF assms]], of "mg_scheduler m"]
  show ?thesis using CallSweepCache by simp
next
  case CallNext
  have "sched_inv q" if "mg_scheduler (exec_call CallNext m) = Some q" for q
    using that table_inv_rest(3) [OF mgr_invD(1) [OF assms]] tryDequeue_inv by auto
  from mgr_inv_outer [where s = "mg_scheduler (exec_call CallNext m)",
      OF assms table_inv_rest(2) [OF mgr_invD(1) [OF assms]] this]
  show ?thesis using CallNext by simp
next
  case (CallPush msg)
  have "sched_inv q" if "mg_scheduler (exec_call (CallPush msg) m) = Some q" for q
    using that table_inv_rest(3) [OF mgr_invD(1) [OF assms]] sched_Push_inv by auto
  from mgr_inv_outer [where s = "mg_scheduler (exec_call (CallPush msg) m)",
      OF assms table_inv_rest(2) [OF mgr_invD(1) [OF assms]] this]
  show ?thesis using CallPush by simp
qed (use assms in \<open>simp_all add: MarkPreparingDispatch_keeps MarkPendingPublish_keeps MarkInFlight_keeps
      Complete_keeps Fail_keeps Timeout_keeps dispatchTimeoutFail_keeps\<close>)

lemma rel_begin_shrinks: "mgr_inv m \<Longrightarrow> shrinks m (snd (rel_begin x m))"
  using rel_begin_cases [of x m] mgr_invD(2) [of m] by (auto simp: shrinks_def lock_inv_def)

lemma rel_finish_shrinks: "shrinks m (rel_finish x m)"
  by (simp add: rel_finish_def shrinks_def)

lemma rar_resume_shrinks: "shrinks m (snd (rar_resume now r p m))"
  using shrinks_tt [OF shrinks_pending(1) [OF shrinks_refl], of m now r "pr_State p" "pr_Payload p" r]
  by (simp add: rar_resume_def case_prod_unfold)

section \<open>The invariant of the system\<close>

text \<open>The transaction a goroutine is handing over, and the operation it is saving for it.\<close>

fun handoff_of :: "pc \<Rightarrow> string option" where
  "handoff_of (PcSave r x resp tx op) = Some r"
| "handoff_of (PcSaved r x resp tx e) = Some r"
| "handoff_of (PcRelease r x p) = Some r"
| "handoff_of (PcDelete k x) = map_option fst k"
| "handoff_of (PcDeleted k x) = map_option fst k"
| "handoff_of (PcResume r p) = Some r"
| "handoff_of _ = None"

fun saving_of :: "pc \<Rightarrow> (string \<times> string) option" where
  "saving_of (PcSave r x resp tx op) = Some (r, x)"
| "saving_of (PcSaved r x resp tx e) = Some (r, x)"
| "saving_of _ = None"

text \<open>A goroutine inside a handoff has marked its transaction, no two hand over the same live one,
  and while the save is under way the live transaction still holds the lock.\<close>

definition pcs_inv :: "manager \<Rightarrow> (nat \<Rightarrow> pc) \<Rightarrow> string set \<Rightarrow> string set \<Rightarrow> bool" where
  "pcs_inv m pc rpcs ops \<longleftrightarrow>
     (\<forall>i r. handoff_of (pc i) = Some r \<longrightarrow> r \<in> rpcs \<and> (\<forall>tx. live m r = Some tx \<longrightarrow> tx_HandoffInProgress tx))
     \<and> (\<forall>i j r. handoff_of (pc i) = Some r \<longrightarrow> handoff_of (pc j) = Some r \<longrightarrow> live m r \<noteq> None \<longrightarrow> i = j)
     \<and> (\<forall>i r x. saving_of (pc i) = Some (r, x) \<longrightarrow> x \<in> ops \<and> (live m r \<noteq> None \<longrightarrow> mg_activeStateTx m = r))"

definition ids_inv :: "manager \<Rightarrow> string set \<Rightarrow> string set \<Rightarrow> bool" where
  "ids_inv m rpcs ops \<longleftrightarrow> '''' \<notin> rpcs \<and> '''' \<notin> ops \<and> rpcs \<inter> ops = {}
     \<and> (\<forall>r. live m r \<noteq> None \<longrightarrow> r \<in> rpcs)
     \<and> (mg_activeStateOwner m = LockOwnedByOperation \<longrightarrow> mg_activeStateTx m \<in> ops)"

definition sys_inv :: "sys \<Rightarrow> bool" where
  "sys_inv s \<longleftrightarrow> mgr_inv (sy_mgr s) \<and> ids_inv (sy_mgr s) (sy_rpcs s) (sy_ops s)
     \<and> pcs_inv (sy_mgr s) (sy_pc s) (sy_rpcs s) (sy_ops s)"

lemma saving_handoff: "saving_of q = Some (r, x) \<Longrightarrow> handoff_of q = Some r"
  by (cases q) auto

lemma pcs_invD:
  assumes "pcs_inv m pc rpcs ops"
  shows "handoff_of (pc i) = Some r \<Longrightarrow> r \<in> rpcs"
    and "handoff_of (pc i) = Some r \<Longrightarrow> live m r = Some tx \<Longrightarrow> tx_HandoffInProgress tx"
    and "handoff_of (pc i) = Some r \<Longrightarrow> handoff_of (pc j) = Some r \<Longrightarrow> live m r \<noteq> None \<Longrightarrow> i = j"
    and "saving_of (pc i) = Some (r, x) \<Longrightarrow> x \<in> ops"
    and "saving_of (pc i) = Some (r, x) \<Longrightarrow> live m r \<noteq> None \<Longrightarrow> mg_activeStateTx m = r"
  using assms unfolding pcs_inv_def by blast+

lemma pcs_invI:
  assumes "\<And>i r. handoff_of (pc i) = Some r \<Longrightarrow> r \<in> rpcs"
    and "\<And>i r tx. handoff_of (pc i) = Some r \<Longrightarrow> live m r = Some tx \<Longrightarrow> tx_HandoffInProgress tx"
    and "\<And>i j r. handoff_of (pc i) = Some r \<Longrightarrow> handoff_of (pc j) = Some r \<Longrightarrow> live m r \<noteq> None \<Longrightarrow> i = j"
    and "\<And>i r x. saving_of (pc i) = Some (r, x) \<Longrightarrow> x \<in> ops"
    and "\<And>i r x. saving_of (pc i) = Some (r, x) \<Longrightarrow> live m r \<noteq> None \<Longrightarrow> mg_activeStateTx m = r"
  shows "pcs_inv m pc rpcs ops"
  using assms unfolding pcs_inv_def by blast

lemma shrinks_live: "shrinks m m' \<Longrightarrow> live m' r = Some tx' \<Longrightarrow>
    \<exists>tx. live m r = Some tx \<and> tx_HandoffInProgress tx' = tx_HandoffInProgress tx"
  unfolding shrinks_def by blast

lemma shrinks_gone:
  assumes "shrinks m m'" and "live m r = None"
  shows "live m' r = None"
proof (cases "live m' r")
  case (Some tx')
  from shrinks_live [OF assms(1) this] assms(2) show ?thesis by auto
qed

lemma shrinks_was_live: "shrinks m m' \<Longrightarrow> live m' r \<noteq> None \<Longrightarrow> live m r \<noteq> None"
  using shrinks_gone [of m m' r] by (cases "live m r") auto

lemma shrinks_holder:
  "shrinks m m' \<Longrightarrow> mg_activeStateTx m' = mg_activeStateTx m \<and> mg_activeStateOwner m' = mg_activeStateOwner m
     \<or> mg_activeStateTx m' = '''' \<and> mg_activeStateOwner m' = LockNone \<and> live m' (mg_activeStateTx m) = None"
  unfolding shrinks_def by blast

lemma shrinks_ids: "ids_inv m rpcs ops \<Longrightarrow> shrinks m m' \<Longrightarrow> ids_inv m' rpcs ops"
  unfolding ids_inv_def using shrinks_was_live [of m m'] shrinks_holder [of m m'] by fastforce

lemma shrinks_pcs:
  assumes p: "pcs_inv m pc rpcs ops" and s: "shrinks m m'"
  shows "pcs_inv m' pc rpcs ops"
proof (rule pcs_invI)
  show "r \<in> rpcs" if "handoff_of (pc i) = Some r" for i r
    by (rule pcs_invD(1) [OF p that])
  show "tx_HandoffInProgress tx" if "handoff_of (pc i) = Some r" "live m' r = Some tx" for i r tx
    using shrinks_live [OF s that(2)] pcs_invD(2) [OF p that(1)] by auto
  show "i = j" if "handoff_of (pc i) = Some r" "handoff_of (pc j) = Some r" "live m' r \<noteq> None" for i j r
    by (rule pcs_invD(3) [OF p that(1,2) shrinks_was_live [OF s that(3)]])
  show "x \<in> ops" if "saving_of (pc i) = Some (r, x)" for i r x
    by (rule pcs_invD(4) [OF p that])
  show "mg_activeStateTx m' = r" if "saving_of (pc i) = Some (r, x)" "live m' r \<noteq> None" for i r x
    using pcs_invD(5) [OF p that(1) shrinks_was_live [OF s that(2)]] shrinks_holder [OF s] that(2) by auto
qed

text \<open>A goroutine moves on within its call, or leaves it.\<close>

lemma pcs_inv_upd:
  assumes p: "pcs_inv m pc rpcs ops"
    and h: "handoff_of q = None \<or> handoff_of q = handoff_of (pc i)"
    and s: "saving_of q = None \<or> saving_of q = saving_of (pc i)"
  shows "pcs_inv m (pc(i := q)) rpcs ops"
proof -
  have hand: "handoff_of (pc j) = Some r" if "handoff_of ((pc(i := q)) j) = Some r" for j r
    using that h by (auto split: if_splits)
  have sav: "saving_of (pc j) = Some (r, x)" if "saving_of ((pc(i := q)) j) = Some (r, x)" for j r x
    using that s by (auto split: if_splits)
  show ?thesis
  proof (rule pcs_invI)
    show "r \<in> rpcs" if "handoff_of ((pc(i := q)) j) = Some r" for j r
      by (rule pcs_invD(1) [OF p hand [OF that]])
    show "tx_HandoffInProgress tx" if "handoff_of ((pc(i := q)) j) = Some r" "live m r = Some tx" for j r tx
      by (rule pcs_invD(2) [OF p hand [OF that(1)] that(2)])
    show "j = k" if "handoff_of ((pc(i := q)) j) = Some r" "handoff_of ((pc(i := q)) k) = Some r" "live m r \<noteq> None" for j k r
      by (rule pcs_invD(3) [OF p hand [OF that(1)] hand [OF that(2)] that(3)])
    show "x \<in> ops" if "saving_of ((pc(i := q)) j) = Some (r, x)" for j r x
      by (rule pcs_invD(4) [OF p sav [OF that]])
    show "mg_activeStateTx m = r" if "saving_of ((pc(i := q)) j) = Some (r, x)" "live m r \<noteq> None" for j r x
      by (rule pcs_invD(5) [OF p sav [OF that(1)] that(2)])
  qed
qed

lemma sys_invD:
  assumes "sys_inv s"
  shows "mgr_inv (sy_mgr s)" "ids_inv (sy_mgr s) (sy_rpcs s) (sy_ops s)"
    "pcs_inv (sy_mgr s) (sy_pc s) (sy_rpcs s) (sy_ops s)"
  using assms by (simp_all add: sys_inv_def)

text \<open>An identifier of a transaction holds the lock only while the transaction is live.\<close>

lemma holder_live:
  assumes "mgr_inv m" and "ids_inv m rpcs ops" and "r \<in> rpcs" and "mg_activeStateTx m = r"
  shows "live m r \<noteq> None"
  using assms mgr_invD(2) [OF assms(1)]
  by (auto simp: ids_inv_def lock_inv_def split: lock_owner.splits)

lemma shrink_step:
  assumes "sys_inv s" and "shrinks (sy_mgr s) m'" and "mgr_inv m'"
    and "handoff_of q = None \<or> handoff_of q = handoff_of (sy_pc s i)"
    and "saving_of q = None \<or> saving_of q = saving_of (sy_pc s i)"
  shows "sys_inv (s\<lparr>sy_mgr := m', sy_pc := (sy_pc s)(i := q)\<rparr>)"
  using assms shrinks_ids [OF sys_invD(2) [OF assms(1)] assms(2)]
    pcs_inv_upd [OF shrinks_pcs [OF sys_invD(3) [OF assms(1)] assms(2)] assms(4,5)]
  by (simp add: sys_inv_def)

section \<open>Preservation\<close>

subsection \<open>Creation\<close>

lemma fresh_from_ids:
  assumes "mgr_inv m" and "ids_inv m rpcs ops" and "x \<noteq> ''''" and "x \<notin> rpcs \<union> ops"
  shows "fresh_id m x"
  using assms mgr_invD(2) [OF assms(1)]
  by (auto simp: fresh_id_def ids_inv_def lock_inv_def split: lock_owner.splits)

lemma pcs_inv_mono: "pcs_inv m pc rpcs ops \<Longrightarrow> rpcs \<subseteq> rpcs' \<Longrightarrow> ops \<subseteq> ops' \<Longrightarrow> pcs_inv m pc rpcs' ops'"
  unfolding pcs_inv_def by blast

text \<open>While a live transaction is being handed over the lock is taken, so nobody acquires it.\<close>

lemma pcs_inv_agree:
  assumes p: "pcs_inv m pc rpcs ops"
    and l: "\<And>r. r \<in> rpcs \<Longrightarrow> live m' r = live m r"
    and a: "\<And>i r x. saving_of (pc i) = Some (r, x) \<Longrightarrow> live m r \<noteq> None \<Longrightarrow> mg_activeStateTx m' = mg_activeStateTx m"
  shows "pcs_inv m' pc rpcs ops"
proof (rule pcs_invI)
  show "r \<in> rpcs" if "handoff_of (pc i) = Some r" for i r
    by (rule pcs_invD(1) [OF p that])
  show "tx_HandoffInProgress tx" if "handoff_of (pc i) = Some r" "live m' r = Some tx" for i r tx
    using pcs_invD(2) [OF p that(1)] that(2) l [OF pcs_invD(1) [OF p that(1)]] by simp
  show "i = j" if "handoff_of (pc i) = Some r" "handoff_of (pc j) = Some r" "live m' r \<noteq> None" for i j r
    using pcs_invD(3) [OF p that(1,2)] that(3) l [OF pcs_invD(1) [OF p that(1)]] by simp
  show "x \<in> ops" if "saving_of (pc i) = Some (r, x)" for i r x
    by (rule pcs_invD(4) [OF p that])
  show "mg_activeStateTx m' = r" if "saving_of (pc i) = Some (r, x)" "live m' r \<noteq> None" for i r x
  proof -
    have lv: "live m r \<noteq> None" using that(2) l [OF pcs_invD(1) [OF p saving_handoff [OF that(1)]]] by simp
    show ?thesis using a [OF that(1) lv] pcs_invD(5) [OF p that(1) lv] by simp
  qed
qed

lemma create_step:
  assumes inv: "sys_inv s" and r: "r \<noteq> ''''" "r \<notin> sy_rpcs s \<union> sy_ops s"
  shows "sys_inv (s\<lparr>sy_mgr := snd (CreateTransaction now r sess cid respond meth tmo sc (sy_mgr s)),
                   sy_rpcs := insert r (sy_rpcs s)\<rparr>)"
proof -
  let ?m = "sy_mgr s" and ?m' = "snd (CreateTransaction now r sess cid respond meth tmo sc (sy_mgr s))"
  note I = sys_invD [OF inv]
  have mi: "mgr_inv ?m'"
    by (rule CreateTransaction_keeps [OF I(1) fresh_from_ids [OF I(1,2) r]])
  have cases: "?m' = ?m \<or> (\<exists>tx. ?m' = register r tx ?m)
      \<or> (\<exists>tx. mg_stateLock ?m = MUnlocked \<and> ?m' = register r tx (?m\<lparr>mg_stateLock := MLocked, mg_activeStateTx := r,
             mg_activeStateOwner := LockOwnedByRPC\<rparr>))"
  proof (cases "CreateTransaction now r sess cid respond meth tmo sc ?m")
    case (Pair res m')
    then show ?thesis
      using CreateTransaction_refused [of now r sess cid respond meth tmo sc ?m _ m']
        CreateTransaction_admitted [of now r sess cid respond meth tmo sc ?m _ m']
      by (cases res; cases sc) auto
  qed
  have held: "mg_stateLock ?m = MLocked" if "saving_of (sy_pc s i) = Some (q, x)" "live ?m q \<noteq> None" for i q x
  proof -
    have "mg_activeStateTx ?m = q" "q \<noteq> ''''"
      using pcs_invD(5) [OF I(3) that] pcs_invD(1) [OF I(3) saving_handoff [OF that(1)]] I(2)
      by (auto simp: ids_inv_def)
    then show ?thesis using lock_inv_held mgr_invD(1,2) [OF I(1)] by blast
  qed
  have live: "live ?m' q = live ?m q" if "q \<noteq> r" for q using cases that by auto
  have "ids_inv ?m' (insert r (sy_rpcs s)) (sy_ops s)"
    using I(2) r cases by (auto simp: ids_inv_def split: if_splits)
  moreover have "pcs_inv ?m' (sy_pc s) (sy_rpcs s) (sy_ops s)"
  proof (rule pcs_inv_agree [OF I(3)])
    show "live ?m' q = live ?m q" if "q \<in> sy_rpcs s" for q
      by (rule live) (use that r in auto)
    show "mg_activeStateTx ?m' = mg_activeStateTx ?m"
      if "saving_of (sy_pc s i) = Some (q, x)" "live ?m q \<noteq> None" for i q x
      using held [OF that] cases by auto
  qed
  then have "pcs_inv ?m' (sy_pc s) (insert r (sy_rpcs s)) (sy_ops s)"
    by (rule pcs_inv_mono) auto
  ultimately show ?thesis using mi by (simp add: sys_inv_def)
qed

subsection \<open>The handoff\<close>

lemma retain_step:
  assumes inv: "sys_inv s" and x: "x \<noteq> ''''" "x \<notin> sy_rpcs s \<union> sy_ops s" and i: "sy_pc s i = PcIdle"
    and b: "rar_begin r (sy_mgr s) = (Inr tx, m')"
  shows "sys_inv (s\<lparr>sy_mgr := m', sy_ops := insert x (sy_ops s), sy_pc := (sy_pc s)(i := PcSave r x resp tx op)\<rparr>)"
proof -
  let ?m = "sy_mgr s"
  note I = sys_invD [OF inv]
  from rar_begin_cases [of r ?m] b obtain tx0 where
    t: "live ?m r = Some tx0" "mg_activeStateTx ?m = r" "\<not> tx_HandoffInProgress tx0" "tx_HandoffInProgress tx"
      "m' = (set_tx r tx ?m)\<lparr>mg_activeStateOwner := LockTransferPending\<rparr>"
    by auto
  have mi: "mgr_inv m'" using rar_begin_keeps [OF I(1), of r] b by simp
  have no: "handoff_of (sy_pc s j) \<noteq> Some r" for j using pcs_invD(2) [OF I(3) _ t(1)] t(3) by blast
  have r: "r \<in> sy_rpcs s" using I(2) t(1) by (auto simp: ids_inv_def)
  have live: "live m' q = (if q = r then Some tx else live ?m q)" and act: "mg_activeStateTx m' = r" for q
    using t by simp_all
  have "ids_inv m' (sy_rpcs s) (insert x (sy_ops s))"
    using I(2) x r t(5) by (auto simp: ids_inv_def)
  moreover have "pcs_inv m' ((sy_pc s)(i := PcSave r x resp tx op)) (sy_rpcs s) (insert x (sy_ops s))"
  proof (rule pcs_invI)
    fix j k q y tx'
    let ?pc = "(sy_pc s)(i := PcSave r x resp tx op)"
    show "q \<in> sy_rpcs s" if "handoff_of (?pc j) = Some q"
      using that r pcs_invD(1) [OF I(3), of j q] by (auto split: if_splits)
    show "tx_HandoffInProgress tx'" if "handoff_of (?pc j) = Some q" "live m' q = Some tx'"
      using that t(4) no [of j] pcs_invD(2) [OF I(3), of j q tx'] by (auto simp: live split: if_splits)
    show "j = k" if "handoff_of (?pc j) = Some q" "handoff_of (?pc k) = Some q" "live m' q \<noteq> None"
      using that no [of j] no [of k] pcs_invD(3) [OF I(3), of j q k] by (auto simp: live split: if_splits)
    show "y \<in> insert x (sy_ops s)" if "saving_of (?pc j) = Some (q, y)"
      using that pcs_invD(4) [OF I(3), of j q y] by (auto split: if_splits)
    show "mg_activeStateTx m' = q" if "saving_of (?pc j) = Some (q, y)" "live m' q \<noteq> None"
      using that t(2) pcs_invD(5) [OF I(3), of j q y] by (auto simp: live act split: if_splits)
  qed
  ultimately show ?thesis using mi by (simp add: sys_inv_def)
qed

text \<open>Leaving the save: only the transaction handed over and a lock it held are touched.\<close>

lemma handoff_frame:
  assumes p: "pcs_inv m pc rpcs ops" and i: "handoff_of (pc i) = Some r"
    and other: "\<And>q. q \<noteq> r \<Longrightarrow> live m' q = live m q"
    and own: "live m' r \<noteq> None \<Longrightarrow> live m r \<noteq> None"
    and act: "mg_activeStateTx m \<noteq> r \<Longrightarrow> mg_activeStateTx m' = mg_activeStateTx m"
    and sav: "saving_of q = None"
    and hand: "handoff_of q = None \<or> (handoff_of q = Some r \<and> (\<forall>tx. live m' r = Some tx \<longrightarrow> tx_HandoffInProgress tx))"
  shows "pcs_inv m' (pc(i := q)) rpcs ops"
proof (rule pcs_invI)
  fix j k u y tx'
  let ?pc = "pc(i := q)"
  have alone: "j = i" if "handoff_of (pc j) = Some r" "live m' r \<noteq> None" for j
    using pcs_invD(3) [OF p that(1) i own [OF that(2)]] .
  have old: "handoff_of (pc j) = Some u" if "handoff_of (?pc j) = Some u" for j u
    using that hand i by (auto split: if_splits)
  show "u \<in> rpcs" if "handoff_of (?pc j) = Some u"
    by (rule pcs_invD(1) [OF p old [OF that]])
  show "tx_HandoffInProgress tx'" if a: "handoff_of (?pc j) = Some u" "live m' u = Some tx'"
  proof (cases "u = r")
    case True
    have "j = i" using alone [of j] old [OF a(1)] a(2) True by simp
    with a hand True show ?thesis by simp
  next
    case False
    with a other [OF False] pcs_invD(2) [OF p old [OF a(1)]] show ?thesis by simp
  qed
  show "j = k" if a: "handoff_of (?pc j) = Some u" "handoff_of (?pc k) = Some u" "live m' u \<noteq> None"
  proof (cases "u = r")
    case True
    with alone [of j] alone [of k] a old show ?thesis by blast
  next
    case False
    with a other [OF False] pcs_invD(3) [OF p old [OF a(1)] old [OF a(2)]] show ?thesis by simp
  qed
  have olds: "saving_of (pc j) = Some (u, y) \<and> j \<noteq> i" if "saving_of (?pc j) = Some (u, y)" for j u y
    using that sav by (auto split: if_splits)
  show "y \<in> ops" if "saving_of (?pc j) = Some (u, y)"
    using pcs_invD(4) [OF p] olds [OF that] by blast
  show "mg_activeStateTx m' = u" if a: "saving_of (?pc j) = Some (u, y)" "live m' u \<noteq> None"
  proof -
    have j: "saving_of (pc j) = Some (u, y)" "j \<noteq> i" using olds [OF a(1)] by auto
    have u: "u \<noteq> r" using alone [of j] saving_handoff [OF j(1)] j(2) a(2) by blast
    then have "mg_activeStateTx m = u" using pcs_invD(5) [OF p j(1)] other [OF u] a(2) by simp
    with act u show ?thesis by simp
  qed
qed

lemma rar_save_failed_frame:
  defines "m' \<equiv> \<lambda>now r tx e m. snd (rar_save_failed now r tx e m)"
  shows "q \<noteq> r \<Longrightarrow> live (m' now r tx e m) q = live m q"
    and "live (m' now r tx e m) r \<noteq> None \<Longrightarrow> live m r \<noteq> None"
    and "mg_activeStateTx m \<noteq> r \<Longrightarrow> mg_activeStateTx (m' now r tx e m) = mg_activeStateTx m
           \<and> mg_activeStateOwner (m' now r tx e m) = mg_activeStateOwner m"
    and "mg_activeStateTx m = r \<Longrightarrow> mg_activeStateOwner (m' now r tx e m) \<noteq> LockOwnedByOperation"
    and "mg_bootID (m' now r tx e m) = mg_bootID m" and "mg_sweeperTTL (m' now r tx e m) = mg_sweeperTTL m"
proof -
  have o: "mg_activeStateTx m \<noteq> r \<Longrightarrow> mg_activeStateOwner (rar_retract r m) = mg_activeStateOwner m"
    "mg_activeStateTx m = r \<Longrightarrow> mg_activeStateOwner (rar_retract r m) = LockOwnedByRPC"
    "mg_bootID (rar_retract r m) = mg_bootID m" "mg_sweeperTTL (rar_retract r m) = mg_sweeperTTL m"
    by (simp_all add: rar_retract_def Let_def upd_if_live_def split: option.splits)
  have b: "mg_bootID (upd_if_live r f n) = mg_bootID n" "mg_sweeperTTL (upd_if_live r f n) = mg_sweeperTTL n" for f n
    by (simp_all add: upd_if_live_def split: option.splits)
  show "q \<noteq> r \<Longrightarrow> live (m' now r tx e m) q = live m q"
    by (simp add: m'_def rar_save_failed_eq Let_def split: option.splits)
  show "live (m' now r tx e m) r \<noteq> None \<Longrightarrow> live m r \<noteq> None"
    by (auto simp: m'_def rar_save_failed_eq Let_def split: option.splits if_splits)
  show "mg_activeStateTx m \<noteq> r \<Longrightarrow> mg_activeStateTx (m' now r tx e m) = mg_activeStateTx m
           \<and> mg_activeStateOwner (m' now r tx e m) = mg_activeStateOwner m"
    using o(1) by (simp add: m'_def rar_save_failed_eq Let_def split: option.splits)
  show "mg_activeStateTx m = r \<Longrightarrow> mg_activeStateOwner (m' now r tx e m) \<noteq> LockOwnedByOperation"
    using o(2) by (simp add: m'_def rar_save_failed_eq Let_def split: option.splits)
  show "mg_bootID (m' now r tx e m) = mg_bootID m" "mg_sweeperTTL (m' now r tx e m) = mg_sweeperTTL m"
    using o(3,4) b by (simp_all add: m'_def rar_save_failed_eq Let_def split: option.splits)
qed

lemma save_failed_step:
  assumes inv: "sys_inv s" and i: "sy_pc s i = PcSaved r x resp tx (Some e)"
  shows "sys_inv (s\<lparr>sy_mgr := snd (rar_save_failed now r tx e (sy_mgr s)), sy_pc := (sy_pc s)(i := PcIdle)\<rparr>)"
proof -
  let ?m = "sy_mgr s" and ?m' = "snd (rar_save_failed now r tx e (sy_mgr s))"
  note I = sys_invD [OF inv] and F = rar_save_failed_frame [where r = r and now = now and tx = tx and e = e and m = ?m]
  have h: "handoff_of (sy_pc s i) = Some r" using i by simp
  then have r: "r \<in> sy_rpcs s" using pcs_invD(1) [OF I(3)] by blast
  have "mgr_inv ?m'"
    using holder_live [OF I(1,2) r] by (intro rar_save_failed_keeps [OF I(1)]) blast
  moreover have "ids_inv ?m' (sy_rpcs s) (sy_ops s)"
  proof -
    have "live ?m q \<noteq> None" if "live ?m' q \<noteq> None" for q
      using that F(1) [of q] F(2) by (cases "q = r") auto
    then have "\<forall>q. live ?m' q \<noteq> None \<longrightarrow> q \<in> sy_rpcs s" using I(2) unfolding ids_inv_def by blast
    moreover have "mg_activeStateOwner ?m' = LockOwnedByOperation \<longrightarrow> mg_activeStateTx ?m' \<in> sy_ops s"
      using F(3,4) I(2) by (cases "mg_activeStateTx ?m = r") (auto simp: ids_inv_def)
    ultimately show ?thesis using I(2) unfolding ids_inv_def by blast
  qed
  moreover have "pcs_inv ?m' ((sy_pc s)(i := PcIdle)) (sy_rpcs s) (sy_ops s)"
    by (rule handoff_frame [OF I(3) h F(1,2)]) (use F(3) in auto)
  ultimately show ?thesis by (simp add: sys_inv_def)
qed

text \<open>What the section after a successful save changes, on each of its two exits.\<close>

lemma rar_transfer_frame [simp]:
  "txs (rar_transfer r x m) = txs m" "mg_pendingReplies (rar_transfer r x m) = mg_pendingReplies m"
  "mg_activeStateTx (rar_transfer r x m) = (if mg_activeStateTx m = r then x else mg_activeStateTx m)"
  "mg_activeStateOwner (rar_transfer r x m) =
     (if mg_activeStateTx m = r then LockOwnedByOperation else mg_activeStateOwner m)"
  "mg_bootID (rar_transfer r x m) = mg_bootID m" "mg_sweeperTTL (rar_transfer r x m) = mg_sweeperTTL m"
  by (simp_all add: rar_transfer_def)

lemma rar_saved_frame:
  assumes "rar_saved now r x resp m = (nxt, m')" and "x \<noteq> r"
  shows "q \<noteq> r \<Longrightarrow> live m' q = live m q"
    and "live m' r \<noteq> None \<Longrightarrow> live m' r = live m r"
    and "mg_activeStateTx m' = (if mg_activeStateTx m = r then x else mg_activeStateTx m)"
    and "mg_activeStateOwner m' = (if mg_activeStateTx m = r then LockOwnedByOperation else mg_activeStateOwner m)"
    and "mg_bootID m' = mg_bootID m" and "mg_sweeperTTL m' = mg_sweeperTTL m"
  using assms by (auto simp: rar_saved_eq Let_def split: option.splits if_splits)

lemma saved_step:
  assumes inv: "sys_inv s" and i: "sy_pc s i = PcSaved r x resp tx None"
    and b: "rar_saved now r x resp (sy_mgr s) = (nxt, m')"
    and q: "q = PcIdle \<or> q = PcRelease r x p"
  shows "sys_inv (s\<lparr>sy_mgr := m', sy_pc := (sy_pc s)(i := q)\<rparr>)"
proof -
  let ?m = "sy_mgr s"
  note I = sys_invD [OF inv]
  have h: "handoff_of (sy_pc s i) = Some r" using i by simp
  have r: "r \<in> sy_rpcs s" and x: "x \<in> sy_ops s"
    using pcs_invD(1) [OF I(3) h] pcs_invD(4) [OF I(3), of i r x] i by auto
  have x': "x \<noteq> ''''" "live ?m x = None" "x \<noteq> r" using x r I(2) by (auto simp: ids_inv_def)
  note F = rar_saved_frame [OF b x'(3)]
  have "mgr_inv m'"
    using rar_saved_keeps [OF I(1) _ x'(1,2), of r now resp] holder_live [OF I(1,2) r] b by simp
  moreover have "ids_inv m' (sy_rpcs s) (sy_ops s)"
  proof -
    have "live ?m u \<noteq> None" if "live m' u \<noteq> None" for u
      using that F(1) [of u] F(2) by (cases "u = r") auto
    then have "\<forall>u. live m' u \<noteq> None \<longrightarrow> u \<in> sy_rpcs s" using I(2) unfolding ids_inv_def by blast
    moreover have "mg_activeStateOwner m' = LockOwnedByOperation \<longrightarrow> mg_activeStateTx m' \<in> sy_ops s"
      using F(3,4) I(2) x by (auto simp: ids_inv_def)
    ultimately show ?thesis using I(2) unfolding ids_inv_def by blast
  qed
  moreover have "pcs_inv m' ((sy_pc s)(i := q)) (sy_rpcs s) (sy_ops s)"
  proof (rule handoff_frame [OF I(3) h F(1)])
    show "live ?m r \<noteq> None" if "live m' r \<noteq> None" using F(2) [OF that] that by simp
    show "mg_activeStateTx m' = mg_activeStateTx ?m" if "mg_activeStateTx ?m \<noteq> r" using F(3) that by simp
    show "saving_of q = None" using q by auto
    show "handoff_of q = None \<or> (handoff_of q = Some r \<and> (\<forall>tx. live m' r = Some tx \<longrightarrow> tx_HandoffInProgress tx))"
      using q F(2) pcs_invD(2) [OF I(3) h] by fastforce
  qed
  ultimately show ?thesis by (simp add: sys_inv_def)
qed

subsection \<open>Every step\<close>

lemma sys_inv_disk [simp]:
  "sys_inv (s\<lparr>sy_disk := d\<rparr>) = sys_inv s" "sys_inv (s\<lparr>sy_expired := e\<rparr>) = sys_inv s"
  "sys_inv (s\<lparr>sy_pc := p, sy_expired := e\<rparr>) = sys_inv (s\<lparr>sy_pc := p\<rparr>)"
  "sys_inv (s\<lparr>sy_disk := d, sy_pc := p\<rparr>) = sys_inv (s\<lparr>sy_pc := p\<rparr>)"
  by (simp_all add: sys_inv_def)

lemma pc_step:
  assumes "sys_inv s"
    and "handoff_of q = None \<or> handoff_of q = handoff_of (sy_pc s i)"
    and "saving_of q = None \<or> saving_of q = saving_of (sy_pc s i)"
  shows "sys_inv (s\<lparr>sy_pc := (sy_pc s)(i := q)\<rparr>)"
  using shrink_step [OF assms(1) shrinks_refl sys_invD(1) [OF assms(1)] assms(2,3)] by simp

lemma rel_begin_step:
  assumes "sys_inv s" and "rel_begin x (sy_mgr s) = (res, m')"
    and "handoff_of q = None \<or> handoff_of q = handoff_of (sy_pc s i)"
    and "saving_of q = None \<or> saving_of q = saving_of (sy_pc s i)"
  shows "sys_inv (s\<lparr>sy_mgr := m', sy_pc := (sy_pc s)(i := q)\<rparr>)"
  using shrink_step [OF assms(1) _ _ assms(3,4), of m'] rel_begin_shrinks [OF sys_invD(1) [OF assms(1)], of x]
    rel_begin_keeps [OF sys_invD(1) [OF assms(1)], of x] assms(2) by simp

lemma sys_inv_step:
  assumes "sys_step s s'" and inv: "sys_inv s"
  shows "sys_inv s'"
  using assms(1)
proof cases
  case (call c)
  have "s\<lparr>sy_mgr := exec_call c (sy_mgr s), sy_pc := (sy_pc s)(0 := sy_pc s 0)\<rparr> = s'"
    using call by simp
  with shrink_step [OF inv exec_call_shrinks exec_call_keeps [OF sys_invD(1) [OF inv]], of "sy_pc s 0" 0 c]
  show ?thesis by simp
next
  case (create r now sess cid respond meth tmo sc)
  then show ?thesis using create_step [OF inv] by simp
next
  case (retain x i r tx m' resp now)
  then show ?thesis using retain_step [OF inv] by simp
next
  case (save_ok i r x resp tx op)
  then show ?thesis using pc_step [OF inv, of "PcSaved r x resp tx None" i] by simp
next
  case (save_err i r x resp tx op d e)
  then show ?thesis using pc_step [OF inv, of "PcSaved r x resp tx (Some e)" i] by simp
next
  case (save_failed i r x resp tx e now)
  then show ?thesis using save_failed_step [OF inv] by simp
next
  case (saved_return i r x resp tx now res m')
  then show ?thesis using saved_step [OF inv, of i r x resp tx now _ m' PcIdle] by simp
next
  case (saved_release i r x resp tx now p m')
  then show ?thesis using saved_step [OF inv, of i r x resp tx now _ m' "PcRelease r x p" p] by simp
next
  case (retain_release i r x p res m')
  then show ?thesis using rel_begin_step [OF inv retain_release(3)] by simp
next
  case (release i x m')
  then show ?thesis using rel_begin_step [OF inv release(3)] by simp
next
  case (delete i k x d)
  then show ?thesis using pc_step [OF inv, of "PcDeleted k x" i] by simp
next
  case (deleted i k x)
  have "handoff_of (after_delete k) = handoff_of (sy_pc s i) \<and> saving_of (after_delete k) = None"
    using deleted(2) by (cases k rule: after_delete.cases) auto
  then show ?thesis
    using deleted shrink_step [OF inv rel_finish_shrinks rel_finish_keeps [OF sys_invD(1) [OF inv]], of "after_delete k" i x]
    by simp
next
  case (resume i r p now)
  then show ?thesis
    using shrink_step [OF inv rar_resume_shrinks rar_resume_keeps [OF sys_invD(1) [OF inv]], of PcIdle i now r p]
    by simp
next
  case (sweep_read i x op)
  then show ?thesis using pc_step [OF inv, of "PcSweep op (GetBootID (sy_mgr s))" i] by simp
next
  case (sweep_decide i op boot now)
  let ?q = "case sweep_decision now boot op (sy_mgr s) of
            SwDelete \<Rightarrow> PcSweepDelete (po_OperationID op) | SwRelease \<Rightarrow> PcSweepRelease (po_OperationID op)
          | SwLeave \<Rightarrow> PcIdle"
  have "handoff_of ?q = None" "saving_of ?q = None" by (simp_all split: sweep_action.split)
  then show ?thesis unfolding sweep_decide(1) sys_inv_disk by (intro pc_step [OF inv]) simp_all
next
  case (sweep_release i x res m')
  then show ?thesis using rel_begin_step [OF inv sweep_release(3)] by simp
next
  case (sweep_delete i x d)
  then show ?thesis using pc_step [OF inv, of PcIdle i] by simp
qed

subsection \<open>Start-up\<close>

lemma start_loop_active:
  "start_loop now ops st m = (st', m') \<Longrightarrow>
     txs m' = txs m \<and> mg_bootID m' = mg_bootID m \<and> mg_sweeperTTL m' = mg_sweeperTTL m
     \<and> (mg_activeStateTx m' = mg_activeStateTx m \<and> mg_activeStateOwner m' = mg_activeStateOwner m
        \<or> (mg_activeStateOwner m' = LockOwnedByOperation \<and> mg_activeStateTx m = '''' \<and>
           (\<exists>op \<in> set ops. mg_activeStateTx m' = po_OperationID op \<and> \<not> stale_boot (mg_bootID m) op
              \<and> \<not> op_expired now (mg_sweeperTTL m) op)))"
proof (induction ops arbitrary: m st)
  case Nil
  then show ?case by simp
next
  case (Cons op ops)
  obtain l b where lb: "mutex_TryLock (mg_stateLock m) = (l, b)" by fastforce
  consider (skip) st1 l1 where "start_loop now ops st1 (m\<lparr>mg_stateLock := l1\<rparr>) = (st', m')"
    | (take) "\<not> stale_boot (mg_bootID m) op" "mg_activeStateTx m = ''''" "\<not> op_expired now (mg_sweeperTTL m) op"
        "start_loop now ops st (m\<lparr>mg_stateLock := l, mg_activeStateTx := po_OperationID op,
            mg_activeStateOwner := LockOwnedByOperation\<rparr>) = (st', m')"
  proof (cases "stale_boot (mg_bootID m) op")
    case True
    with Cons.prems skip [of _ "mg_stateLock m"] show thesis by simp
  next
    case False
    show thesis
    proof (cases "mg_activeStateTx m = '''' \<and> \<not> op_expired now (mg_sweeperTTL m) op")
      case True
      with False Cons.prems lb take skip show thesis by (cases b) auto
    next
      case f: False
      with False Cons.prems skip [of _ "mg_stateLock m"] show thesis by auto
    qed
  qed
  then show ?case
  proof cases
    case skip
    from Cons.IH [OF this] show ?thesis by auto
  next
    case take
    from Cons.IH [OF take(4)] take(1-3) show ?thesis by auto
  qed
qed

lemma sys_init_inv: "sys_init s \<Longrightarrow> sys_inv s"
proof -
  assume "sys_init s"
  then obtain bf dt ttl sch maxc sttl rl m0 now ops stale where
    new: "NewRequestManager bf dt ttl (Some NewTransactionCache) sch True maxc sttl rl = Inr m0"
      "\<forall>q. sch = Some q \<longrightarrow> sched_inv q"
    and ops0: "\<forall>op \<in> set ops. fmlookup (sy_disk s) (po_OperationID op) = Some op"
    and disk0: "\<forall>x op. fmlookup (sy_disk s) x = Some op \<longrightarrow> x \<noteq> '''' \<and> po_OperationID op = x"
    and start: "start_loop now ops [] m0 = (stale, sy_mgr s)"
    and pc: "sy_pc s = (\<lambda>i. if i < length stale then PcSweepDelete (stale ! i) else PcIdle)"
    and ids: "sy_rpcs s = {}" "sy_ops s = fset (fmdom (sy_disk s))"
    unfolding sys_init_def by (elim exE conjE) (rule that)
  note ops = bspec [OF ops0] and disk = disk0 [rule_format]
  have m0: "mgr_inv m0" using NewRequestManager_inv [OF new(1)] new(2) by (simp add: NewTransactionCache_def)
  have e: "txs m0 = fmempty" "mg_activeStateOwner m0 = LockNone" using new(1) by (auto simp: NewRequestManager_def)
  have "mgr_inv (sy_mgr s)"
  proof -
    have "mgr_inv (snd (start_loop now ops [] m0))"
    proof (rule start_loop_keeps [OF m0])
      show "po_OperationID op \<noteq> '''' \<and> live m0 (po_OperationID op) = None" if "op \<in> set ops" for op
        using disk [OF ops [OF that]] e(1) by simp
    qed
    with start show ?thesis by simp
  qed
  moreover note sa = start_loop_active [OF start]
  have "ids_inv (sy_mgr s) (sy_rpcs s) (sy_ops s)"
  proof -
    have "mg_activeStateTx (sy_mgr s) \<in> sy_ops s" if "mg_activeStateOwner (sy_mgr s) = LockOwnedByOperation"
    proof -
      from sa that e(2) obtain op where "op \<in> set ops" "mg_activeStateTx (sy_mgr s) = po_OperationID op" by auto
      with ops fmdomI ids(2) show ?thesis by metis
    qed
    moreover have "'''' \<notin> sy_ops s"
    proof
      assume "'''' \<in> sy_ops s"
      then obtain op where "fmlookup (sy_disk s) '''' = Some op" using ids(2) by (auto simp: fmlookup_dom_some)
      with disk show False by blast
    qed
    ultimately show ?thesis using sa e(1) ids(1) by (simp add: ids_inv_def)
  qed
  moreover have "pcs_inv (sy_mgr s) (sy_pc s) (sy_rpcs s) (sy_ops s)"
    by (rule pcs_invI) (simp_all add: pc split: if_splits)
  ultimately show ?thesis by (simp add: sys_inv_def)
qed

lemma reachable_inv: "reachable s \<Longrightarrow> sys_inv s"
  by (induction rule: reachable.induct) (auto intro: sys_init_inv sys_inv_step)

section \<open>Records and the sweeper\<close>

definition disk_inv :: "sys \<Rightarrow> bool" where
  "disk_inv s \<longleftrightarrow>
     (\<forall>x op. fmlookup (sy_disk s) x = Some op \<longrightarrow> po_OperationID op = x \<and> x \<in> sy_ops s)
     \<and> (\<forall>i op b. sy_pc s i = PcSweep op b \<longrightarrow> po_OperationID op \<in> sy_ops s)
     \<and> (\<forall>i r x resp tx op. sy_pc s i = PcSave r x resp tx op \<longrightarrow> po_OperationID op = x \<and> x \<in> sy_ops s)"

lemma disk_inv_step:
  assumes "sys_step s s'" and inv: "disk_inv s"
  shows "disk_inv s'"
  using assms(1)
proof cases
  case (sweep_decide i op boot now)
  let ?q = "case sweep_decision now boot op (sy_mgr s) of SwDelete \<Rightarrow> PcSweepDelete (po_OperationID op)
      | SwRelease \<Rightarrow> PcSweepRelease (po_OperationID op) | SwLeave \<Rightarrow> PcIdle"
  have "?q \<noteq> PcSweep op' b \<and> ?q \<noteq> PcSave r y resp tx op'" for op' b r y resp tx
    by (simp split: sweep_action.split)
  then show ?thesis using inv unfolding sweep_decide(1) disk_inv_def by (auto split: if_splits)
next
  case (deleted i k x)
  have "after_delete k \<noteq> PcSweep op b \<and> after_delete k \<noteq> PcSave r y resp tx op" for op b r y resp tx
    by (cases k rule: after_delete.cases) auto
  then show ?thesis using inv unfolding deleted(1) disk_inv_def by (auto split: if_splits)
qed (use inv in \<open>auto simp: disk_inv_def rar_operation_def split: if_splits\<close>)

lemma reachable_disk: "reachable s \<Longrightarrow> disk_inv s"
proof (induction rule: reachable.induct)
  case (init s)
  then show ?case by (auto simp: sys_init_def disk_inv_def fmdomI split: if_splits)
next
  case (step s s')
  then show ?case by (blast intro: disk_inv_step)
qed

text \<open>An operation that does not own the lock and is not about to: no live transaction is being handed
  over to it. It stays so.\<close>

definition over :: "string \<Rightarrow> sys \<Rightarrow> bool" where
  "over x s \<longleftrightarrow> x \<in> sy_ops s
     \<and> \<not> (mg_activeStateOwner (sy_mgr s) = LockOwnedByOperation \<and> mg_activeStateTx (sy_mgr s) = x)
     \<and> (\<forall>i r. saving_of (sy_pc s i) = Some (r, x) \<longrightarrow> live (sy_mgr s) r = None)"

lemma over_shrinks:
  assumes "over x s" and "shrinks (sy_mgr s) m'" and "saving_of q = None \<or> saving_of q = saving_of (sy_pc s i)"
  shows "over x (s\<lparr>sy_mgr := m', sy_pc := (sy_pc s)(i := q)\<rparr>)"
  using assms shrinks_gone [OF assms(2)] shrinks_holder [OF assms(2)]
  by (auto simp: over_def)

lemma over_disk [simp]:
  "over x (s\<lparr>sy_disk := d, sy_pc := p\<rparr>) = over x (s\<lparr>sy_pc := p\<rparr>)"
  "over x (s\<lparr>sy_pc := p, sy_expired := e\<rparr>) = over x (s\<lparr>sy_pc := p\<rparr>)"
  by (simp_all add: over_def)

lemma over_pc:
  assumes "over x s" and "saving_of q = None \<or> saving_of q = saving_of (sy_pc s i)"
  shows "over x (s\<lparr>sy_pc := (sy_pc s)(i := q)\<rparr>)"
  using over_shrinks [OF assms(1) shrinks_refl assms(2)] by simp

lemma over_saved:
  assumes o: "over x s" and inv: "sys_inv s" and i: "sy_pc s i = PcSaved r y resp tx None"
    and b: "rar_saved now r y resp (sy_mgr s) = (nxt, m')" and q: "saving_of q = None"
  shows "over x (s\<lparr>sy_mgr := m', sy_pc := (sy_pc s)(i := q)\<rparr>)"
proof -
  note I = sys_invD [OF inv]
  have r: "r \<in> sy_rpcs s" and y: "y \<in> sy_ops s"
    using pcs_invD(1) [OF I(3), of i r] pcs_invD(4) [OF I(3), of i r y] i by auto
  then have "y \<noteq> r" using I(2) by (auto simp: ids_inv_def)
  note F = rar_saved_frame [OF b this]
  have "y \<noteq> x" if "mg_activeStateTx (sy_mgr s) = r"
  proof
    assume "y = x"
    with i have "saving_of (sy_pc s i) = Some (r, x)" by simp
    with o have "live (sy_mgr s) r = None" unfolding over_def by blast
    with holder_live [OF I(1,2) r that] show False by simp
  qed
  then have "\<not> (mg_activeStateOwner m' = LockOwnedByOperation \<and> mg_activeStateTx m' = x)"
    using o F(3,4) by (auto simp: over_def)
  moreover have "live m' u = None" if "live (sy_mgr s) u = None" for u
    using F(1) [of u] F(2) that by (cases "u = r") (cases "live m' r", auto)
  ultimately show ?thesis using o q by (auto simp: over_def)
qed

lemma over_step:
  assumes "sys_step s s'" and inv: "sys_inv s" and o: "over x s"
  shows "over x s'"
  using assms(1)
proof cases
  case (call c)
  have "s\<lparr>sy_mgr := exec_call c (sy_mgr s), sy_pc := (sy_pc s)(0 := sy_pc s 0)\<rparr> = s'"
    using call by simp
  with over_shrinks [OF o exec_call_shrinks, of "sy_pc s 0" 0 c] show ?thesis by simp
next
  case (create r now sess cid respond meth tmo sc)
  let ?m' = "snd (CreateTransaction now r sess cid respond meth tmo sc (sy_mgr s))"
  have "?m' = sy_mgr s \<or> (\<exists>t. ?m' = register r t (sy_mgr s)) \<or> (\<exists>t l. ?m' =
      register r t (sy_mgr s\<lparr>mg_stateLock := l, mg_activeStateTx := r, mg_activeStateOwner := LockOwnedByRPC\<rparr>))"
    using CreateTransaction_refused CreateTransaction_admitted
    by (cases "CreateTransaction now r sess cid respond meth tmo sc (sy_mgr s)";
        cases "fst (CreateTransaction now r sess cid respond meth tmo sc (sy_mgr s))"; cases sc) fastforce+
  moreover have "u \<noteq> r" if "saving_of (sy_pc s i) = Some (u, x)" for i u
    using pcs_invD(1) [OF sys_invD(3) [OF inv] saving_handoff [OF that]] create(3) by auto
  ultimately show ?thesis using o unfolding create(1) over_def by (elim disjE exE) (auto split: if_splits)
next
  case (retain y i r tx m' resp now)
  from rar_begin_cases [of r "sy_mgr s"] retain(5) have
    "m' = (set_tx r tx (sy_mgr s))\<lparr>mg_activeStateOwner := LockTransferPending\<rparr>" "live (sy_mgr s) r \<noteq> None"
    by auto
  moreover have "y \<noteq> x" using retain(3) o by (auto simp: over_def)
  ultimately show ?thesis using o unfolding retain(1) over_def by (auto split: if_splits)
next
  case (save_failed i r y resp tx e now)
  note F = rar_save_failed_frame [where r = r and now = now and tx = tx and e = e and m = "sy_mgr s"]
  let ?m' = "snd (rar_save_failed now r tx e (sy_mgr s))"
  have "live ?m' u = None" if "live (sy_mgr s) u = None" for u
    using F(1) [of u] F(2) that by (cases "u = r") (cases "live ?m' r", auto)
  moreover have "\<not> (mg_activeStateOwner ?m' = LockOwnedByOperation \<and> mg_activeStateTx ?m' = x)"
    using F(3,4) o by (cases "mg_activeStateTx (sy_mgr s) = r") (auto simp: over_def)
  ultimately show ?thesis using o unfolding save_failed(1) over_def by auto
next
  case (save_ok i r y resp tx op)
  then show ?thesis using over_pc [OF o, of "PcSaved r y resp tx None" i] by simp
next
  case (save_err i r y resp tx op d e)
  then show ?thesis using over_pc [OF o, of "PcSaved r y resp tx (Some e)" i] by simp
next
  case (saved_return i r y resp tx now res m')
  then show ?thesis using over_saved [OF o inv] by simp
next
  case (saved_release i r y resp tx now p m')
  then show ?thesis using over_saved [OF o inv] by simp
next
  case (retain_release i r y p res m')
  then show ?thesis
    using over_shrinks [OF o, of m' "if res = None then PcDelete (Some (r, p)) y else PcResume r p" i]
      rel_begin_shrinks [OF sys_invD(1) [OF inv], of y] by simp
next
  case (release i y m')
  then show ?thesis
    using over_shrinks [OF o, of m' "PcDelete None y" i] rel_begin_shrinks [OF sys_invD(1) [OF inv], of y] by simp
next
  case (delete i k y d)
  then show ?thesis using over_pc [OF o, of "PcDeleted k y" i] by simp
next
  case (deleted i k y)
  have "saving_of (after_delete k) = None" by (cases k rule: after_delete.cases) auto
  then show ?thesis using deleted over_shrinks [OF o rel_finish_shrinks] by simp
next
  case (resume i r p now)
  then show ?thesis using over_shrinks [OF o rar_resume_shrinks, of PcIdle i] by simp
next
  case (sweep_read i y op)
  then show ?thesis using over_pc [OF o, of "PcSweep op (GetBootID (sy_mgr s))" i] by simp
next
  case (sweep_decide i op boot now)
  let ?q = "case sweep_decision now boot op (sy_mgr s) of
            SwDelete \<Rightarrow> PcSweepDelete (po_OperationID op) | SwRelease \<Rightarrow> PcSweepRelease (po_OperationID op)
          | SwLeave \<Rightarrow> PcIdle"
  have "saving_of ?q = None" by (simp split: sweep_action.split)
  then show ?thesis unfolding sweep_decide(1) over_disk by (intro over_pc [OF o]) simp
next
  case (sweep_release i y res m')
  then show ?thesis
    using over_shrinks [OF o, of m' "if res = None then PcDelete None y else PcIdle" i]
      rel_begin_shrinks [OF sys_invD(1) [OF inv], of y] by simp
next
  case (sweep_delete i y d)
  then show ?thesis using over_pc [OF o, of PcIdle i] by simp
qed

lemma over_forever: "sys_step\<^sup>*\<^sup>* s s' \<Longrightarrow> sys_inv s \<Longrightarrow> over x s \<Longrightarrow> over x s' \<and> sys_inv s'"
  by (induction rule: rtranclp_induct) (auto intro: over_step sys_inv_step)

text \<open>The sweeper's reason to delete a record that is neither stale nor expired.\<close>

lemma sweep_delete_over:
  assumes inv: "sys_inv s" and x: "po_OperationID op \<in> sy_ops s"
    and d: "sweep_decision now boot op (sy_mgr s) = SwDelete"
    and "\<not> stale_boot boot op" and "\<not> op_expired now (mg_sweeperTTL (sy_mgr s)) op"
  shows "over (po_OperationID op) s"
proof -
  let ?m = "sy_mgr s" and ?x = "po_OperationID op"
  note I = sys_invD [OF inv]
  have n: "mg_activeStateOwner ?m \<noteq> LockTransferPending" "mg_activeStateTx ?m \<noteq> ?x"
    using d assms(4,5) by (auto simp: sweep_decision_def Let_def split: if_splits)
  have "live ?m r = None" if s: "saving_of (sy_pc s i) = Some (r, ?x)" for i r
  proof (rule ccontr)
    assume l: "live ?m r \<noteq> None"
    then obtain tx where tx: "live ?m r = Some tx" by auto
    have "mg_activeStateTx ?m = r" by (rule pcs_invD(5) [OF I(3) s l])
    moreover have "tx_HandoffInProgress tx" by (rule pcs_invD(2) [OF I(3) saving_handoff [OF s] tx])
    ultimately show False
      using lock_inv_owner [OF mgr_invD(2,1) [OF I(1)] tx] n(1) by simp
  qed
  with n(2) x show ?thesis by (simp add: over_def)
qed

section \<open>Ended transactions\<close>

lemma gone_step:
  assumes "sys_step s s'" and inv: "sys_inv s" and r: "r \<in> sy_rpcs s" and g: "live (sy_mgr s) r = None"
  shows "r \<in> sy_rpcs s' \<and> live (sy_mgr s') r = None"
  using assms(1)
proof cases
  case (call c)
  then show ?thesis using shrinks_gone [OF exec_call_shrinks g] r by simp
next
  case (create q now sess cid respond meth tmo sc)
  have "q \<noteq> r" using create(3) r by auto
  moreover have "live (snd (CreateTransaction now q sess cid respond meth tmo sc (sy_mgr s))) r = live (sy_mgr s) r"
    if "q \<noteq> r"
  proof (cases "CreateTransaction now q sess cid respond meth tmo sc (sy_mgr s)")
    case (Pair res m')
    then show ?thesis
      using CreateTransaction_refused [of now q sess cid respond meth tmo sc "sy_mgr s" _ m']
        CreateTransaction_admitted [of now q sess cid respond meth tmo sc "sy_mgr s" _ m'] that
      by (cases res; cases sc) auto
  qed
  ultimately show ?thesis using create(1) r g by simp
next
  case (retain x i q tx m' resp now)
  from rar_begin_cases [of q "sy_mgr s"] retain(5) have
    "m' = (set_tx q tx (sy_mgr s))\<lparr>mg_activeStateOwner := LockTransferPending\<rparr>" "live (sy_mgr s) q \<noteq> None"
    by auto
  then show ?thesis using retain(1) r g by auto
next
  case (save_failed i q x resp tx e now)
  note F = rar_save_failed_frame [where r = q and now = now and tx = tx and e = e and m = "sy_mgr s"]
  then show ?thesis using save_failed(1) r g F(1) [of r] F(2)
    by (cases "r = q") (cases "live (snd (rar_save_failed now q tx e (sy_mgr s))) q", auto)
next
  case (saved_return i q x resp tx now res m')
  have "x \<noteq> q"
    using pcs_invD(1) [OF sys_invD(3) [OF inv], of i q] pcs_invD(4) [OF sys_invD(3) [OF inv], of i q x]
      saved_return(2) sys_invD(2) [OF inv] by (auto simp: ids_inv_def)
  note F = rar_saved_frame [OF saved_return(3) this]
  then show ?thesis using saved_return(1) r g F(1) [of r] F(2) by (cases "r = q") (cases "live m' q", auto)
next
  case (saved_release i q x resp tx now p m')
  have "x \<noteq> q"
    using pcs_invD(1) [OF sys_invD(3) [OF inv], of i q] pcs_invD(4) [OF sys_invD(3) [OF inv], of i q x]
      saved_release(2) sys_invD(2) [OF inv] by (auto simp: ids_inv_def)
  note F = rar_saved_frame [OF saved_release(3) this]
  then show ?thesis using saved_release(1) r g F(1) [of r] F(2) by (cases "r = q") (cases "live m' q", auto)
next
  case (retain_release i q x p res m')
  then show ?thesis using shrinks_gone [OF rel_begin_shrinks [OF sys_invD(1) [OF inv], of x] g] r by simp
next
  case (release i x m')
  then show ?thesis using shrinks_gone [OF rel_begin_shrinks [OF sys_invD(1) [OF inv], of x] g] r by simp
next
  case (deleted i k x)
  then show ?thesis using shrinks_gone [OF rel_finish_shrinks g] r by simp
next
  case (resume i q p now)
  then show ?thesis using shrinks_gone [OF rar_resume_shrinks g] r by simp
next
  case (sweep_release i x res m')
  then show ?thesis using shrinks_gone [OF rel_begin_shrinks [OF sys_invD(1) [OF inv], of x] g] r by simp
qed (use r g in simp_all)

lemma gone_forever:
  "sys_step\<^sup>*\<^sup>* s s' \<Longrightarrow> sys_inv s \<Longrightarrow> r \<in> sy_rpcs s \<Longrightarrow> live (sy_mgr s) r = None \<Longrightarrow>
     r \<in> sy_rpcs s' \<and> live (sy_mgr s') r = None \<and> sys_inv s'"
  by (induction rule: rtranclp_induct) (auto dest: gone_step sys_inv_step)

end
