(* ===== verification/Manager_Props.thy ===== *)
theory Manager_Props
  imports Manager_Sys
begin

text \<open>
  The properties of the request manager: what holds in every reachable state of the concurrent
  system, and what single calls do.
\<close>

section \<open>Concrete states\<close>

text \<open>The system after a start with an empty store, and after it admitted one upgrade request.\<close>

definition boot_mgr :: manager where
  "boot_mgr = \<lparr>mg_dispatchTimeout = 5 * Second, mg_transactionsByRPCID = fmempty,
     mg_activeCloudRequests = fmempty, mg_stateLock = MUnlocked, mg_activeStateTx = '''',
     mg_activeStateOwner = LockNone, mg_releasingOperationID = '''', mg_cache = fmempty,
     mg_cacheTTLConfig = \<lparr>ct_DefaultTTL = 300 * Second, ct_MethodTTLs = Map.empty\<rparr>, mg_scheduler = None,
     mg_pendingReplies = fmempty, mg_maxConcurrentRequests = 4, mg_sweeperTTL = 600 * Second,
     mg_activeRecordLimit = 10, mg_bootID = ''b''\<rparr>"

definition boot_sys :: sys where
  "boot_sys = \<lparr>sy_mgr = boot_mgr, sy_disk = fmempty, sy_pc = (\<lambda>_. PcIdle), sy_rpcs = {}, sy_ops = {},
     sy_expired = {}\<rparr>"

definition upgrade_tx :: transaction where
  "upgrade_tx = new_tx 0 ''r1'' ''s'' ''1'' ''s:n:1'' True ''upgrade'' (30 * Second) (5 * Second)"

definition upgrade_mgr :: manager where
  "upgrade_mgr = boot_mgr\<lparr>mg_stateLock := MLocked, mg_activeStateTx := ''r1'', mg_activeStateOwner := LockOwnedByRPC,
     mg_activeCloudRequests := fmupd ''s:n:1'' ''r1'' fmempty,
     mg_transactionsByRPCID := fmupd ''r1'' upgrade_tx fmempty\<rparr>"

lemma boot_new:
  "NewRequestManager (Inr ''b'') (5 * Second) \<lparr>ct_DefaultTTL = 300 * Second, ct_MethodTTLs = Map.empty\<rparr>
     (Some NewTransactionCache) None True 4 (600 * Second) 10 = Inr boot_mgr"
proof -
  have "getSystemBootID (Inr ''b'') = ''b''" by code_simp
  then show ?thesis by (simp add: NewRequestManager_def boot_mgr_def NewTransactionCache_def)
qed

lemma reachable_boot: "reachable boot_sys"
proof (rule reachable.init, unfold sys_init_def, intro exI conjI)
  show "NewRequestManager (Inr ''b'') (5 * Second) \<lparr>ct_DefaultTTL = 300 * Second, ct_MethodTTLs = Map.empty\<rparr>
     (Some NewTransactionCache) None True 4 (600 * Second) 10 = Inr boot_mgr" by (rule boot_new)
  show "start_loop 0 [] [] boot_mgr = ([], sy_mgr boot_sys)" by (simp add: boot_sys_def)
qed (simp_all add: boot_sys_def fun_eq_iff)

lemma upgrade_created:
  "CreateTransaction 0 ''r1'' ''s'' ''1'' True ''upgrade'' (30 * Second) True boot_mgr = (Inr upgrade_tx, upgrade_mgr)"
proof -
  have "CanonicalRequestKey ''s'' ''1'' = Inr ''s:n:1''" by code_simp
  then show ?thesis
    by (simp add: CreateTransaction_def boot_mgr_def cache_Get_def upgrade_tx_def upgrade_mgr_def set_tx_def
        Let_def fcard.rep_eq)
qed

definition upgrade_sys :: sys where
  "upgrade_sys = boot_sys\<lparr>sy_mgr := upgrade_mgr, sy_rpcs := {''r1''}\<rparr>"

lemma upgrade_step: "sys_step boot_sys upgrade_sys"
proof -
  have "sys_step boot_sys (boot_sys\<lparr>sy_mgr := snd (CreateTransaction 0 ''r1'' ''s'' ''1'' True ''upgrade''
      (30 * Second) True (sy_mgr boot_sys)), sy_rpcs := insert ''r1'' (sy_rpcs boot_sys)\<rparr>)"
    by (rule sys_step.create) (simp_all add: boot_sys_def)
  moreover have "sy_mgr boot_sys = boot_mgr" "sy_rpcs boot_sys = {}" by (simp_all add: boot_sys_def)
  ultimately show ?thesis by (simp only: upgrade_created snd_conv upgrade_sys_def)
qed

lemma reachable_upgrade: "reachable upgrade_sys"
  by (rule reachable.step [OF reachable_boot upgrade_step])

section \<open>Every reachable state\<close>

text \<open>C1: in every reachable state of the concurrent system the state lock and its bookkeeping agree:
  no goroutine ever unlocks an unlocked mutex, the lock is held exactly when a holder is
  recorded, and the holder is a live transaction outside a handoff, a live transaction inside
  one, or an operation, as the recorded phase says.\<close>

theorem state_lock_discipline:
  assumes "reachable s"
  shows "mg_stateLock (sy_mgr s) \<noteq> MFatal
     \<and> (mg_stateLock (sy_mgr s) = MLocked \<longleftrightarrow> mg_activeStateTx (sy_mgr s) \<noteq> '''')
     \<and> (case mg_activeStateOwner (sy_mgr s) of
          LockNone \<Rightarrow> mg_activeStateTx (sy_mgr s) = ''''
        | LockOwnedByRPC \<Rightarrow> \<exists>tx. live (sy_mgr s) (mg_activeStateTx (sy_mgr s)) = Some tx \<and> \<not> tx_HandoffInProgress tx
        | LockTransferPending \<Rightarrow> \<exists>tx. live (sy_mgr s) (mg_activeStateTx (sy_mgr s)) = Some tx \<and> tx_HandoffInProgress tx
        | LockOwnedByOperation \<Rightarrow> mg_activeStateTx (sy_mgr s) \<in> sy_ops s)"
proof -
  note I = sys_invD [OF reachable_inv [OF assms]]
  note L = mgr_invD(2) [OF I(1)] and T = mgr_invD(1) [OF I(1)]
  show ?thesis
    using lock_inv_not_fatal [OF L] lock_inv_held [OF T L] L I(2)
    by (simp add: lock_inv_def ids_inv_def split: lock_owner.splits)
qed

theorem state_lock_discipline_witness:
  "reachable upgrade_sys \<and> mg_stateLock (sy_mgr upgrade_sys) = MLocked"
  using state_lock_discipline [OF reachable_upgrade] reachable_upgrade by (simp add: upgrade_sys_def upgrade_mgr_def)

text \<open>C2: once a transaction has ended it stays ended, whatever the goroutines do: it never returns to
  the table, and every later terminal event for it, from a late reply, a timer or a handoff, is
  rejected. So no request is answered twice.\<close>

theorem ended_transaction_stays_ended:
  assumes "reachable s" and "sys_step\<^sup>*\<^sup>* s s'" and "r \<in> sy_rpcs s" and "live (sy_mgr s) r = None"
  shows "live (sy_mgr s') r = None \<and> terminalTransition now r st p (sy_mgr s') =
     (Some (if is_terminal st then ErrTransactionNotFound else ErrInvalidStateTransition), sy_mgr s')"
  using gone_forever [OF assms(2) reachable_inv [OF assms(1)] assms(3,4)]
  by (simp add: terminalTransition_def)

theorem ended_transaction_stays_ended_witness:
  "reachable boot_sys \<and> (\<exists>s. sys_step\<^sup>*\<^sup>* boot_sys s \<and> ''r1'' \<in> sy_rpcs s \<and> live (sy_mgr s) ''r1'' = None
     \<and> fst (terminalTransition 0 ''r1'' TxCompleted None (sy_mgr s)) = Some ErrTransactionNotFound)"
proof -
  let ?s2 = "upgrade_sys\<lparr>sy_mgr := exec_call (CallFail 0 ''r1'' None) (sy_mgr upgrade_sys)\<rparr>"
  have st: "sys_step upgrade_sys ?s2" by (rule sys_step.call)
  then have r2: "reachable ?s2" by (rule reachable.step [OF reachable_upgrade])
  have gone: "live (sy_mgr ?s2) ''r1'' = None"
    by (simp add: upgrade_sys_def Fail_def fail_or_timeout_def upgrade_mgr_def upgrade_tx_def new_tx_def boot_mgr_def accepts_def
        validateTransition_def is_terminal_def)
  have "sys_step\<^sup>*\<^sup>* boot_sys ?s2" using upgrade_step st by (meson r_into_rtranclp rtranclp_trans)
  moreover have "''r1'' \<in> sy_rpcs ?s2" by (simp add: upgrade_sys_def)
  moreover have "fst (terminalTransition 0 ''r1'' TxCompleted None (sy_mgr ?s2)) = Some ErrTransactionNotFound"
    using ended_transaction_stays_ended [OF r2 rtranclp.rtrancl_refl \<open>''r1'' \<in> sy_rpcs ?s2\<close> gone, of 0 TxCompleted None]
    by (simp add: is_terminal_def)
  ultimately show ?thesis using gone reachable_boot by blast
qed

text \<open>C12: in every reachable state at most one live transaction exists per request key, every live
  transaction with a key is the one registered for it, and the number of live transactions
  respects the configured maximum.\<close>

theorem one_live_transaction_per_request:
  assumes "reachable s"
    and "live (sy_mgr s) r1 = Some tx1" and "live (sy_mgr s) r2 = Some tx2"
    and "tx_RequestKey tx1 = tx_RequestKey tx2" and "tx_RequestKey tx1 \<noteq> ''''"
  shows "r1 = r2 \<and> fmlookup (mg_activeCloudRequests (sy_mgr s)) (tx_RequestKey tx1) = Some r1
     \<and> int (fcard (fmdom (txs (sy_mgr s)))) \<le> max 0 (mg_maxConcurrentRequests (sy_mgr s))"
proof -
  note T = mgr_invD(1) [OF sys_invD(1) [OF reachable_inv [OF assms(1)]]]
  show ?thesis
    using table_inv_tx [OF T assms(2)] table_inv_tx [OF T assms(3)] assms(4,5) table_inv_rest(1) [OF T]
    by (simp add: tx_ok_def)
qed

theorem one_live_transaction_per_request_witness:
  "fmlookup (mg_activeCloudRequests upgrade_mgr) ''s:n:1'' = Some ''r1''"
  using one_live_transaction_per_request [OF reachable_upgrade, of "''r1''" upgrade_tx "''r1''" upgrade_tx]
  by (simp add: upgrade_sys_def upgrade_mgr_def upgrade_tx_def new_tx_def)

text \<open>C11: in every reachable state a transaction that waits for the device has a response deadline
  and, unless it is being handed over, a timer running towards exactly that deadline; when the
  timer fires the transaction ends. No in-flight request can wait for ever.\<close>

theorem in_flight_transactions_time_out:
  assumes "reachable s" and "live (sy_mgr s) r = Some tx" and "tx_State tx = TxInFlight"
    and "\<not> tx_HandoffInProgress tx"
  shows "\<exists>deadline. tx_ResponseDeadline tx = Some deadline \<and> tx_ResponseTimer tx = Some (Armed deadline)
     \<and> live (snd (Timeout now r (sy_mgr s))) r = None"
proof -
  note I = mgr_invD [OF sys_invD(1) [OF reachable_inv [OF assms(1)]]]
  have "timer_ok tx" using I(3) assms(2) by (simp add: timer_inv_def)
  then obtain t where t: "tx_ResponseDeadline tx = Some t" "tx_ResponseTimer tx = Some (Armed t)"
    using assms(3,4) by (auto simp: timer_ok_def)
  have "live (snd (Timeout now r (sy_mgr s))) r = None"
    using assms(2-4) table_inv_pending [OF I(1), of r]
    by (auto simp: Timeout_def fail_or_timeout_def recoverToInFlight_def Let_def accepts_def is_terminal_def
        validateTransition_def split: option.splits)
  with t show ?thesis by blast
qed

text \<open>The upgrade request after its dispatch at time 0.\<close>

definition flight_tx :: transaction where
  "flight_tx = upgrade_tx\<lparr>tx_State := TxInFlight, tx_ResponseDeadline := Some (30 * Second),
     tx_ResponseTimer := Some (Armed (30 * Second))\<rparr>"

definition flight_mgr :: manager where
  "flight_mgr = upgrade_mgr\<lparr>mg_transactionsByRPCID := fmupd ''r1'' flight_tx fmempty\<rparr>"

definition flight_sys :: sys where
  "flight_sys = upgrade_sys\<lparr>sy_mgr := flight_mgr\<rparr>"

lemma reachable_flight: "reachable flight_sys"
proof -
  let ?m1 = "exec_call (CallPreparing ''r1'') upgrade_mgr"
  let ?m2 = "exec_call (CallPendingPublish ''r1'') ?m1"
  have m1: "?m1 = set_tx ''r1'' (upgrade_tx\<lparr>tx_State := TxPreparingDispatch\<rparr>) upgrade_mgr"
    by (simp add: MarkPreparingDispatch_def mark_def upgrade_mgr_def upgrade_tx_def new_tx_def validateTransition_def)
  have m2: "?m2 = set_tx ''r1'' (upgrade_tx\<lparr>tx_State := TxPendingPublish\<rparr>) upgrade_mgr"
    unfolding m1 by (simp add: MarkPendingPublish_def mark_def validateTransition_def) (simp add: set_tx_def)
  have m3: "exec_call (CallInFlight 0 ''r1'') ?m2 = flight_mgr"
    unfolding m2
    by (simp add: MarkInFlight_def validateTransition_def Let_def flight_mgr_def flight_tx_def)
      (simp add: set_tx_def upgrade_mgr_def upgrade_tx_def new_tx_def boot_mgr_def stop_timer_def)
  have st: "reachable (s\<lparr>sy_mgr := exec_call c (sy_mgr s)\<rparr>)" if "reachable s" for s c
    by (rule reachable.step [OF that sys_step.call])
  have "reachable (upgrade_sys\<lparr>sy_mgr := ?m1\<rparr>)"
    using st [OF reachable_upgrade, of "CallPreparing ''r1''"] by (simp add: upgrade_sys_def del: exec_call.simps)
  from st [OF this, of "CallPendingPublish ''r1''"] have "reachable (upgrade_sys\<lparr>sy_mgr := ?m2\<rparr>)"
    by (simp del: exec_call.simps)
  from st [OF this, of "CallInFlight 0 ''r1''"] show ?thesis
    by (simp add: m3 flight_sys_def del: exec_call.simps)
qed

lemma flight_live: "live flight_mgr ''r1'' = Some flight_tx" "live (sy_mgr flight_sys) ''r1'' = Some flight_tx"
  by (simp_all add: flight_mgr_def flight_sys_def)

theorem in_flight_transactions_time_out_witness:
  "reachable flight_sys \<and> live (snd (Timeout (30 * Second) ''r1'' (sy_mgr flight_sys))) ''r1'' = None"
  using in_flight_transactions_time_out [OF reachable_flight flight_live(2), of "30 * Second"] reachable_flight
  by (simp add: flight_tx_def upgrade_tx_def new_tx_def)

text \<open>C3: when the orphan sweeper decides to delete a record that is neither of an earlier boot nor
  expired, the operation of that record holds the state lock neither then nor at any later time:
  a handoff that is still under way is recognised. So the sweeper never removes the durable
  record of a running operation.\<close>

theorem sweeper_spares_running_operations:
  assumes "reachable s" and "sy_pc s i = PcSweep op boot"
    and "sweep_decision now boot op (sy_mgr s) = SwDelete"
    and "\<not> stale_boot boot op" and "\<not> op_expired now (mg_sweeperTTL (sy_mgr s)) op"
    and "sys_step\<^sup>*\<^sup>* s s'"
  shows "\<not> (mg_activeStateOwner (sy_mgr s') = LockOwnedByOperation \<and> mg_activeStateTx (sy_mgr s') = po_OperationID op)"
proof -
  have inv: "sys_inv s" by (rule reachable_inv [OF assms(1)])
  have "po_OperationID op \<in> sy_ops s"
    using reachable_disk [OF assms(1)] assms(2) unfolding disk_inv_def by blast
  from over_forever [OF assms(6) inv sweep_delete_over [OF inv this assms(3-5)]]
  show ?thesis by (simp add: over_def)
qed

text \<open>An operation record left by a previous run, which a start with a full schedule did not adopt.\<close>

definition left_op :: persistent_operation where
  "left_op = rar_operation 0 ''o1'' ''r0'' flight_tx ''b''"

definition left_sys :: sys where
  "left_sys = boot_sys\<lparr>sy_disk := fmupd ''o1'' left_op fmempty, sy_ops := {''o1''}\<rparr>"

lemma left_sys_reachable: "reachable (left_sys\<lparr>sy_pc := (sy_pc left_sys)(0 := PcSweep left_op ''b'')\<rparr>)"
proof (rule reachable.step)
  show "reachable left_sys"
  proof (rule reachable.init, unfold sys_init_def, intro exI conjI)
    show "NewRequestManager (Inr ''b'') (5 * Second) \<lparr>ct_DefaultTTL = 300 * Second, ct_MethodTTLs = Map.empty\<rparr>
       (Some NewTransactionCache) None True 4 (600 * Second) 10 = Inr boot_mgr" by (rule boot_new)
    show "start_loop 0 [] [] boot_mgr = ([], sy_mgr left_sys)" by (simp add: left_sys_def boot_sys_def)
  qed (auto simp: left_sys_def boot_sys_def fun_eq_iff left_op_def rar_operation_def split: if_splits)
  have "sys_step left_sys (left_sys\<lparr>sy_pc := (sy_pc left_sys)(0 := PcSweep left_op (GetBootID (sy_mgr left_sys)))\<rparr>)"
    by (rule sys_step.sweep_read [where x = "''o1''"]) (simp_all add: left_sys_def boot_sys_def)
  moreover have "GetBootID (sy_mgr left_sys) = ''b''" by (simp add: left_sys_def boot_sys_def boot_mgr_def GetBootID_def)
  ultimately show "sys_step left_sys (left_sys\<lparr>sy_pc := (sy_pc left_sys)(0 := PcSweep left_op ''b'')\<rparr>)" by simp
qed

theorem sweeper_spares_running_operations_witness:
  "\<exists>s. reachable s \<and> sweep_decision 0 ''b'' left_op (sy_mgr s) = SwDelete
     \<and> \<not> (mg_activeStateOwner (sy_mgr s) = LockOwnedByOperation \<and> mg_activeStateTx (sy_mgr s) = po_OperationID left_op)"
proof -
  let ?s = "left_sys\<lparr>sy_pc := (sy_pc left_sys)(0 := PcSweep left_op ''b'')\<rparr>"
  have fresh: "\<not> stale_boot ''b'' left_op" by (simp add: stale_boot_def left_op_def rar_operation_def)
  have "ParseRFC3339 (FormatRFC3339 0) = Some 0"
    using ParseRFC3339_Format [of 0] by (simp add: days_before_year_def)
  then have young: "\<not> op_expired 0 (mg_sweeperTTL (sy_mgr ?s)) left_op"
    by (simp add: op_expired_def left_sys_def boot_sys_def boot_mgr_def left_op_def rar_operation_def time_Sub_def)
  have dec: "sweep_decision 0 ''b'' left_op (sy_mgr ?s) = SwDelete"
    using fresh young by (simp add: sweep_decision_def Let_def left_sys_def boot_sys_def boot_mgr_def left_op_def rar_operation_def)
  have pc: "sy_pc ?s 0 = PcSweep left_op ''b''" by simp
  from sweeper_spares_running_operations [OF left_sys_reachable pc dec fresh young rtranclp.rtrancl_refl]
  show ?thesis using left_sys_reachable dec by blast
qed

text \<open>C4: a state-changing request is admitted in a reachable state only when nobody holds the state
  lock, it then holds it itself, and while it is held every state-changing request is refused
  without any effect.\<close>

theorem state_changing_requests_exclusive:
  assumes "reachable s"
    and "CreateTransaction now r sess cid respond method timeout True (sy_mgr s) = (res, m')"
  shows "(case res of
            Inr tx \<Rightarrow> mg_activeStateOwner (sy_mgr s) = LockNone \<and> mg_activeStateTx m' = r
                     \<and> mg_activeStateOwner m' = LockOwnedByRPC \<and> mg_stateLock m' = MLocked
          | Inl e \<Rightarrow> m' = sy_mgr s)
     \<and> (mg_activeStateTx (sy_mgr s) \<noteq> '''' \<longrightarrow> (\<exists>e. res = Inl e))"
proof -
  note I = sys_invD(1) [OF reachable_inv [OF assms(1)]]
  have free: "mg_stateLock (sy_mgr s) = MUnlocked \<Longrightarrow> mg_activeStateOwner (sy_mgr s) = LockNone \<and> mg_activeStateTx (sy_mgr s) = ''''"
    using mgr_invD(2) [OF I] by (auto simp: lock_inv_def split: lock_owner.splits)
  show ?thesis
  proof (cases res)
    case (Inl e)
    then show ?thesis using CreateTransaction_refused assms(2) by simp
  next
    case (Inr tx)
    from CreateTransaction_admitted [OF assms(2) [unfolded Inr]] have
      "mg_stateLock (sy_mgr s) = MUnlocked" "mg_activeStateTx m' = r" "mg_activeStateOwner m' = LockOwnedByRPC"
        "mg_stateLock m' = MLocked" by auto
    with Inr free show ?thesis by simp
  qed
qed

theorem state_changing_requests_exclusive_witness:
  "reachable upgrade_sys \<and> (\<exists>e. fst (CreateTransaction 1 ''r2'' ''s'' ''2'' True ''reboot'' 1 True (sy_mgr upgrade_sys)) = Inl e)"
  using state_changing_requests_exclusive [OF reachable_upgrade prod.collapse [symmetric],
      of 1 "''r2''" "''s''" "''2''" True "''reboot''" 1] reachable_upgrade
  by (auto simp: upgrade_sys_def upgrade_mgr_def)

section \<open>Single calls\<close>

text \<open>C13: completing an in-flight request with a response removes it, and a repetition of the request
  within the method's time to live, under any spelling of its id that has the same key, is
  answered with exactly that response instead of being executed again.\<close>

theorem repeated_request_is_replayed:
  assumes "mgr_inv m" and "live m r = Some tx" and "tx_State tx = TxInFlight" and "\<not> tx_HandoffInProgress tx"
    and "tx_RespondToCloud tx"
    and "CanonicalRequestKey sess cid = Inr (tx_RequestKey tx)"
    and "t < now + TTLForMethod (mg_cacheTTLConfig m) (tx_Method tx)"
    and "method = ''upgrade'' \<longrightarrow> sc"
  shows "fst (Complete now r (Some p) m) = None \<and> live (snd (Complete now r (Some p) m)) r = None
     \<and> CreateTransaction t r' sess cid respond method timeout sc (snd (Complete now r (Some p) m)) =
         (Inl (CachedResponseError p), snd (Complete now r (Some p) m))"
proof -
  have acc: "accepts m r TxCompleted" using assms(2,3) by (simp add: accepts_def is_terminal_def validateTransition_def)
  have c: "Complete now r (Some p) m = terminalTransition now r TxCompleted (Some p) m"
    using assms(2-4) by (simp add: Complete_def preflight_def)
  have key: "tx_RequestKey tx \<noteq> ''''"
    using table_inv_tx [OF mgr_invD(1) [OF assms(1)] assms(2)] assms(5) by (simp add: tx_ok_def)
  then have cid: "cid \<noteq> []" "cid \<noteq> ''null''" using CanonicalRequestKey_empty [OF assms(6)] by auto
  have "cache_Get t (tx_RequestKey tx) (mg_cache (tt now r TxCompleted (Some p) m)) = Some p"
    using acc assms(5,7) by (simp add: tt_cache [OF assms(2)] cache_Get_Set)
  then show ?thesis
    using acc cid assms(6,8) tt_result [of now r TxCompleted "Some p" m]
    by (simp add: c CreateTransaction_def Let_def)
qed

lemma flight_inv: "mgr_inv flight_mgr"
  using sys_invD(1) [OF reachable_inv [OF reachable_flight]] by (simp add: flight_sys_def)

theorem repeated_request_is_replayed_witness:
  "fst (CreateTransaction (9 * Second) ''r2'' ''s'' ''1.0'' True ''upgrade'' 1 True
     (snd (Complete (8 * Second) ''r1'' (Some ''ok'') flight_mgr))) = Inl (CachedResponseError ''ok'')"
proof -
  have "CanonicalRequestKey ''s'' ''1.0'' = Inr ''s:n:1''" by code_simp
  then show ?thesis
    using repeated_request_is_replayed [OF flight_inv flight_live(1), of "''s''" "''1.0''" "9 * Second" "8 * Second"
        "''upgrade''" True "''ok''" "''r2''" True 1]
    by (simp add: flight_tx_def upgrade_tx_def new_tx_def flight_mgr_def upgrade_mgr_def boot_mgr_def TTLForMethod_def)
qed

text \<open>C14: a device that answers faster than the publisher can note the dispatch loses nothing: the
  early reply is kept, and noting the dispatch afterwards leads to exactly the state, cache and
  outgoing response included, that the usual order of the two events leads to.\<close>

theorem early_reply_commutes_with_dispatch:
  assumes "live m r = Some tx" and "tx_State tx = TxPendingPublish" and "\<not> tx_HandoffInProgress tx"
    and "fmlookup (mg_pendingReplies m) r = None"
  shows "fst (Complete now r p m) = None
     \<and> MarkInFlight now r (snd (Complete now r p m)) = Complete now r p (snd (MarkInFlight now r m))
     \<and> live (snd (Complete now r p (snd (MarkInFlight now r m)))) r = None"
proof -
  let ?tx1 = "tx\<lparr>tx_State := TxInFlight\<rparr>"
  let ?tx2 = "?tx1\<lparr>tx_DispatchTimer := stop_timer (tx_DispatchTimer tx),
      tx_ResponseDeadline := Some (now + tx_TimeoutDuration tx),
      tx_ResponseTimer := Some (Armed (now + tx_TimeoutDuration tx))\<rparr>"
  let ?p = "\<lparr>pr_Payload = p, pr_State = TxCompleted\<rparr>"
  have early: "Complete now r p m = (None, add_pending r ?p m)"
    using assms by (simp add: Complete_def preflight_def buffer_reply_def)
  have flight: "MarkInFlight now r m = (None, set_tx r ?tx2 (set_tx r ?tx1 m))"
    using assms by (simp add: MarkInFlight_def validateTransition_def Let_def)
  have left: "MarkInFlight now r (add_pending r ?p m) =
      terminalTransition now r TxCompleted p (drop_pending r (set_tx r ?tx1 (add_pending r ?p m)))"
    using assms by (simp add: MarkInFlight_def validateTransition_def Let_def)
  have right: "Complete now r p (set_tx r ?tx2 (set_tx r ?tx1 m)) =
      terminalTransition now r TxCompleted p (set_tx r ?tx2 (set_tx r ?tx1 m))"
    using assms(3) by (simp add: Complete_def preflight_def)
  have "push_response ?tx1 p n = push_response ?tx2 p n" for n
    by (cases p; cases "mg_scheduler n") (simp_all add: push_response_def)
  then have "MarkInFlight now r (snd (Complete now r p m)) = Complete now r p (snd (MarkInFlight now r m))"
    unfolding early flight snd_conv left right terminalTransition_def
    by (simp add: is_terminal_def validateTransition_def Let_def drop_pending_def add_pending_def set_tx_def
        fmdrop_fmupd split: option.splits)
  moreover have "live (snd (Complete now r p (snd (MarkInFlight now r m)))) r = None"
    unfolding flight snd_conv right by (simp add: accepts_def is_terminal_def validateTransition_def)
  ultimately show ?thesis using early by simp
qed

text \<open>The upgrade request while it is being published.\<close>

definition publish_mgr :: manager where
  "publish_mgr = upgrade_mgr\<lparr>mg_transactionsByRPCID := fmupd ''r1'' (upgrade_tx\<lparr>tx_State := TxPendingPublish\<rparr>) fmempty\<rparr>"

theorem early_reply_commutes_with_dispatch_witness:
  "live publish_mgr ''r1'' \<noteq> None \<and> MarkInFlight 5 ''r1'' (snd (Complete 5 ''r1'' (Some ''ok'') publish_mgr)) =
     Complete 5 ''r1'' (Some ''ok'') (snd (MarkInFlight 5 ''r1'' publish_mgr))"
  using early_reply_commutes_with_dispatch [of publish_mgr "''r1''" "upgrade_tx\<lparr>tx_State := TxPendingPublish\<rparr>" 5 "Some ''ok''"]
  by (simp add: publish_mgr_def upgrade_mgr_def boot_mgr_def upgrade_tx_def new_tx_def)

section \<open>The handoff and the restart\<close>

text \<open>C33: retaining an upgrade that holds the lock, with a store that accepts the record and no other
  event in between, ends the transaction, hands the lock to the new operation without ever
  freeing it, keeps the response for repetitions, and leaves exactly the operation's record in
  the store.\<close>

theorem retain_hands_lock_over:
  assumes "mgr_inv m" and "live m r = Some tx" and "tx_Method tx = ''upgrade''" and "tx_State tx = TxInFlight"
    and "mg_activeStateTx m = r" and "\<not> tx_HandoffInProgress tx" and "fmlookup (mg_pendingReplies m) r = None"
    and "x \<noteq> r" and "tx_RespondToCloud tx"
    and "save (rar_operation now x r tx (mg_bootID m)) d = (None, d')"
  shows "\<exists>m'. RespondAndRetain save delete now x r (Some p) (m, d) = ((x, None), m', d')
     \<and> mg_activeStateTx m' = x \<and> mg_activeStateOwner m' = LockOwnedByOperation \<and> mg_stateLock m' = MLocked
     \<and> live m' r = None
     \<and> cache_Get t (tx_RequestKey tx) (mg_cache m') =
         (if t < now + TTLForMethod (mg_cacheTTLConfig m) ''upgrade'' then Some p else None)"
proof -
  let ?tx = "tx\<lparr>tx_ResponseTimer := stop_timer (tx_ResponseTimer tx), tx_HandoffInProgress := True\<rparr>"
  let ?m = "(set_tx r ?tx m)\<lparr>mg_activeStateOwner := LockTransferPending\<rparr>"
  let ?n = "rar_transfer r x ?m"
  have start: "rar_begin r m = (Inr ?tx, ?m)" using assms(2-6) by (simp add: rar_begin_def Let_def)
  have op: "rar_operation now x r ?tx (GetBootID ?m) = rar_operation now x r tx (mg_bootID m)"
    by (simp add: rar_operation_def GetBootID_def)
  have tx: "live ?n r = Some ?tx" by simp
  have acc: "accepts ?n r TxCompleted"
    using assms(4) by (simp add: accepts_def is_terminal_def validateTransition_def)
  have locked: "mg_stateLock ?n = MLocked"
    using lock_inv_owner [OF mgr_invD(2,1) [OF assms(1)] assms(2,5)] by (simp add: rar_transfer_def)
  have res: "RespondAndRetain save delete now x r (Some p) (m, d) = ((x, None), tt now r TxCompleted (Some p) ?n, d')"
    using start op assms(7,10) acc tt_result [of now r TxCompleted "Some p" ?n]
    by (simp add: RespondAndRetain_def rar_saved_eq Let_def)
  have "mg_cache (tt now r TxCompleted (Some p) ?n) =
      cache_Set now (tx_RequestKey tx) p (TTLForMethod (mg_cacheTTLConfig m) ''upgrade'') (mg_cache m)"
    using acc assms(3,9) by (simp add: tt_cache [OF tx]) (simp add: rar_transfer_def set_tx_def)
  then have "cache_Get t (tx_RequestKey tx) (mg_cache (tt now r TxCompleted (Some p) ?n)) =
      (if t < now + TTLForMethod (mg_cacheTTLConfig m) ''upgrade'' then Some p else None)"
    by (simp add: cache_Get_Set)
  with res acc locked assms(5,8) show ?thesis by simp
qed

theorem retain_hands_lock_over_witness:
  "\<exists>m'. RespondAndRetain (\<lambda>op d. (None, op # d)) (\<lambda>x d. (None, d)) 7 ''o1'' ''r1'' (Some ''ok'') (flight_mgr, []) =
     ((''o1'', None), m', [rar_operation 7 ''o1'' ''r1'' flight_tx ''b'']) \<and> mg_activeStateTx m' = ''o1''"
proof -
  have f: "tx_Method flight_tx = ''upgrade''" "tx_State flight_tx = TxInFlight" "mg_activeStateTx flight_mgr = ''r1''"
    "\<not> tx_HandoffInProgress flight_tx" "fmlookup (mg_pendingReplies flight_mgr) ''r1'' = None" "''o1'' \<noteq> ''r1''"
    "tx_RespondToCloud flight_tx" "mg_bootID flight_mgr = ''b''"
    by (simp_all add: flight_tx_def upgrade_tx_def new_tx_def flight_mgr_def upgrade_mgr_def boot_mgr_def)
  from retain_hands_lock_over [OF flight_inv flight_live(1) f(1-7),
      where save = "\<lambda>op d. (None, op # d)" and now = 7 and d = "[]" and delete = "\<lambda>x d. (None, d)" and p = "''ok''"]
  show ?thesis using f(8) by auto
qed

text \<open>C34: when the store refuses the record before the deadline, the handoff is taken back completely:
  the transaction is in flight again with its timer armed at the old deadline and owns the lock
  as before, and the caller gets the wrapped error. When the deadline has passed meanwhile the
  transaction is timed out and the lock is freed.\<close>

theorem failed_retain_is_rolled_back:
  assumes "mgr_inv m" and "live m r = Some tx" and "tx_Method tx = ''upgrade''" and "tx_State tx = TxInFlight"
    and "mg_activeStateTx m = r" and "\<not> tx_HandoffInProgress tx" and "fmlookup (mg_pendingReplies m) r = None"
    and "tx_ResponseDeadline tx = Some dl"
    and "save (rar_operation now x r tx (mg_bootID m)) d = (Some err, d')"
  shows "\<exists>e m'. RespondAndRetain save delete now x r p (m, d) = (('''', Some e), m', d')
     \<and> (if now < dl then e = EWrap ''failed to persist background operation'' err
          \<and> live m' r = Some (tx\<lparr>tx_ResponseTimer := Some (Armed dl)\<rparr>)
          \<and> mg_activeStateTx m' = r \<and> mg_activeStateOwner m' = LockOwnedByRPC \<and> mg_stateLock m' = MLocked
        else e = ErrAlreadyTerminal \<and> live m' r = None \<and> mg_stateLock m' = MUnlocked)"
proof -
  let ?tx = "tx\<lparr>tx_ResponseTimer := stop_timer (tx_ResponseTimer tx), tx_HandoffInProgress := True\<rparr>"
  let ?m = "(set_tx r ?tx m)\<lparr>mg_activeStateOwner := LockTransferPending\<rparr>"
  let ?n = "rar_retract r ?m"
  have start: "rar_begin r m = (Inr ?tx, ?m)" using assms(2-6) by (simp add: rar_begin_def Let_def)
  have op: "rar_operation now x r ?tx (GetBootID ?m) = rar_operation now x r tx (mg_bootID m)"
    by (simp add: rar_operation_def GetBootID_def)
  have locked: "mg_stateLock m = MLocked"
    using lock_inv_owner [OF mgr_invD(2,1) [OF assms(1)] assms(2,5)] by simp
  have n: "live ?n r = Some (tx\<lparr>tx_ResponseTimer := stop_timer (tx_ResponseTimer tx)\<rparr>)" "mg_activeStateTx ?n = r"
      "mg_activeStateOwner ?n = LockOwnedByRPC" "mg_stateLock ?n = MLocked"
    using assms(5,6) locked by (simp_all add: rar_retract_def Let_def)
  have acc: "accepts ?n r TxTimedOut"
    using n(1) assms(4) by (simp add: accepts_def is_terminal_def validateTransition_def)
  have "RespondAndRetain save delete now x r p (m, d) =
      (case rar_save_failed now r ?tx err ?m of (q, m2) \<Rightarrow> (q, m2, d'))"
    using start op assms(9) by (simp add: RespondAndRetain_def)
  moreover have "rar_save_failed now r ?tx err ?m =
      (if dl - now \<le> 0
       then (('''', Some ErrAlreadyTerminal), tt now r TxTimedOut
              (buildTimeoutResponse (tx\<lparr>tx_ResponseTimer := stop_timer (tx_ResponseTimer tx)\<rparr>)) ?n)
       else (('''', Some (EWrap ''failed to persist background operation'' err)),
             upd_if_live r (\<lambda>tx. tx\<lparr>tx_ResponseTimer := Some (Armed (the (tx_ResponseDeadline tx)))\<rparr>) ?n))"
    unfolding rar_save_failed_eq Let_def using assms(7,8) n(1) by (simp del: rar_retract_frame(1))
  ultimately show ?thesis
    using n acc assms(8) by (cases "now < dl") (simp_all del: rar_retract_frame)
qed

theorem failed_retain_is_rolled_back_witness:
  "\<exists>m'. RespondAndRetain (\<lambda>op d. (Some (EOS ''full''), d)) (\<lambda>x d. (None, d)) (31 * Second) ''o1'' ''r1'' None
       (flight_mgr, ()) = (('''', Some ErrAlreadyTerminal), m', ()) \<and> mg_stateLock m' = MUnlocked"
proof -
  have f: "tx_Method flight_tx = ''upgrade''" "tx_State flight_tx = TxInFlight" "mg_activeStateTx flight_mgr = ''r1''"
    "\<not> tx_HandoffInProgress flight_tx" "fmlookup (mg_pendingReplies flight_mgr) ''r1'' = None"
    "tx_ResponseDeadline flight_tx = Some (30 * Second)"
    by (simp_all add: flight_tx_def upgrade_tx_def new_tx_def flight_mgr_def upgrade_mgr_def boot_mgr_def)
  from failed_retain_is_rolled_back [OF flight_inv flight_live(1) f,
      where save = "\<lambda>op d. (Some (EOS ''full''), d)" and now = "31 * Second" and d = "()" and x = "''o1''" and p = None
        and err = "EOS ''full''" and delete = "\<lambda>x d. (None, d)"]
  show ?thesis by auto
qed

text \<open>The one save failure that is not rolled back cleanly. While the upgrade is still being
  published it has no response deadline; the code reads that as a deadline that has passed,
  tries a time-out that the lifecycle forbids from this state, ignores the refusal, and reports
  \<open>ErrAlreadyTerminal\<close> although the transaction is still live and still owns the lock.\<close>

theorem failed_retain_before_dispatch_reports_terminal:
  assumes "live m r = Some tx" and "tx_Method tx = ''upgrade''" and "tx_State tx = TxPendingPublish"
    and "mg_activeStateTx m = r" and "\<not> tx_HandoffInProgress tx" and "fmlookup (mg_pendingReplies m) r = None"
    and "tx_ResponseDeadline tx = None"
    and "save (rar_operation now x r tx (mg_bootID m)) d = (Some err, d')"
  shows "\<exists>m' tx'. RespondAndRetain save delete now x r p (m, d) = (('''', Some ErrAlreadyTerminal), m', d')
     \<and> live m' r = Some tx' \<and> tx_State tx' = TxPendingPublish
     \<and> mg_activeStateTx m' = r \<and> mg_activeStateOwner m' = LockOwnedByRPC"
proof -
  let ?tx = "tx\<lparr>tx_ResponseTimer := stop_timer (tx_ResponseTimer tx), tx_HandoffInProgress := True\<rparr>"
  let ?m = "(set_tx r ?tx m)\<lparr>mg_activeStateOwner := LockTransferPending\<rparr>"
  let ?n = "rar_retract r ?m"
  have start: "rar_begin r m = (Inr ?tx, ?m)" using assms(1-5) by (simp add: rar_begin_def Let_def)
  have op: "rar_operation now x r ?tx (GetBootID ?m) = rar_operation now x r tx (mg_bootID m)"
    by (simp add: rar_operation_def GetBootID_def)
  have n: "live ?n r = Some (tx\<lparr>tx_ResponseTimer := stop_timer (tx_ResponseTimer tx)\<rparr>)" "mg_activeStateTx ?n = r"
      "mg_activeStateOwner ?n = LockOwnedByRPC"
    using assms(4,5) by (simp_all add: rar_retract_def Let_def)
  have rej: "\<not> accepts ?n r TxTimedOut"
    using n(1) assms(3) by (simp add: accepts_def is_terminal_def validateTransition_def)
  have "rar_save_failed now r ?tx err ?m = (('''', Some ErrAlreadyTerminal),
      tt now r TxTimedOut (buildTimeoutResponse (tx\<lparr>tx_ResponseTimer := stop_timer (tx_ResponseTimer tx)\<rparr>)) ?n)"
    unfolding rar_save_failed_eq Let_def using assms(6,7) n(1) by (simp del: rar_retract_frame(1))
  then have "RespondAndRetain save delete now x r p (m, d) = (('''', Some ErrAlreadyTerminal), ?n, d')"
    using start op assms(8) tt_rejected [OF rej, of now] by (simp add: RespondAndRetain_def) (metis snd_conv)
  with n assms(3) show ?thesis by auto
qed

theorem failed_retain_before_dispatch_reports_terminal_witness:
  "\<exists>m'. RespondAndRetain (\<lambda>op d. (Some (EOS ''full''), d)) (\<lambda>x d. (None, d)) 9 ''o1'' ''r1'' None (publish_mgr, ()) =
     (('''', Some ErrAlreadyTerminal), m', ()) \<and> live m' ''r1'' \<noteq> None"
proof -
  have f: "live publish_mgr ''r1'' = Some (upgrade_tx\<lparr>tx_State := TxPendingPublish\<rparr>)"
    "tx_Method (upgrade_tx\<lparr>tx_State := TxPendingPublish\<rparr>) = ''upgrade''"
    "tx_State (upgrade_tx\<lparr>tx_State := TxPendingPublish\<rparr>) = TxPendingPublish" "mg_activeStateTx publish_mgr = ''r1''"
    "\<not> tx_HandoffInProgress (upgrade_tx\<lparr>tx_State := TxPendingPublish\<rparr>)"
    "fmlookup (mg_pendingReplies publish_mgr) ''r1'' = None"
    "tx_ResponseDeadline (upgrade_tx\<lparr>tx_State := TxPendingPublish\<rparr>) = None"
    by (simp_all add: publish_mgr_def upgrade_tx_def new_tx_def upgrade_mgr_def boot_mgr_def)
  from failed_retain_before_dispatch_reports_terminal [OF f,
      where save = "\<lambda>op d. (Some (EOS ''full''), d)" and d = "()" and delete = "\<lambda>x d. (None, d)" and now = 9
        and x = "''o1''" and p = None and err = "EOS ''full''"]
  show ?thesis by auto
qed

text \<open>The reference for the recovery loop: the records of other boots are collected, and the first of
  the others that has not expired, the newest one in the store's order, gets the lock.\<close>

definition recovered :: "instant \<Rightarrow> manager \<Rightarrow> persistent_operation list \<Rightarrow> persistent_operation option" where
  "recovered now m ops =
     find (\<lambda>op. \<not> stale_boot (mg_bootID m) op \<and> \<not> op_expired now (mg_sweeperTTL m) op) ops"

lemma start_loop_taken:
  "mg_activeStateTx m \<noteq> '''' \<Longrightarrow>
     start_loop now ops st m = (st @ map po_OperationID (filter (stale_boot (mg_bootID m)) ops), m)"
  by (induction ops arbitrary: st) auto

lemma start_loop_recovers:
  assumes "mg_stateLock m = MUnlocked" and "mg_activeStateTx m = ''''" and "\<And>op. op \<in> set ops \<Longrightarrow> po_OperationID op \<noteq> ''''"
  shows "start_loop now ops st m =
     (st @ map po_OperationID (filter (stale_boot (mg_bootID m)) ops),
      case recovered now m ops of
        None \<Rightarrow> m
      | Some op \<Rightarrow> m\<lparr>mg_stateLock := MLocked, mg_activeStateTx := po_OperationID op,
                     mg_activeStateOwner := LockOwnedByOperation\<rparr>)"
  using assms(3)
proof (induction ops arbitrary: st)
  case Nil
  then show ?case by (simp add: recovered_def)
next
  case (Cons op ops)
  then show ?case using assms(1,2) by (auto simp: recovered_def start_loop_taken)
qed

text \<open>C35: after a restart the manager takes the state lock for exactly the newest record of the current
  boot that has not expired, if there is one, deletes exactly the records of earlier boots, and
  changes nothing else.\<close>

theorem restart_recovers_newest_operation:
  assumes "NewRequestManager bf dt ttl c sch True maxc sttl rl = Inr m"
    and "get_active rl d = (Inr ops, d1)" and "\<forall>op \<in> set ops. po_OperationID op \<noteq> ''''"
  shows "Start get_active delete now (m, d) =
     (case recovered now m ops of
        None \<Rightarrow> m
      | Some op \<Rightarrow> m\<lparr>mg_stateLock := MLocked, mg_activeStateTx := po_OperationID op,
                     mg_activeStateOwner := LockOwnedByOperation\<rparr>,
      fold (\<lambda>x s. snd (delete x s)) (map po_OperationID (filter (stale_boot (mg_bootID m)) ops)) d1)"
proof -
  have m: "mg_stateLock m = MUnlocked" "mg_activeStateTx m = ''''" "mg_activeRecordLimit m = rl"
    using assms(1) by (auto simp: NewRequestManager_def split: option.splits)
  show ?thesis
    using start_loop_recovers [OF m(1,2), of ops now "[]"] assms(2,3) m(3)
    by (simp add: Start_def)
qed

theorem restart_recovers_newest_operation_witness:
  "mg_activeStateTx (fst (Start (\<lambda>n d. (Inr [left_op], d)) (\<lambda>x d. (None, d)) 0 (boot_mgr, ()))) = ''o1''"
proof -
  have "ParseRFC3339 (FormatRFC3339 0) = Some 0"
    using ParseRFC3339_Format [of 0] by (simp add: days_before_year_def)
  then have "recovered 0 boot_mgr [left_op] = Some left_op"
    by (simp add: recovered_def stale_boot_def op_expired_def boot_mgr_def left_op_def rar_operation_def time_Sub_def)
  moreover have "po_OperationID left_op = ''o1''" by (simp add: left_op_def rar_operation_def)
  ultimately show ?thesis
    using restart_recovers_newest_operation [OF boot_new, of "\<lambda>n d. (Inr [left_op], d)" "()" "[left_op]" "()"
        "\<lambda>x d. (None, d)" 0]
    by simp
qed

text \<open>The record that a retained upgrade leaves behind is understood by the next process: with the
  clock between the years 0 and 9999 its time stamp reads back as the whole second it was
  written in, so a restart on the same boot re-acquires the lock until the time to live has
  passed, counted from that second, and a restart on another boot never does.\<close>

theorem retained_operation_survives_restart:
  assumes "- int unix_epoch_days * 86400 * Second \<le> t"
    and "t < (int (days_before_year 10000) - int unix_epoch_days) * 86400 * Second"
    and "0 \<le> now - t" and "now - t < 2 ^ 62" and "sttl < 2 ^ 62"
  shows "(op_expired now sttl (rar_operation t x r tx boot) \<longleftrightarrow> sttl < now - (t - t mod Second))
     \<and> (stale_boot boot' (rar_operation t x r tx boot) \<longleftrightarrow> boot' \<noteq> '''' \<and> boot \<noteq> '''' \<and> boot' \<noteq> boot)"
proof (rule conjI)
  have "now - (t - t mod Second) < 2 ^ 63 - 1"
    using assms(4) pos_mod_bound [of Second t] by simp
  moreover have "- (2 ^ 63) < now - (t - t mod Second)"
    using assms(3) pos_mod_sign [of Second t] by simp
  ultimately show "op_expired now sttl (rar_operation t x r tx boot) \<longleftrightarrow> sttl < now - (t - t mod Second)"
    using ParseRFC3339_Format [OF assms(1,2)] by (simp add: op_expired_def rar_operation_def time_Sub_def)
  show "stale_boot boot' (rar_operation t x r tx boot) \<longleftrightarrow> boot' \<noteq> '''' \<and> boot \<noteq> '''' \<and> boot' \<noteq> boot"
    by (auto simp: stale_boot_def rar_operation_def)
qed

theorem retained_operation_survives_restart_witness:
  "\<not> op_expired (20 * Second) (600 * Second) (rar_operation (19 * Second) ''o1'' ''r1'' flight_tx ''b'')
     \<and> stale_boot ''c'' (rar_operation (19 * Second) ''o1'' ''r1'' flight_tx ''b'')"
  using retained_operation_survives_restart [of "19 * Second" "20 * Second" "600 * Second" "''o1''" "''r1''" flight_tx "''b''" "''c''"]
  by (simp add: days_before_year_def)

end
