(* ===== verification/Store_Props.thy ===== *)
theory Store_Props
  imports Op_Store Manager_Props "HOL-Library.Multiset"
begin

text \<open>
  What the durable store promises: its records survive encoding, \<open>Save\<close> is atomic, \<open>GetActive\<close>
  lists the newest usable records and quarantines nothing else than corrupt files. The promise is
  the locale \<open>operation_store\<close>, of which the disk is an interpretation; the request manager's
  recovery after a crash is proved from it.
\<close>

section \<open>Encoding\<close>

definition plain_op :: "persistent_operation \<Rightarrow> bool" where
  "plain_op op \<longleftrightarrow> list_all (list_all plain)
     [po_OperationID op, po_RPCID op, po_Target op, po_Action op, po_Stage op, po_Status op,
      po_BootID op, po_CreatedAt op, po_UpdatedAt op] \<and> id_text (po_CloudRPCID op)"

definition op_members :: "persistent_operation \<Rightarrow> (bytes \<times> bytes) list" where
  "op_members op =
     [(''operation_id'', json_quote (po_OperationID op)), (''rpc_id'', json_quote (po_RPCID op)),
      (''cloud_rpc_id'', po_CloudRPCID op), (''target'', json_quote (po_Target op)),
      (''action'', json_quote (po_Action op)), (''stage'', json_quote (po_Stage op)),
      (''status'', json_quote (po_Status op)), (''active'', if po_Active op then ''true'' else ''false'')]
     @ (if po_BootID op = [] then [] else [(''boot_id'', json_quote (po_BootID op))])
     @ [(''created_at'', json_quote (po_CreatedAt op)), (''updated_at'', json_quote (po_UpdatedAt op))]"

lemma op_members_ok: "plain_op op \<Longrightarrow> members_ok (op_members op)"
  by (simp add: members_ok_def op_members_def plain_op_def scalar_quote id_text_scalar scalar_bool
      plain_def html_char_def)

lemma id_text_nonempty: "id_text v \<Longrightarrow> v \<noteq> []"
  using id_text_scalar [of v] by (simp add: scalar_text_def)

lemma op_Marshal_text: "plain_op op \<Longrightarrow> op_Marshal op = Some (object_text (op_members op))"
  using id_text_nonempty [of "po_CloudRPCID op"]
  by (simp add: op_Marshal_def plain_op_def id_text_marshal object_text_def op_members_def)

lemma set_members_Nil: "set_members st fds [] s = (s, False)"
  by (simp add: set_members_def)

lemma op_roundtrip: "plain_op op \<Longrightarrow> op_Unmarshal (object_text (op_members op)) = Some op"
  by (simp add: op_Unmarshal_def json_Unmarshal_object op_members_ok)
    (simp add: set_members_def op_members_def plain_op_def find_field_def op_fields_def on_field_def
      dec_bool_def dec_raw_def zero_operation_def)

section \<open>Names\<close>

text \<open>The random part of a temporary name is the text of a UUID: 36 characters, none of them a
  full stop. Such a name does not end in \<open>.json\<close>, so no temporary file is ever read as a record.\<close>

definition tmp_ok :: "save_env \<Rightarrow> bool" where
  "tmp_ok env \<longleftrightarrow> length (se_tmp env) = 36 \<and> CHR ''.'' \<notin> set (se_tmp env)"

lemma tmp_not_json: "tmp_ok env \<Longrightarrow> x @ ''.json'' \<noteq> y @ ''.tmp.'' @ se_tmp env"
proof
  assume ok: "tmp_ok env" and eq: "x @ ''.json'' = y @ ''.tmp.'' @ se_tmp env"
  have "drop (length (x @ ''.json'') - 5) (x @ ''.json'') = ''.json''" by simp
  moreover have "drop (length (y @ ''.tmp.'' @ se_tmp env) - 5) (y @ ''.tmp.'' @ se_tmp env) = drop 31 (se_tmp env)"
    using ok by (simp add: tmp_ok_def)
  ultimately have "drop 31 (se_tmp env) = ''.json''" using eq by simp
  then have "CHR ''.'' \<in> set (drop 31 (se_tmp env))" by simp
  then show False using ok in_set_dropD unfolding tmp_ok_def by metis
qed

lemma tmp_not_target: "tmp_ok env \<Longrightarrow> y @ ''.tmp.'' @ se_tmp env \<noteq> x @ ''.json''"
  using tmp_not_json [of env x y] by auto

section \<open>Save\<close>

lemmas file_lookups = set_file_def del_file_def remove_tmp_def

text \<open>Every state of the disk during a \<open>Save\<close>: only the temporary file and the target differ, and the
  target has its old or its complete new content.\<close>

definition save_state :: "bytes \<Rightarrow> bytes \<Rightarrow> bytes \<Rightarrow> disk \<Rightarrow> disk \<Rightarrow> bool" where
  "save_state tmp target data d d' \<longleftrightarrow> dk_quarantine d' = dk_quarantine d
     \<and> (\<forall>name. name \<noteq> tmp \<and> name \<noteq> target \<longrightarrow> fmlookup (dk_files d') name = fmlookup (dk_files d) name)
     \<and> (fmlookup (dk_files d') target = fmlookup (dk_files d) target
        \<or> fmlookup (dk_files d') target = Some data)"

lemma save_state_tmp:
  "save_state tmp target data d d1 \<Longrightarrow> tmp \<noteq> target \<Longrightarrow> save_state tmp target data d (set_file tmp x d1)"
  "save_state tmp target data d d1 \<Longrightarrow> tmp \<noteq> target \<Longrightarrow> save_state tmp target data d (remove_tmp env tmp d1)"
  "save_state tmp target data d d1 \<Longrightarrow> tmp \<noteq> target \<Longrightarrow> save_state tmp target data d (del_file tmp d1)"
  "save_state tmp target data d d1 \<Longrightarrow> save_state tmp target data d (set_file target data d1)"
  by (auto simp: save_state_def file_lookups)

lemma save_state_refl: "save_state tmp target data d d"
  by (simp add: save_state_def)

lemma getPath_Inr: "getPath uuid_ok x = Inr p \<longleftrightarrow> uuid_ok x \<and> p = x @ ''.json''"
  by (auto simp: getPath_def)

lemma Save_steps_state:
  assumes "Save_steps uuid_ok env (Some op) d = (r, ds)" and "d' \<in> set ds" and "tmp_ok env"
  shows "\<exists>data. op_Marshal op = Some data \<and> uuid_ok (po_OperationID op)
     \<and> save_state ((po_OperationID op @ ''.json'') @ ''.tmp.'' @ se_tmp env) (po_OperationID op @ ''.json'') data d d'"
proof -
  define target where "target = po_OperationID op @ ''.json''"
  define tmp where "tmp = target @ ''.tmp.'' @ se_tmp env"
  have neq: "tmp \<noteq> target" using tmp_not_target [OF assms(3)] by (simp add: tmp_def target_def)
  have "op_Marshal op \<noteq> None \<and> uuid_ok (po_OperationID op)"
    using assms(1,2) by (auto simp: Save_steps_def getPath_def split: option.splits if_splits)
  then obtain data where data: "op_Marshal op = Some data" and u: "uuid_ok (po_OperationID op)" by blast
  have path: "getPath uuid_ok (po_OperationID op) = Inr target" using u by (simp add: getPath_def target_def)
  have "save_state tmp target data d d'"
    using assms(1,2) neq unfolding Save_steps_def option.case data path sum.case tmp_def [symmetric] Let_def
    by (auto split: option.splits prod.splits intro!: save_state_tmp save_state_refl)
  then show ?thesis using data u by (simp add: tmp_def target_def)
qed

lemma Save_steps_done:
  assumes "Save_steps uuid_ok env (Some op) d = (None, ds)"
  shows "\<exists>data. op_Marshal op = Some data \<and> uuid_ok (po_OperationID op) \<and> ds \<noteq> []
     \<and> last ds = set_file (po_OperationID op @ ''.json'') data
         (del_file ((po_OperationID op @ ''.json'') @ ''.tmp.'' @ se_tmp env) d)"
  using assms
  by (auto simp: Save_steps_def getPath_def Let_def set_file_def del_file_def fmdrop_fmupd
      split: option.splits if_splits prod.splits)

section \<open>The records on the disk\<close>

text \<open>The usable record of an identifier: what a scan would return for its file.\<close>

definition disk_records :: "(bytes \<Rightarrow> bool) \<Rightarrow> disk \<Rightarrow> bytes \<Rightarrow> persistent_operation option" where
  "disk_records uuid_ok d x =
     (case fmlookup (dk_files d) (x @ ''.json'') of None \<Rightarrow> None | Some data \<Rightarrow>
        (case classify uuid_ok (x @ ''.json'') data of Usable op \<Rightarrow> Some op | _ \<Rightarrow> None))"

lemma classify_Usable:
  "classify uuid_ok name data = Usable op \<longleftrightarrow> op_Unmarshal data = Some op \<and> uuid_ok (po_OperationID op)
     \<and> name = po_OperationID op @ ''.json'' \<and> ParseRFC3339 (po_UpdatedAt op) \<noteq> None \<and> po_Active op"
  by (auto simp: classify_def split: option.splits if_splits)

lemma disk_records_Some:
  "disk_records uuid_ok d x = Some op \<longleftrightarrow> po_OperationID op = x
     \<and> (\<exists>data. fmlookup (dk_files d) (x @ ''.json'') = Some data \<and> classify uuid_ok (x @ ''.json'') data = Usable op)"
proof -
  have "classify uuid_ok (x @ ''.json'') data = Usable op \<Longrightarrow> po_OperationID op = x" for data
    by (simp add: classify_Usable)
  then show ?thesis by (auto simp: disk_records_def split: option.splits entry_class.splits)
qed

text \<open>The operations that the store takes as they are: those the request manager writes.\<close>

definition storable :: "(bytes \<Rightarrow> bool) \<Rightarrow> persistent_operation \<Rightarrow> bool" where
  "storable uuid_ok op \<longleftrightarrow> plain_op op \<and> uuid_ok (po_OperationID op) \<and> po_Active op
     \<and> ParseRFC3339 (po_UpdatedAt op) \<noteq> None"

lemma storable_usable:
  "storable uuid_ok op \<Longrightarrow> op_Marshal op = Some data \<Longrightarrow>
     classify uuid_ok (po_OperationID op @ ''.json'') data = Usable op"
  by (auto simp: storable_def classify_Usable op_Marshal_text op_roundtrip)

lemma save_state_records:
  assumes "save_state ((po_OperationID op @ ''.json'') @ ''.tmp.'' @ se_tmp env) (po_OperationID op @ ''.json'') data d d'"
    and "tmp_ok env" and "storable uuid_ok op" and "op_Marshal op = Some data"
  shows "disk_records uuid_ok d' = disk_records uuid_ok d
     \<or> disk_records uuid_ok d' = (disk_records uuid_ok d)(po_OperationID op \<mapsto> op)"
proof -
  have other: "disk_records uuid_ok d' x = disk_records uuid_ok d x" if "x \<noteq> po_OperationID op" for x
    using assms(1) that tmp_not_json [OF assms(2), of x "po_OperationID op @ ''.json''"]
    by (simp add: save_state_def disk_records_def)
  have "disk_records uuid_ok d' (po_OperationID op) = disk_records uuid_ok d (po_OperationID op)
     \<or> disk_records uuid_ok d' (po_OperationID op) = Some op"
    using assms(1) storable_usable [OF assms(3,4)] by (auto simp: save_state_def disk_records_def)
  then show ?thesis
  proof
    assume "disk_records uuid_ok d' (po_OperationID op) = disk_records uuid_ok d (po_OperationID op)"
    then have "disk_records uuid_ok d' x = disk_records uuid_ok d x" for x using other by metis
    then show ?thesis by blast
  next
    assume "disk_records uuid_ok d' (po_OperationID op) = Some op"
    then show ?thesis using other by (auto simp: fun_eq_iff)
  qed
qed

lemma disk_Save_ok:
  assumes "disk_Save uuid_ok env (Some op) d = (None, d')" and "tmp_ok env" and "storable uuid_ok op"
  shows "disk_records uuid_ok d' = (disk_records uuid_ok d)(po_OperationID op \<mapsto> op)"
proof -
  obtain ds where "Save_steps uuid_ok env (Some op) d = (None, ds)"
    using assms(1) by (auto simp: disk_Save_def split: prod.splits)
  from Save_steps_done [OF this] this assms(1) obtain data where data: "op_Marshal op = Some data"
    and d': "d' = set_file (po_OperationID op @ ''.json'') data
         (del_file ((po_OperationID op @ ''.json'') @ ''.tmp.'' @ se_tmp env) d)"
    by (auto simp: disk_Save_def)
  have "x @ ''.json'' \<noteq> (po_OperationID op @ ''.json'') @ ''.tmp.'' @ se_tmp env" for x
    using tmp_not_json [OF assms(2)] .
  then show ?thesis
    using storable_usable [OF assms(3) data]
    by (auto simp: d' fun_eq_iff disk_records_def set_file_def del_file_def)
qed

lemma disk_Save_any:
  assumes "disk_Save uuid_ok env (Some op) d = (r, d')" and "tmp_ok env" and "storable uuid_ok op"
  shows "disk_records uuid_ok d' = disk_records uuid_ok d
     \<or> disk_records uuid_ok d' = (disk_records uuid_ok d)(po_OperationID op \<mapsto> op)"
proof -
  obtain ds where ds: "Save_steps uuid_ok env (Some op) d = (r, ds)"
    and d': "d' = (if ds = [] then d else last ds)"
    using assms(1) by (auto simp: disk_Save_def split: prod.splits)
  show ?thesis
  proof (cases "ds = []")
    case False
    then have "d' \<in> set ds" using d' by simp
    from Save_steps_state [OF ds this assms(2)] show ?thesis
      using save_state_records [OF _ assms(2,3)] by blast
  qed (simp add: d')
qed

lemma disk_Delete_ok:
  "disk_Delete uuid_ok env x d = (None, d') \<Longrightarrow> disk_records uuid_ok d' = (disk_records uuid_ok d)(x := None)"
  by (auto simp: disk_Delete_def deletePathDurably_def getPath_def del_file_def disk_records_def fun_eq_iff Let_def
      split: option.splits if_splits)

lemma disk_Delete_any:
  "disk_Delete uuid_ok env x d = (r, d') \<Longrightarrow> disk_records uuid_ok d' = disk_records uuid_ok d
     \<or> disk_records uuid_ok d' = (disk_records uuid_ok d)(x := None)"
  by (auto simp: disk_Delete_def deletePathDurably_def getPath_def del_file_def disk_records_def fun_eq_iff Let_def
      split: option.splits if_splits)

section \<open>The directory scan\<close>

definition entry_op :: "(bytes \<Rightarrow> bool) \<Rightarrow> scan_env \<Rightarrow> disk \<Rightarrow> bytes \<Rightarrow> persistent_operation option" where
  "entry_op uuid_ok env d name =
     (if HasSuffix name ''.json'' \<and> \<not> ge_read env name then
        (case fmlookup (dk_files d) name of None \<Rightarrow> None | Some data \<Rightarrow>
          (case classify uuid_ok name data of Usable op \<Rightarrow> Some op | _ \<Rightarrow> None))
      else None)"

lemma quarantine_lookup:
  "n \<noteq> name \<Longrightarrow> fmlookup (dk_files (snd (quarantinePathDurably env name d))) n = fmlookup (dk_files d) n"
  by (auto simp: quarantinePathDurably_def Let_def del_file_def split: option.splits)

lemma quarantine_dom:
  "fmlookup (dk_files (snd (quarantinePathDurably env name d))) name \<in> {None, fmlookup (dk_files d) name}"
  by (auto simp: quarantinePathDurably_def Let_def del_file_def split: option.splits)

lemma entry_op_cong:
  "\<forall>n \<in> set names. fmlookup (dk_files d') n = fmlookup (dk_files d) n \<Longrightarrow>
     List.map_filter (entry_op uuid_ok env d') names = List.map_filter (entry_op uuid_ok env d) names"
proof -
  assume "\<forall>n \<in> set names. fmlookup (dk_files d') n = fmlookup (dk_files d) n"
  then have "\<forall>n \<in> set names. entry_op uuid_ok env d' n = entry_op uuid_ok env d n" by (simp add: entry_op_def)
  then show ?thesis by (induction names) (simp_all add: map_filter_simps split: option.splits)
qed

lemma scan_entries_ops:
  "scan_entries uuid_ok env names acc d = (Inr ops, d') \<Longrightarrow> distinct names \<Longrightarrow>
     ops = acc @ List.map_filter (entry_op uuid_ok env d) names"
proof (induction uuid_ok env names acc d rule: scan_entries.induct)
  case (2 uuid_ok env name names acc d)
  have "\<forall>n \<in> set names. fmlookup (dk_files (snd (quarantinePathDurably env name d))) n = fmlookup (dk_files d) n"
    using "2.prems"(2) by (auto intro: quarantine_lookup)
  note cong = entry_op_cong [OF this, of uuid_ok env]
  show ?case
  proof (cases "HasSuffix name ''.json'' \<and> \<not> ge_read env name")
    case False
    then have "entry_op uuid_ok env d name = None" unfolding entry_op_def by (rule if_not_P)
    then show ?thesis using 2 False by (auto simp: map_filter_simps split: option.splits if_splits)
  next
    case True
    then have "entry_op uuid_ok env d name =
        (case fmlookup (dk_files d) name of None \<Rightarrow> None | Some data \<Rightarrow>
          (case classify uuid_ok name data of Usable op \<Rightarrow> Some op | _ \<Rightarrow> None))"
      by (simp add: entry_op_def)
    then show ?thesis
      using 2 True cong
      by (auto simp: map_filter_simps split: option.splits if_splits entry_class.splits)
  qed
qed (simp add: map_filter_simps)

text \<open>A scan leaves every file in place but some that are corrupt.\<close>

definition files_kept :: "(bytes \<Rightarrow> bool) \<Rightarrow> disk \<Rightarrow> disk \<Rightarrow> bool" where
  "files_kept uuid_ok d d' \<longleftrightarrow> (\<forall>n. fmlookup (dk_files d') n = fmlookup (dk_files d) n
     \<or> fmlookup (dk_files d') n = None
       \<and> (\<exists>data. fmlookup (dk_files d) n = Some data \<and> classify uuid_ok n data = Corrupt))"

lemma files_kept_refl [simp]: "files_kept uuid_ok d d"
  by (simp add: files_kept_def)

lemma files_kept_quarantine:
  assumes "fmlookup (dk_files d) name = Some data" and "classify uuid_ok name data = Corrupt"
    and "files_kept uuid_ok (snd (quarantinePathDurably env name d)) d'"
  shows "files_kept uuid_ok d d'"
  unfolding files_kept_def
proof
  fix n
  show "fmlookup (dk_files d') n = fmlookup (dk_files d) n \<or> fmlookup (dk_files d') n = None
       \<and> (\<exists>data. fmlookup (dk_files d) n = Some data \<and> classify uuid_ok n data = Corrupt)"
  proof (cases "n = name")
    case True
    then show ?thesis
      using assms quarantine_dom [of env name d] unfolding files_kept_def by (metis empty_iff insert_iff)
  next
    case False
    then show ?thesis using assms(3) quarantine_lookup [OF False, of env d] unfolding files_kept_def by metis
  qed
qed

lemma scan_entries_files:
  "scan_entries uuid_ok env names acc d = (r, d') \<Longrightarrow> files_kept uuid_ok d d'"
proof (induction uuid_ok env names acc d rule: scan_entries.induct)
  case (2 uuid_ok env name names acc d)
  then show ?case
    by (auto split: option.splits if_splits entry_class.splits dest: files_kept_quarantine)
qed simp

lemma files_kept_records:
  assumes "files_kept uuid_ok d d'"
  shows "disk_records uuid_ok d' = disk_records uuid_ok d"
proof
  fix x
  have "fmlookup (dk_files d') (x @ ''.json'') = fmlookup (dk_files d) (x @ ''.json'')
     \<or> fmlookup (dk_files d') (x @ ''.json'') = None
       \<and> (\<exists>data. fmlookup (dk_files d) (x @ ''.json'') = Some data \<and> classify uuid_ok (x @ ''.json'') data = Corrupt)"
    using assms by (simp add: files_kept_def)
  then show "disk_records uuid_ok d' x = disk_records uuid_ok d x"
    by (auto simp: disk_records_def)
qed

section \<open>GetActive\<close>

lemma entry_op_record:
  "entry_op uuid_ok env d name = Some op \<Longrightarrow>
     name = po_OperationID op @ ''.json'' \<and> disk_records uuid_ok d (po_OperationID op) = Some op"
  by (auto simp: entry_op_def disk_records_Some classify_Usable split: if_splits option.splits entry_class.splits)

lemma map_filter_names:
  "(\<And>n op. f n = Some op \<Longrightarrow> n = g op) \<Longrightarrow> map g (List.map_filter f names) = filter (\<lambda>n. f n \<noteq> None) names"
  by (induction names) (auto simp: map_filter_simps split: option.splits)

lemma set_map_filter: "set (List.map_filter f xs) = {y. \<exists>x \<in> set xs. f x = Some y}"
  by (induction xs) (auto simp: map_filter_simps split: option.splits)

lemma set_sort_newest [simp]: "set (sort_newest env ops) = set ops"
  and length_sort_newest [simp]: "length (sort_newest env ops) = length ops"
  and sorted_sort_newest: "sorted (map (\<lambda>op. - updated_at op) (sort_newest env ops))"
  by (simp_all add: sort_newest_def)

lemma mset_sort_newest: "mset (sort_newest env ops) = mset ops"
  by (simp add: sort_newest_def)

lemma distinct_sort_newest: "distinct (map f (sort_newest env ops)) \<longleftrightarrow> distinct (map f ops)"
  using mset_sort_newest [of env ops] by (metis mset_map mset_eq_imp_distinct_iff)

lemma ReadDir_facts: "set (ReadDir d) = fset (fmdom (dk_files d))" "distinct (ReadDir d)"
  by (simp_all add: ReadDir_def sorted_list_of_fset.rep_eq)

text \<open>The content of a successful answer before it is cut to the limit.\<close>

lemma disk_GetActive_ok:
  assumes "disk_GetActive uuid_ok env limit d = (Inr ops, d')"
  shows "files_kept uuid_ok d d'"
    and "\<exists>all. all = sort_newest env (List.map_filter (entry_op uuid_ok env d) (ReadDir d))
      \<and> ops = (if limit > 0 \<and> int (length all) > limit then take (nat limit) all else all)"
proof -
  obtain allOps where scan: "scan_entries uuid_ok env (ReadDir d) [] d = (Inr allOps, d')"
    and ops: "ops = (let ops = sort_newest env allOps
        in if limit > 0 \<and> int (length ops) > limit then take (nat limit) ops else ops)"
    using assms by (auto simp: disk_GetActive_def Let_def split: option.splits prod.splits sum.splits)
  show "files_kept uuid_ok d d'" by (rule scan_entries_files [OF scan])
  have "allOps = List.map_filter (entry_op uuid_ok env d) (ReadDir d)"
    using scan_entries_ops [OF scan ReadDir_facts(2)] by simp
  then show "\<exists>all. all = sort_newest env (List.map_filter (entry_op uuid_ok env d) (ReadDir d))
      \<and> ops = (if limit > 0 \<and> int (length all) > limit then take (nat limit) all else all)"
    using ops by (simp add: Let_def)
qed

lemma take_sorted_cut:
  assumes "sorted (map f xs)" and "x \<in> set xs" and "x \<notin> set (take n xs)" and "y \<in> set (take n xs)"
  shows "f y \<le> (f x :: int)"
proof -
  have "x \<in> set (drop n xs)" using assms(2,3) by (metis Un_iff append_take_drop_id set_append)
  moreover have "sorted (map f (take n xs) @ map f (drop n xs))"
    using assms(1) by (metis append_take_drop_id map_append)
  ultimately show ?thesis using assms(4) by (auto simp: sorted_append)
qed

definition newest_first :: "persistent_operation list \<Rightarrow> bool" where
  "newest_first ops \<longleftrightarrow> sorted (map (\<lambda>op. - updated_at op) ops)"

lemma disk_GetActive_spec:
  assumes "disk_GetActive uuid_ok env limit d = (Inr ops, d')"
  shows "newest_first ops" and "distinct (map po_OperationID ops)" and "limit > 0 \<longrightarrow> int (length ops) \<le> limit"
    and "op \<in> set ops \<Longrightarrow> disk_records uuid_ok d (po_OperationID op) = Some op"
    and "disk_records uuid_ok d x = Some op \<Longrightarrow> \<not> ge_read env (x @ ''.json'') \<Longrightarrow>
      op \<in> set ops \<or> (0 < limit \<and> int (length ops) = limit \<and> (\<forall>op' \<in> set ops. updated_at op \<le> updated_at op'))"
proof -
  let ?es = "List.map_filter (entry_op uuid_ok env d) (ReadDir d)"
  define all where "all = sort_newest env ?es"
  from disk_GetActive_ok(2) [OF assms] have
    ops: "ops = (if limit > 0 \<and> int (length all) > limit then take (nat limit) all else all)" by (simp add: all_def)
  have sorted: "sorted (map (\<lambda>op. - updated_at op) all)" by (simp add: all_def sorted_sort_newest)
  then show "newest_first ops" by (simp add: ops newest_first_def take_map [symmetric] sorted_wrt_take)
  have names: "map (\<lambda>op. po_OperationID op @ ''.json'') ?es = filter (\<lambda>n. entry_op uuid_ok env d n \<noteq> None) (ReadDir d)"
    by (rule map_filter_names) (simp add: entry_op_record)
  have "distinct (map (\<lambda>op. po_OperationID op @ ''.json'') ?es)"
    unfolding names using ReadDir_facts(2) by simp
  then have "distinct (map po_OperationID ?es)" by (simp add: distinct_map inj_on_def)
  then have "distinct (map po_OperationID all)" by (simp add: all_def distinct_sort_newest)
  then show "distinct (map po_OperationID ops)" by (simp add: ops take_map [symmetric] distinct_take)
  show "limit > 0 \<longrightarrow> int (length ops) \<le> limit" by (auto simp: ops)
  have sub: "set ops \<subseteq> set all" by (auto simp: ops dest: in_set_takeD)
  have all: "set all = {op. \<exists>n \<in> set (ReadDir d). entry_op uuid_ok env d n = Some op}"
    by (simp add: all_def set_map_filter)
  show "op \<in> set ops \<Longrightarrow> disk_records uuid_ok d (po_OperationID op) = Some op"
    using sub by (auto simp: all dest: entry_op_record)
  assume r: "disk_records uuid_ok d x = Some op" "\<not> ge_read env (x @ ''.json'')"
  then obtain data where "fmlookup (dk_files d) (x @ ''.json'') = Some data"
      "classify uuid_ok (x @ ''.json'') data = Usable op" by (auto simp: disk_records_Some)
  then have "entry_op uuid_ok env d (x @ ''.json'') = Some op" "x @ ''.json'' \<in> set (ReadDir d)"
    using r(2) by (simp_all add: entry_op_def HasSuffix_def ReadDir_facts fmdomI)
  then have "op \<in> set all" by (auto simp: all)
  then show "op \<in> set ops \<or> (0 < limit \<and> int (length ops) = limit \<and> (\<forall>op' \<in> set ops. updated_at op \<le> updated_at op'))"
    using take_sorted_cut [OF sorted, of op "nat limit"] by (auto simp: ops)
qed

section \<open>The contract\<close>

text \<open>
  What the request manager relies on. \<open>records\<close> is the store seen as a map from identifiers to
  active records. A call that reports an error may still have taken effect; one that reports
  success has. A scan that can read every file (\<open>readable\<close>) returns the newest records.
\<close>

locale operation_store =
  fixes records :: "'s \<Rightarrow> bytes \<Rightarrow> persistent_operation option"
    and save :: "'e \<Rightarrow> persistent_operation \<Rightarrow> 's \<Rightarrow> go_error option \<times> 's"
    and delete :: "'f \<Rightarrow> bytes \<Rightarrow> 's \<Rightarrow> go_error option \<times> 's"
    and get_active :: "'g \<Rightarrow> int \<Rightarrow> 's \<Rightarrow> persistent_operation list result \<times> 's"
    and admissible :: "persistent_operation \<Rightarrow> bool"
    and fresh_name :: "'e \<Rightarrow> bool"
    and readable :: "'g \<Rightarrow> bool"
  assumes save_ok: "save e op s = (None, s') \<Longrightarrow> fresh_name e \<Longrightarrow> admissible op \<Longrightarrow>
      records s' = (records s)(po_OperationID op \<mapsto> op)"
    and save_any: "save e op s = (r, s') \<Longrightarrow> fresh_name e \<Longrightarrow> admissible op \<Longrightarrow>
      records s' = records s \<or> records s' = (records s)(po_OperationID op \<mapsto> op)"
    and delete_ok: "delete f x s = (None, s') \<Longrightarrow> records s' = (records s)(x := None)"
    and delete_any: "delete f x s = (r, s') \<Longrightarrow> records s' = records s \<or> records s' = (records s)(x := None)"
    and scan_keeps: "get_active g n s = (r', s') \<Longrightarrow> records s' = records s"
    and scan_sorted: "get_active g n s = (Inr ops, s') \<Longrightarrow> newest_first ops"
    and scan_sound: "get_active g n s = (Inr ops, s') \<Longrightarrow> op \<in> set ops \<Longrightarrow> records s (po_OperationID op) = Some op"
    and scan_complete: "get_active g n s = (Inr ops, s') \<Longrightarrow> readable g \<Longrightarrow> records s x = Some op \<Longrightarrow>
      op \<in> set ops \<or> (0 < n \<and> int (length ops) = n \<and> (\<forall>op' \<in> set ops. updated_at op \<le> updated_at op'))"
begin

lemma deletes_keep:
  "x \<notin> set xs \<Longrightarrow> records (fold (\<lambda>x s. snd (delete f x s)) xs s) x = records s x"
proof (induction xs arbitrary: s)
  case (Cons y xs)
  have "records (snd (delete f y s)) x = records s x"
    using delete_any [of f y s "fst (delete f y s)" "snd (delete f y s)"] Cons.prems by auto
  with Cons show ?case by simp
qed simp

lemma newest_is_first:
  assumes "get_active g n s = (Inr ops, s')" and "readable g" and "records s x = Some op" "po_OperationID op = x"
    and "\<And>y op'. records s y = Some op' \<Longrightarrow> y \<noteq> x \<Longrightarrow> updated_at op' < updated_at op"
  shows "\<exists>rest. ops = op # rest"
proof -
  have other: "op' = op \<or> updated_at op' < updated_at op" if "op' \<in> set ops" for op'
    using scan_sound [OF assms(1) that] assms(3,5) by (cases "po_OperationID op' = x") auto
  have mem: "op \<in> set ops"
  proof (rule ccontr)
    assume "op \<notin> set ops"
    with scan_complete [OF assms(1-3)] have "0 < n" "int (length ops) = n"
      "\<forall>op' \<in> set ops. updated_at op \<le> updated_at op'" by auto
    then obtain op' where "op' \<in> set ops" "updated_at op \<le> updated_at op'" by (cases ops) auto
    with other \<open>op \<notin> set ops\<close> show False by fastforce
  qed
  then obtain o1 rest where ops: "ops = o1 # rest" by (cases ops) auto
  have "updated_at op \<le> updated_at o1" using scan_sorted [OF assms(1)] mem by (auto simp: ops newest_first_def)
  with other [of o1] ops show ?thesis by auto
qed

lemma deleted_not_listed:
  "delete f x s = (None, s1) \<Longrightarrow> get_active g n s1 = (Inr ops, s2) \<Longrightarrow> op \<in> set ops \<Longrightarrow> po_OperationID op \<noteq> x"
  using delete_ok scan_sound by fastforce

text \<open>The recovery of a manager that starts on a store whose newest record is of its own boot and
  has not expired: it holds the lock for that record, and the record stays.\<close>

lemma Start_recovers:
  assumes "mg_stateLock m = MUnlocked" and "mg_activeStateTx m = ''''"
    and "get_active g (mg_activeRecordLimit m) s = (Inr ops, s')" and "readable g"
    and "records s x = Some op" and "po_OperationID op = x" and "records s '''' = None"
    and "\<And>y op'. records s y = Some op' \<Longrightarrow> y \<noteq> x \<Longrightarrow> updated_at op' < updated_at op"
    and "\<not> stale_boot (mg_bootID m) op" and "\<not> op_expired now (mg_sweeperTTL m) op"
  shows "fst (Start (get_active g) (delete f) now (m, s)) =
       m\<lparr>mg_stateLock := MLocked, mg_activeStateTx := x, mg_activeStateOwner := LockOwnedByOperation\<rparr>"
    and "records (snd (Start (get_active g) (delete f) now (m, s))) x = Some op"
proof -
  obtain rest where ops: "ops = op # rest" using newest_is_first [OF assms(3-6)] assms(8) by blast
  have ids: "po_OperationID op' \<noteq> ''''" if "op' \<in> set ops" for op'
    using scan_sound [OF assms(3) that] assms(7) by auto
  have rec: "recovered now m ops = Some op" using assms(9,10) by (simp add: recovered_def ops)
  have start: "Start (get_active g) (delete f) now (m, s) =
      (m\<lparr>mg_stateLock := MLocked, mg_activeStateTx := x, mg_activeStateOwner := LockOwnedByOperation\<rparr>,
       fold (\<lambda>x s. snd (delete f x s)) (map po_OperationID (filter (stale_boot (mg_bootID m)) ops)) s')"
    using start_loop_recovers [OF assms(1,2) ids, where st = "[]" and now = now] assms(3,6) by (simp add: Start_def rec)
  have "x \<notin> set (map po_OperationID (filter (stale_boot (mg_bootID m)) ops))"
    using scan_sound [OF assms(3)] assms(5,9) by auto
  then show "records (snd (Start (get_active g) (delete f) now (m, s))) x = Some op"
    using deletes_keep scan_keeps [OF assms(3)] assms(5) by (simp add: start)
  show "fst (Start (get_active g) (delete f) now (m, s)) =
       m\<lparr>mg_stateLock := MLocked, mg_activeStateTx := x, mg_activeStateOwner := LockOwnedByOperation\<rparr>"
    by (simp add: start)
qed

end

lemma disk_GetActive_keeps: "disk_GetActive uuid_ok env limit d = (r, d') \<Longrightarrow> files_kept uuid_ok d d'"
  by (auto simp: disk_GetActive_def Let_def split: option.splits prod.splits sum.splits dest: scan_entries_files)

text \<open>The disk store keeps the contract, whatever the UUID library accepts.\<close>

interpretation disk: operation_store "disk_records uuid_ok" "\<lambda>env op. disk_Save uuid_ok env (Some op)"
  "disk_Delete uuid_ok" "disk_GetActive uuid_ok" "storable uuid_ok" tmp_ok "\<lambda>env. \<forall>n. \<not> ge_read env n"
  for uuid_ok
proof (unfold_locales, goal_cases)
  case (2 e op s r s')
  then show ?case by (rule disk_Save_any)
next
  case (4 f x s r s')
  then show ?case by (rule disk_Delete_any)
next
  case (8 g n s ops s' x op)
  then show ?case using disk_GetActive_spec(5) by blast
qed (auto intro: disk_Save_ok disk_Save_any disk_Delete_ok disk_Delete_any files_kept_records
    disk_GetActive_keeps disk_GetActive_spec)

section \<open>Concrete stores\<close>

definition uuid36 :: "bytes \<Rightarrow> bool" where "uuid36 x \<longleftrightarrow> length x = 36"

definition demo_id :: bytes where "demo_id = ''6ba7b810-9dad-11d1-80b4-00c04fd430c8''"

definition demo_op :: persistent_operation where
  "demo_op = \<lparr>po_OperationID = demo_id, po_RPCID = ''r1'', po_CloudRPCID = ''7'', po_Target = ''system'',
     po_Action = ''upgrade'', po_Stage = ''started'', po_Status = ''started'', po_Active = True, po_BootID = ''b'',
     po_CreatedAt = ''1970-01-01T00:00:00Z'', po_UpdatedAt = ''1970-01-01T00:00:00Z''\<rparr>"

definition good_save :: save_env where
  "good_save = \<lparr>se_ctx = None, se_tmp = demo_id, se_open = None, se_write = None, se_sync = None, se_close = None,
     se_rename = None, se_remove_fails = False, se_opendir = None, se_syncdir = None\<rparr>"

definition good_delete :: delete_env where
  "good_delete = \<lparr>de_ctx = None, de_remove = None, de_opendir = None, de_syncdir = None\<rparr>"

definition good_scan :: scan_env where
  "good_scan = \<lparr>ge_ctx = None, ge_readdir = None, ge_ctx_at = (\<lambda>_. None), ge_read = (\<lambda>_. False), ge_now = (\<lambda>_. 0),
     ge_rename = (\<lambda>_. None), ge_qsync = (\<lambda>_. None), ge_psync = (\<lambda>_. None), ge_tie = (\<lambda>_. 0)\<rparr>"

abbreviation empty_disk :: disk where "empty_disk \<equiv> \<lparr>dk_files = fmempty, dk_quarantine = fmempty\<rparr>"

lemma seven: "show_int 7 = ''7''"
  by code_simp

lemma plain_demo_id [simp]: "list_all plain demo_id"
  by (simp add: demo_id_def plain_def html_char_def)

lemma demo_plain: "plain_op demo_op"
proof -
  have "id_text ''7''" unfolding id_text_def using seven by metis
  then show ?thesis by (simp add: plain_op_def demo_op_def) (simp add: plain_def html_char_def)
qed

lemma good_tmp: "tmp_ok good_save"
  by (simp add: tmp_ok_def good_save_def demo_id_def)

lemma good_save_works:
  "plain_op op \<Longrightarrow> uuid_ok (po_OperationID op) \<Longrightarrow> \<exists>d'. disk_Save uuid_ok good_save (Some op) d = (None, d')"
  by (simp add: disk_Save_def Save_steps_def getPath_def good_save_def op_Marshal_text Let_def)

lemma good_scan_entries: "\<exists>ops d'. scan_entries uuid_ok good_scan names acc d = (Inr ops, d')"
proof (induction uuid_ok good_scan names acc d rule: scan_entries.induct)
  case (2 uuid_ok name names acc d)
  then show ?case by (simp add: good_scan_def split: option.splits entry_class.splits)
qed simp

lemma good_scan_works: "\<exists>ops d'. disk_GetActive uuid_ok good_scan n d = (Inr ops, d')"
proof -
  obtain ops d' where "scan_entries uuid_ok good_scan (ReadDir d) [] d = (Inr ops, d')"
    using good_scan_entries [of uuid_ok "ReadDir d" "[]" d] by auto
  moreover have "ge_ctx good_scan = None" "ge_readdir good_scan = None" by (simp_all add: good_scan_def)
  ultimately show ?thesis by (simp add: disk_GetActive_def Let_def)
qed

section \<open>Properties\<close>

text \<open>C32: an operation whose texts are plain and whose cloud identifier is an integer or a plain string
  is read back from its file exactly as it was written.\<close>

theorem operation_record_roundtrip:
  "plain_op op \<Longrightarrow> \<exists>data. op_Marshal op = Some data \<and> op_Unmarshal data = Some op"
  by (simp add: op_Marshal_text op_roundtrip)

theorem operation_record_roundtrip_witness:
  "\<exists>data. op_Marshal demo_op = Some data \<and> op_Unmarshal data = Some demo_op"
  by (rule operation_record_roundtrip [OF demo_plain])

text \<open>C29: Save is atomic. In every state the disk goes through, whatever system call fails and wherever a
  crash stops it, the file of the operation has its old content or the complete new one, every
  other file but the temporary one is as before, and the quarantine is untouched; when Save
  reports success the file holds the new content.\<close>

theorem save_is_atomic:
  assumes "Save_steps uuid_ok env (Some op) d = (r, ds)" and "tmp_ok env"
  shows "(\<forall>d' \<in> set ds. dk_quarantine d' = dk_quarantine d
       \<and> fmlookup (dk_files d') (po_OperationID op @ ''.json'')
          \<in> {fmlookup (dk_files d) (po_OperationID op @ ''.json''), op_Marshal op}
       \<and> (\<forall>name. name \<noteq> po_OperationID op @ ''.json'' \<and> name \<noteq> po_OperationID op @ ''.json.tmp.'' @ se_tmp env
            \<longrightarrow> fmlookup (dk_files d') name = fmlookup (dk_files d) name))
     \<and> (r = None \<longrightarrow> op_Marshal op \<noteq> None \<and>
          fmlookup (dk_files (snd (disk_Save uuid_ok env (Some op) d))) (po_OperationID op @ ''.json'') = op_Marshal op)"
proof (intro conjI ballI impI)
  fix d' assume "d' \<in> set ds"
  from Save_steps_state [OF assms(1) this assms(2)] obtain data where data: "op_Marshal op = Some data"
    and st: "save_state ((po_OperationID op @ ''.json'') @ ''.tmp.'' @ se_tmp env) (po_OperationID op @ ''.json'') data d d'"
    by blast
  then show "dk_quarantine d' = dk_quarantine d"
    "fmlookup (dk_files d') (po_OperationID op @ ''.json'')
        \<in> {fmlookup (dk_files d) (po_OperationID op @ ''.json''), op_Marshal op}"
    "\<forall>name. name \<noteq> po_OperationID op @ ''.json'' \<and> name \<noteq> po_OperationID op @ ''.json.tmp.'' @ se_tmp env
        \<longrightarrow> fmlookup (dk_files d') name = fmlookup (dk_files d) name"
    by (auto simp: save_state_def)
next
  assume "r = None"
  then show "op_Marshal op \<noteq> None" "fmlookup (dk_files (snd (disk_Save uuid_ok env (Some op) d))) (po_OperationID op @ ''.json'')
      = op_Marshal op"
    using Save_steps_done [of uuid_ok env op d ds] assms(1) by (auto simp: disk_Save_def set_file_def)
qed

theorem save_is_atomic_witness:
  "fmlookup (dk_files (snd (disk_Save uuid36 good_save (Some demo_op) empty_disk))) (demo_id @ ''.json'') = op_Marshal demo_op
     \<and> op_Marshal demo_op \<noteq> None"
proof -
  have "uuid36 (po_OperationID demo_op)" by (simp add: uuid36_def demo_op_def demo_id_def)
  then obtain d' where "disk_Save uuid36 good_save (Some demo_op) empty_disk = (None, d')"
    using good_save_works [OF demo_plain] by blast
  then obtain ds where "Save_steps uuid36 good_save (Some demo_op) empty_disk = (None, ds)"
    by (auto simp: disk_Save_def split: prod.splits)
  from save_is_atomic [OF this good_tmp] show ?thesis by (simp add: demo_op_def)
qed

text \<open>C31: a successful GetActive returns each usable active record at most once and nothing else, newest
  first, at most \<open>limit\<close> of them, and a record that can be read is left out only when the limit is
  reached and every record returned is at least as new. No usable record is moved by the scan:
  exactly corrupt files may go to the quarantine.\<close>

theorem get_active_lists_newest:
  assumes "disk_GetActive uuid_ok env limit d = (Inr ops, d')"
  shows "sorted (map (\<lambda>op. - updated_at op) ops) \<and> distinct (map po_OperationID ops)
     \<and> (limit > 0 \<longrightarrow> int (length ops) \<le> limit)
     \<and> (\<forall>op \<in> set ops. disk_records uuid_ok d (po_OperationID op) = Some op)
     \<and> (\<forall>x op. disk_records uuid_ok d x = Some op \<and> \<not> ge_read env (x @ ''.json'') \<longrightarrow>
          op \<in> set ops \<or> (0 < limit \<and> int (length ops) = limit \<and> (\<forall>op' \<in> set ops. updated_at op \<le> updated_at op')))
     \<and> (\<forall>n. fmlookup (dk_files d') n \<noteq> fmlookup (dk_files d) n \<longrightarrow>
          fmlookup (dk_files d') n = None
          \<and> (\<exists>data. fmlookup (dk_files d) n = Some data \<and> classify uuid_ok n data = Corrupt))"
proof -
  have kept: "\<forall>n. fmlookup (dk_files d') n \<noteq> fmlookup (dk_files d) n \<longrightarrow> fmlookup (dk_files d') n = None
          \<and> (\<exists>data. fmlookup (dk_files d) n = Some data \<and> classify uuid_ok n data = Corrupt)"
    using disk_GetActive_ok(1) [OF assms] unfolding files_kept_def by metis
  show ?thesis
    using disk_GetActive_spec(1-3) [OF assms] disk_GetActive_spec(4,5) [OF assms] kept
    unfolding newest_first_def by blast
qed

theorem get_active_lists_newest_witness:
  "\<exists>d1 ops d2. disk_Save uuid36 good_save (Some demo_op) empty_disk = (None, d1)
     \<and> disk_GetActive uuid36 good_scan 5 d1 = (Inr ops, d2) \<and> (demo_op \<in> set ops \<or> length ops = 5)"
proof -
  have u: "uuid36 (po_OperationID demo_op)" by (simp add: uuid36_def demo_op_def demo_id_def)
  then obtain d1 where d1: "disk_Save uuid36 good_save (Some demo_op) empty_disk = (None, d1)"
    using good_save_works [OF demo_plain] by blast
  have "ParseRFC3339 (po_UpdatedAt demo_op) \<noteq> None" unfolding demo_op_def by code_simp
  then have "storable uuid36 demo_op" using u demo_plain by (simp add: storable_def demo_op_def)
  from disk.save_ok [OF d1 good_tmp this] have r: "disk_records uuid36 d1 (po_OperationID demo_op) = Some demo_op" by simp
  obtain ops d2 where g: "disk_GetActive uuid36 good_scan 5 d1 = (Inr ops, d2)" using good_scan_works by blast
  have "\<not> ge_read good_scan (po_OperationID demo_op @ ''.json'')" by (simp add: good_scan_def)
  with get_active_lists_newest [OF g] r have "demo_op \<in> set ops \<or> length ops = 5" by fastforce
  with d1 g show ?thesis by blast
qed

text \<open>C30: seen through its usable records, the disk is a map: Save of an operation of the manager is an
  update, Delete is a removal, and GetActive changes nothing. A call that reports an error has
  either had its full effect on the map or none.\<close>

theorem disk_store_refines_map:
  assumes "tmp_ok e" and "storable uuid_ok op"
  shows "(case disk_Save uuid_ok e (Some op) d of (r, d') \<Rightarrow>
         disk_records uuid_ok d' = (disk_records uuid_ok d)(po_OperationID op \<mapsto> op)
         \<or> r \<noteq> None \<and> disk_records uuid_ok d' = disk_records uuid_ok d)
     \<and> (case disk_Delete uuid_ok f x d of (r, d') \<Rightarrow>
         disk_records uuid_ok d' = (disk_records uuid_ok d)(x := None)
         \<or> r \<noteq> None \<and> disk_records uuid_ok d' = disk_records uuid_ok d)
     \<and> disk_records uuid_ok (snd (disk_GetActive uuid_ok g n d)) = disk_records uuid_ok d"
proof -
  obtain r1 d1 where 1: "disk_Save uuid_ok e (Some op) d = (r1, d1)" by fastforce
  obtain r2 d2 where 2: "disk_Delete uuid_ok f x d = (r2, d2)" by fastforce
  obtain r3 d3 where 3: "disk_GetActive uuid_ok g n d = (r3, d3)" by fastforce
  have "disk_records uuid_ok d1 = (disk_records uuid_ok d)(po_OperationID op \<mapsto> op)
      \<or> r1 \<noteq> None \<and> disk_records uuid_ok d1 = disk_records uuid_ok d"
  proof (cases r1)
    case None
    then show ?thesis using disk.save_ok [OF 1 [unfolded None] assms] by blast
  next
    case (Some a)
    then show ?thesis using disk.save_any [OF 1 assms] by blast
  qed
  moreover have "disk_records uuid_ok d2 = (disk_records uuid_ok d)(x := None)
      \<or> r2 \<noteq> None \<and> disk_records uuid_ok d2 = disk_records uuid_ok d"
  proof (cases r2)
    case None
    then show ?thesis using disk.delete_ok [OF 2 [unfolded None]] by blast
  next
    case (Some a)
    then show ?thesis using disk.delete_any [OF 2] by blast
  qed
  ultimately show ?thesis unfolding 1 2 3 prod.case snd_conv using disk.scan_keeps [OF 3] by blast
qed

lemma demo_storable: "storable uuid36 demo_op"
proof -
  have "ParseRFC3339 (po_UpdatedAt demo_op) \<noteq> None" unfolding demo_op_def by code_simp
  moreover have "uuid36 (po_OperationID demo_op)" "po_Active demo_op"
    by (simp_all add: uuid36_def demo_op_def demo_id_def)
  ultimately show ?thesis using demo_plain by (simp add: storable_def)
qed

theorem disk_store_refines_map_witness:
  "disk_records uuid36 (snd (disk_Save uuid36 good_save (Some demo_op) empty_disk)) demo_id = Some demo_op"
proof -
  obtain d' where d': "disk_Save uuid36 good_save (Some demo_op) empty_disk = (None, d')"
    using good_save_works [OF demo_plain, of uuid36] demo_storable by (auto simp: storable_def)
  have "po_OperationID demo_op = demo_id" by (simp add: demo_op_def)
  with d' disk_store_refines_map [OF good_tmp demo_storable, where d = empty_disk]
  show ?thesis by simp
qed

lemma dig_plain: "plain (dig n)"
proof -
  have "code (dig n) = 48 + n mod 10" by (simp add: dig_def)
  moreover have "n mod 10 < 10" by simp
  ultimately have c: "48 \<le> code (dig n)" "code (dig n) \<le> 57" by simp_all
  then have "dig n \<noteq> CHR 0x22" "dig n \<noteq> CHR 0x5C" "\<not> html_char (dig n)" by (auto simp: html_char_def)
  with c show ?thesis by (simp add: plain_def)
qed

lemma plain_time: "list_all plain (FormatRFC3339 t)"
proof -
  have "plain (CHR ''-'')" "plain (CHR '':'')" "plain (CHR ''T'')" "plain (CHR ''Z'')"
    by (simp_all add: plain_def html_char_def)
  then show ?thesis by (simp add: FormatRFC3339_def Let_def show2_def show4_def dig_plain split: prod.splits)
qed

lemma rar_storable:
  assumes "- int unix_epoch_days * 86400 * Second \<le> t"
    and "t < (int (days_before_year 10000) - int unix_epoch_days) * 86400 * Second"
    and "uuid_ok x" and "list_all plain (x @ r @ boot)" and "id_text (tx_CloudRPCID tx)"
  shows "storable uuid_ok (rar_operation t x r tx boot)"
    and "updated_at (rar_operation t x r tx boot) = t - t mod Second"
proof -
  have p: "list_all plain ''system''" "list_all plain ''upgrade''" "list_all plain ''started''"
    by (simp_all add: plain_def html_char_def)
  have "plain_op (rar_operation t x r tx boot)"
    using p assms(4,5) plain_time by (simp add: plain_op_def rar_operation_def)
  then show "storable uuid_ok (rar_operation t x r tx boot)"
    "updated_at (rar_operation t x r tx boot) = t - t mod Second"
    using assms(3) ParseRFC3339_Format [OF assms(1,2)] by (simp_all add: storable_def rar_operation_def updated_at_def)
qed

text \<open>C28: an upgrade survives a crash of the client. Once the record of a retained upgrade is saved on
  the disk, a client that starts again on the same boot within the time to live, on a disk where
  that record is the newest and which can be scanned, holds the state lock for exactly that
  operation, and the record is still there.\<close>

theorem crash_recovers_retained_operation:
  assumes "disk_Save uuid_ok e (Some (rar_operation t x r tx boot)) d = (None, d1)" and "tmp_ok e"
    and "\<not> uuid_ok ''''" and "uuid_ok x" and "list_all plain (x @ r @ boot)" and "id_text (tx_CloudRPCID tx)"
    and "- int unix_epoch_days * 86400 * Second \<le> t"
    and "t < (int (days_before_year 10000) - int unix_epoch_days) * 86400 * Second"
    and "\<forall>y op. disk_records uuid_ok d y = Some op \<and> y \<noteq> x \<longrightarrow> updated_at op < t - t mod Second"
    and "NewRequestManager bf dt ttl c sch True maxc sttl rl = Inr m" and "mg_bootID m = boot"
    and "t \<le> now" and "now - (t - t mod Second) \<le> sttl" and "sttl < 2 ^ 62"
    and "disk_GetActive uuid_ok g rl d1 = (Inr ops, d2)" and "\<forall>n. \<not> ge_read g n"
  shows "fst (Start (disk_GetActive uuid_ok g) (disk_Delete uuid_ok f) now (m, d1)) =
       m\<lparr>mg_stateLock := MLocked, mg_activeStateTx := x, mg_activeStateOwner := LockOwnedByOperation\<rparr>
     \<and> disk_records uuid_ok (snd (Start (disk_GetActive uuid_ok g) (disk_Delete uuid_ok f) now (m, d1))) x
       = Some (rar_operation t x r tx boot)"
proof -
  let ?op = "rar_operation t x r tx boot"
  note op = rar_storable [of t uuid_ok x r boot tx, OF assms(7,8,4,5,6)]
  have recs: "disk_records uuid_ok d1 = (disk_records uuid_ok d)(x \<mapsto> ?op)"
    using disk.save_ok [OF assms(1,2) op(1)] by (simp add: rar_operation_def)
  have m: "mg_stateLock m = MUnlocked" "mg_activeStateTx m = ''''" "mg_activeRecordLimit m = rl" "mg_sweeperTTL m = sttl"
    using assms(10) by (auto simp: NewRequestManager_def split: option.splits)
  have time: "ParseRFC3339 (po_UpdatedAt ?op) = Some (t - t mod Second)"
    using ParseRFC3339_Format [OF assms(7,8)] by (simp add: rar_operation_def)
  have diff: "now - (t - t mod Second) < 2 ^ 63 - 1" "- (2 ^ 63) < now - (t - t mod Second)"
    using assms(12-14) pos_mod_sign [of Second t] by simp_all
  have fresh: "\<not> op_expired now (mg_sweeperTTL m) ?op" "\<not> stale_boot (mg_bootID m) ?op"
    using time diff assms(11,13) m(4) by (simp_all add: op_expired_def time_Sub_def stale_boot_def rar_operation_def)
  have none: "disk_records uuid_ok d1 '''' = None"
  proof (rule ccontr)
    assume "disk_records uuid_ok d1 '''' \<noteq> None"
    then obtain op where "disk_records uuid_ok d1 '''' = Some op" by blast
    then show False using assms(3) by (auto simp: disk_records_Some classify_Usable)
  qed
  have older: "updated_at op' < updated_at ?op" if "disk_records uuid_ok d1 y = Some op'" "y \<noteq> x" for y op'
    using that assms(9) op(2) by (simp add: recs)
  have scan: "disk_GetActive uuid_ok g (mg_activeRecordLimit m) d1 = (Inr ops, d2)" using assms(15) m(3) by simp
  have "disk_records uuid_ok d1 x = Some ?op" "po_OperationID ?op = x" by (simp_all add: recs rar_operation_def)
  note this none older fresh(2,1)
  from disk.Start_recovers [OF m(1,2) scan assms(16) this, where f = f]
  show ?thesis by simp
qed

lemma flight_saved: "\<exists>d1. disk_Save uuid36 good_save (Some (rar_operation 0 demo_id ''r1'' flight_tx ''b'')) empty_disk = (None, d1)"
  and flight_id: "list_all plain (demo_id @ ''r1'' @ ''b'')" "id_text (tx_CloudRPCID flight_tx)" "uuid36 demo_id"
proof -
  have "show_int 1 = ''1''" by code_simp
  then have "id_text ''1''" unfolding id_text_def by metis
  then show i: "id_text (tx_CloudRPCID flight_tx)" by (simp add: flight_tx_def upgrade_tx_def new_tx_def)
  show p: "list_all plain (demo_id @ ''r1'' @ ''b'')" by (simp add: plain_def html_char_def)
  show u: "uuid36 demo_id" by (simp add: uuid36_def demo_id_def)
  from rar_storable(1) [of 0 uuid36 demo_id "''r1''" "''b''" flight_tx, OF _ _ u p i] have "storable uuid36 (rar_operation 0 demo_id ''r1'' flight_tx ''b'')"
    by (simp add: days_before_year_def)
  then show "\<exists>d1. disk_Save uuid36 good_save (Some (rar_operation 0 demo_id ''r1'' flight_tx ''b'')) empty_disk = (None, d1)"
    using good_save_works by (auto simp: storable_def)
qed

theorem crash_recovers_retained_operation_witness:
  "\<exists>d1. disk_Save uuid36 good_save (Some (rar_operation 0 demo_id ''r1'' flight_tx ''b'')) empty_disk = (None, d1)
     \<and> mg_activeStateTx (fst (Start (disk_GetActive uuid36 good_scan) (disk_Delete uuid36 good_delete) Second (boot_mgr, d1))) = demo_id"
proof -
  obtain d1 where d1: "disk_Save uuid36 good_save (Some (rar_operation 0 demo_id ''r1'' flight_tx ''b'')) empty_disk = (None, d1)"
    using flight_saved by blast
  obtain ops d2 where g: "disk_GetActive uuid36 good_scan 10 d1 = (Inr ops, d2)" using good_scan_works by blast
  have f: "\<not> uuid36 ''''" "mg_bootID boot_mgr = ''b''" "\<forall>n. \<not> ge_read good_scan n"
    "\<forall>y op. disk_records uuid36 empty_disk y = Some op \<and> y \<noteq> demo_id \<longrightarrow> updated_at op < 0 - 0 mod Second"
    by (simp_all add: uuid36_def boot_mgr_def good_scan_def disk_records_def)
  have year: "- int unix_epoch_days * 86400 * Second \<le> 0" "0 < (int (days_before_year 10000) - int unix_epoch_days) * 86400 * Second"
    by (simp_all add: days_before_year_def)
  from crash_recovers_retained_operation [OF d1 good_tmp f(1) flight_id(3,1,2) year f(4) boot_new f(2) _ _ _ g f(3),
      where now = Second and f = good_delete]
  show ?thesis using d1 by simp
qed

end
