(* ===== verification/Go_Url.thy ===== *)
theory Go_Url
  imports Go_Json
begin

text \<open>
  The parts of \<open>net/url\<close> and \<open>net\<close> that the client uses: \<open>url.ParseRequestURI\<close> and
  \<open>url.Parse\<close> with the host grammar of Go 1.26, \<open>Hostname\<close> and \<open>Port\<close>, and \<open>net.ParseIP\<close> with \<open>IsLoopback\<close> and \<open>IsPrivate\<close>.
\<close>

section \<open>Searching in texts\<close>

definition Cut :: "char \<Rightarrow> bytes \<Rightarrow> bytes \<times> bytes" where
  "Cut c s = (takeWhile (\<lambda>x. x \<noteq> c) s, drop 1 (dropWhile (\<lambda>x. x \<noteq> c) s))"

text \<open>The part before the last occurrence of a byte and the part after it.\<close>

definition cut_last :: "char \<Rightarrow> bytes \<Rightarrow> (bytes \<times> bytes) option" where
  "cut_last c s =
     (if c \<in> set s then
        (let after = rev (takeWhile (\<lambda>x. x \<noteq> c) (rev s))
         in Some (take (length s - length after - 1) s, after))
      else None)"

fun split_pct25 :: "bytes \<Rightarrow> (bytes \<times> bytes) option" where
  "split_pct25 [] = None"
| "split_pct25 (c # cs) =
     (if take 3 (c # cs) = ''%25'' then Some ([], c # cs)
      else map_option (\<lambda>(a, b). (c # a, b)) (split_pct25 cs))"

definition is_alpha :: "char \<Rightarrow> bool" where
  "is_alpha c \<longleftrightarrow> (97 \<le> code c \<and> code c \<le> 122) \<or> (65 \<le> code c \<and> code c \<le> 90)"

section \<open>IP addresses\<close>

text \<open>\<open>parseIPv4Fields\<close>: four decimal fields of at most 255 without leading zeros.\<close>

fun split_dots :: "bytes \<Rightarrow> bytes list" where
  "split_dots [] = [[]]"
| "split_dots (c # cs) =
     (if c = CHR ''.'' then [] # split_dots cs
      else case split_dots cs of f # fs \<Rightarrow> (c # f) # fs | [] \<Rightarrow> [[c]])"

definition octet_ok :: "bytes \<Rightarrow> bool" where
  "octet_ok f \<longleftrightarrow> f \<noteq> [] \<and> list_all is_digit f \<and> (hd f = CHR ''0'' \<longrightarrow> length f = 1) \<and> digits_val f \<le> 255"

definition parse_ipv4 :: "bytes \<Rightarrow> nat list option" where
  "parse_ipv4 s =
     (let fs = split_dots s
      in if length fs = 4 \<and> list_all octet_ok fs then Some (map digits_val fs) else None)"

definition hex_number :: "bytes \<Rightarrow> nat" where
  "hex_number ds = foldl (\<lambda>a c. 16 * a + hex_val c) 0 ds"

text \<open>The loop of \<open>parseIPv6\<close> over the 16-bit groups; the accumulator has the groups read so far
  and the position of the ellipsis. A trailing dotted IPv4 address gives the last two groups.\<close>

fun ipv6_groups :: "nat \<Rightarrow> bytes \<Rightarrow> nat list \<Rightarrow> nat option \<Rightarrow> (nat list \<times> nat option) option" where
  "ipv6_groups 0 s gs el = None"
| "ipv6_groups (Suc fuel) s gs el =
     (if 8 \<le> length gs then (if s = [] then Some (gs, el) else None)
      else
        let ds = takeWhile is_hex s; r = drop (length ds) s
        in if ds = [] \<or> 4 < length ds then None
           else if take 1 r = ''.'' then
             (if el = None \<and> length gs \<noteq> 6 \<or> 6 < length gs then None
              else case parse_ipv4 s of
                Some [a, b, c, d] \<Rightarrow> Some (gs @ [256 * a + b, 256 * c + d], el)
              | _ \<Rightarrow> None)
           else
             let gs1 = gs @ [hex_number ds]
             in if r = [] then Some (gs1, el)
                else if hd r \<noteq> CHR '':'' \<or> length r = 1 then None
                else if hd (tl r) = CHR '':'' then
                  (if el \<noteq> None then None
                   else if length r = 2 then Some (gs1, Some (length gs1))
                   else ipv6_groups fuel (drop 2 r) gs1 (Some (length gs1)))
                else ipv6_groups fuel (tl r) gs1 el)"

definition expand_ellipsis :: "nat list \<times> nat option \<Rightarrow> nat list option" where
  "expand_ellipsis p =
     (case p of (gs, el) \<Rightarrow>
        if length gs < 8 then
          (case el of None \<Rightarrow> None
           | Some k \<Rightarrow> Some (take k gs @ replicate (8 - length gs) 0 @ drop k gs))
        else (case el of None \<Rightarrow> Some gs | Some k \<Rightarrow> None))"

definition parse_ipv6 :: "bytes \<Rightarrow> nat list option" where
  "parse_ipv6 s =
     (if take 2 s = ''::'' then
        (if length s = 2 then Some (replicate 8 0)
         else Option.bind (ipv6_groups 9 (drop 2 s) [] (Some 0)) expand_ellipsis)
      else Option.bind (ipv6_groups 9 s [] None) expand_ellipsis)"

datatype ip_addr = IPv4 "nat list" | IPv6 "nat list" bytes

text \<open>\<open>netip.ParseAddr\<close>, the second component of an IPv6 address being its zone.\<close>

definition ParseAddr :: "bytes \<Rightarrow> ip_addr option" where
  "ParseAddr s =
     (case find (\<lambda>c. c = CHR ''.'' \<or> c = CHR '':'' \<or> c = CHR ''%'') s of
        None \<Rightarrow> None
      | Some c \<Rightarrow>
          if c = CHR ''.'' then map_option IPv4 (parse_ipv4 s)
          else if c = CHR ''%'' then None
          else (case Cut (CHR ''%'') s of (a, z) \<Rightarrow>
                  if CHR ''%'' \<in> set s \<and> z = [] then None else map_option (\<lambda>gs. IPv6 gs z) (parse_ipv6 a)))"

text \<open>\<open>net.ParseIP\<close> has no zones; an IPv4-mapped address counts as IPv4 in \<open>IsLoopback\<close> and
  \<open>IsPrivate\<close>.\<close>

definition ParseIP :: "bytes \<Rightarrow> ip_addr option" where
  "ParseIP s =
     (case ParseAddr s of
        Some (IPv6 gs z) \<Rightarrow> if z = [] then Some (IPv6 gs z) else None
      | x \<Rightarrow> x)"

definition To4 :: "ip_addr \<Rightarrow> nat list option" where
  "To4 ip =
     (case ip of
        IPv4 b \<Rightarrow> Some b
      | IPv6 gs z \<Rightarrow>
          if take 6 gs = [0, 0, 0, 0, 0, 65535]
          then Some [gs ! 6 div 256, gs ! 6 mod 256, gs ! 7 div 256, gs ! 7 mod 256] else None)"

definition IsLoopback :: "ip_addr \<Rightarrow> bool" where
  "IsLoopback ip =
     (case To4 ip of
        Some b \<Rightarrow> hd b = 127
      | None \<Rightarrow> (case ip of IPv6 gs z \<Rightarrow> gs = [0, 0, 0, 0, 0, 0, 0, 1] | _ \<Rightarrow> False))"

definition IsPrivate :: "ip_addr \<Rightarrow> bool" where
  "IsPrivate ip =
     (case To4 ip of
        Some b \<Rightarrow> b ! 0 = 10 \<or> (b ! 0 = 172 \<and> b ! 1 div 16 = 1) \<or> (b ! 0 = 192 \<and> b ! 1 = 168)
      | None \<Rightarrow> (case ip of IPv6 gs z \<Rightarrow> hd gs div 512 = 126 | _ \<Rightarrow> False))"

section \<open>URLs\<close>

record url =
  u_Scheme :: bytes
  u_Opaque :: bytes
  u_User :: "bytes option"
  u_Host :: bytes
  u_Path :: bytes
  u_RawQuery :: bytes

definition empty_url :: url where
  "empty_url = \<lparr>u_Scheme = [], u_Opaque = [], u_User = None, u_Host = [], u_Path = [], u_RawQuery = []\<rparr>"

text \<open>\<open>getScheme\<close>: the text before the first colon when it is a scheme; \<open>None\<close> when it is missing.\<close>

definition getScheme :: "bytes \<Rightarrow> (bytes \<times> bytes) option" where
  "getScheme s =
     (let p = takeWhile (\<lambda>c. is_alpha c \<or> is_digit c \<or> c \<in> set ''+-.'') s; r = drop (length p) s
      in if p \<noteq> [] \<and> \<not> is_alpha (hd p) then Some ([], s)
         else if take 1 r = '':'' then (if p = [] then None else Some (p, tl r))
         else Some ([], s))"

datatype escape_mode = EncodePath | EncodeUserPassword | EncodeHost | EncodeZone

text \<open>The ASCII bytes a host may have unescaped.\<close>

definition host_byte :: "char \<Rightarrow> bool" where
  "host_byte c \<longleftrightarrow> is_alpha c \<or> is_digit c \<or> c \<in> set ''!$&()*+,;=:[]<>-_.~'' \<or> c = CHR 0x27 \<or> c = CHR 0x22"

definition is_host_mode :: "escape_mode \<Rightarrow> bool" where
  "is_host_mode m \<longleftrightarrow> m = EncodeHost \<or> m = EncodeZone"

definition escape_allowed :: "escape_mode \<Rightarrow> char \<Rightarrow> char \<Rightarrow> bool" where
  "escape_allowed m a b \<longleftrightarrow>
     (let v = 16 * hex_val a + hex_val b
      in if m = EncodeHost then 8 \<le> hex_val a \<or> [a, b] = ''25''
         else if m = EncodeZone then [a, b] = ''25'' \<or> v = 32 \<or> (v < 128 \<and> host_byte (char_of v))
         else True)"

fun url_unescape :: "escape_mode \<Rightarrow> bytes \<Rightarrow> bytes option" where
  "url_unescape m [] = Some []"
| "url_unescape m (c # cs) =
     (if c = CHR ''%'' then
        (case cs of
           a # b # r \<Rightarrow>
             if is_hex a \<and> is_hex b \<and> escape_allowed m a b
             then map_option ((#) (char_of (16 * hex_val a + hex_val b))) (url_unescape m r)
             else None
         | _ \<Rightarrow> None)
      else if is_host_mode m \<and> code c < 128 \<and> \<not> host_byte c then None
      else map_option ((#) c) (url_unescape m cs))"

definition validOptionalPort :: "bytes \<Rightarrow> bool" where
  "validOptionalPort p \<longleftrightarrow> p = [] \<or> (hd p = CHR '':'' \<and> list_all is_digit (tl p))"

text \<open>\<open>parseHost\<close>: an IPv6 literal in brackets, or a name with at most one colon, before the port.\<close>

definition parseHost :: "bytes \<Rightarrow> bytes option" where
  "parseHost host =
     (case cut_last (CHR ''['') host of
        Some (before, r) \<Rightarrow>
          if before \<noteq> [] then None else
          (case cut_last (CHR '']'') r of
             None \<Rightarrow> None
           | Some (name, colonPort) \<Rightarrow>
               if \<not> validOptionalPort colonPort then None
               else case (case split_pct25 name of
                            None \<Rightarrow> url_unescape EncodeHost name
                          | Some (h, z) \<Rightarrow>
                              (case (url_unescape EncodeHost h, url_unescape EncodeZone z) of
                                 (Some h', Some z') \<Rightarrow> Some (h' @ z') | _ \<Rightarrow> None)) of
                 None \<Rightarrow> None
               | Some name' \<Rightarrow>
                   (case ParseAddr name' of
                      Some (IPv6 gs z) \<Rightarrow> Some (''['' @ name' @ '']'' @ colonPort)
                    | _ \<Rightarrow> None))
      | None \<Rightarrow>
          if validOptionalPort (dropWhile (\<lambda>c. c \<noteq> CHR '':'') host) then url_unescape EncodeHost host else None)"

definition userinfo_byte :: "char \<Rightarrow> bool" where
  "userinfo_byte c \<longleftrightarrow> is_alpha c \<or> is_digit c \<or> c \<in> set ''-._:~!$&()*+,;=%@'' \<or> c = CHR 0x27"

text \<open>\<open>parseAuthority\<close>; of the user information only its presence and its text are used.\<close>

definition parseAuthority :: "bytes \<Rightarrow> (bytes option \<times> bytes) option" where
  "parseAuthority a =
     (case cut_last (CHR ''@'') a of
        None \<Rightarrow> map_option (\<lambda>h. (None, h)) (parseHost a)
      | Some (user, h) \<Rightarrow>
          (case parseHost h of
             None \<Rightarrow> None
           | Some h' \<Rightarrow>
               if list_all userinfo_byte user \<and> url_unescape EncodeUserPassword user \<noteq> None
               then Some (Some user, h') else None))"

text \<open>\<open>parse\<close>; the flag is \<open>viaRequest\<close>, with which an empty or a relative text is refused.\<close>

definition url_parse :: "bool \<Rightarrow> bytes \<Rightarrow> url option" where
  "url_parse viaRequest s =
     (if list_ex (\<lambda>c. code c < 32 \<or> code c = 127) s \<or> (s = [] \<and> viaRequest) then None
      else if s = ''*'' then Some (empty_url\<lparr>u_Path := ''*''\<rparr>)
      else case getScheme s of
        None \<Rightarrow> None
      | Some (scheme, rest) \<Rightarrow>
          (case Cut (CHR ''?'') rest of (rest1, query) \<Rightarrow>
             let u = empty_url\<lparr>u_Scheme := ToLower scheme, u_RawQuery := query\<rparr>
             in if take 1 rest1 \<noteq> ''/'' \<and> scheme \<noteq> [] then Some (u\<lparr>u_Opaque := rest1\<rparr>)
                else if take 1 rest1 \<noteq> ''/'' \<and> (viaRequest \<or> CHR '':'' \<in> set (fst (Cut (CHR ''/'') rest1))) then None
                else if (scheme \<noteq> [] \<or> \<not> viaRequest \<and> take 3 rest1 \<noteq> ''///'') \<and> take 2 rest1 = ''//'' then
                  (let authority = takeWhile (\<lambda>c. c \<noteq> CHR ''/'') (drop 2 rest1);
                       path = dropWhile (\<lambda>c. c \<noteq> CHR ''/'') (drop 2 rest1)
                   in case parseAuthority authority of
                        None \<Rightarrow> None
                      | Some (user, host) \<Rightarrow>
                          map_option (\<lambda>p. u\<lparr>u_User := user, u_Host := host, u_Path := p\<rparr>)
                            (url_unescape EncodePath path))
                else map_option (\<lambda>p. u\<lparr>u_Path := p\<rparr>) (url_unescape EncodePath rest1)))"

definition ParseRequestURI :: "bytes \<Rightarrow> url option" where
  "ParseRequestURI s = url_parse True s"

text \<open>\<open>url.Parse\<close> splits the fragment off, which must be escaped correctly.\<close>

definition url_Parse :: "bytes \<Rightarrow> url option" where
  "url_Parse s =
     (case Cut (CHR ''#'') s of (t, frag) \<Rightarrow>
        (case url_parse False t of
           None \<Rightarrow> None
         | Some u \<Rightarrow> if url_unescape EncodePath frag = None then None else Some u))"

definition splitHostPort :: "bytes \<Rightarrow> bytes \<times> bytes" where
  "splitHostPort hostPort =
     (let (host, port) = (case cut_last (CHR '':'') hostPort of
                            Some (h, p) \<Rightarrow> if list_all is_digit p then (h, p) else (hostPort, [])
                          | None \<Rightarrow> (hostPort, []))
      in (if take 1 host = ''['' \<and> HasSuffix host '']'' then take (length host - 2) (drop 1 host) else host, port))"

definition u_Hostname :: "url \<Rightarrow> bytes" where "u_Hostname u = fst (splitHostPort (u_Host u))"

definition u_Port :: "url \<Rightarrow> bytes" where "u_Port u = snd (splitHostPort (u_Host u))"

end
