(* ===== verification/Go_Base64.thy ===== *)
theory Go_Base64
  imports Go_Json
begin

text \<open>
  Reading base64 text through \<open>base64.NewDecoder\<close>, and byte streams in general: what an
  \<open>io.Reader\<close> delivers until it ends, cut by \<open>io.LimitReader\<close> and collected by \<open>io.ReadAll\<close>.
\<close>

section \<open>Streams\<close>

text \<open>The bytes a reader delivers and the error that ends it, \<open>None\<close> at the end of file.\<close>

type_synonym reader = "bytes \<times> go_error option"

definition LimitReader :: "reader \<Rightarrow> int \<Rightarrow> reader" where
  "LimitReader r n = (case r of (data, e) \<Rightarrow> if n \<le> int (length data) then (take (nat n) data, None) else (data, e))"

definition ReadAll :: "reader \<Rightarrow> bytes result" where
  "ReadAll r = (case r of (data, None) \<Rightarrow> Inr data | (data, Some e) \<Rightarrow> Inl e)"

section \<open>Base64\<close>

definition b64_val :: "char \<Rightarrow> nat option" where
  "b64_val c =
     (let n = code c
      in if 65 \<le> n \<and> n \<le> 90 then Some (n - 65)
         else if 97 \<le> n \<and> n \<le> 122 then Some (n - 71)
         else if 48 \<le> n \<and> n \<le> 57 then Some (n + 4)
         else if c = CHR ''+'' then Some 62 else if c = CHR ''/'' then Some 63 else None)"

text \<open>One quantum of four characters: the bytes, and whether it ends the text with padding.\<close>

definition b64_quantum :: "bytes \<Rightarrow> (bytes \<times> bool) option" where
  "b64_quantum q =
     (case map b64_val q of
        [Some a, Some b, Some c, Some d] \<Rightarrow>
          Some (map char_of [4 * a + b div 16, 16 * (b mod 16) + c div 4, 64 * (c mod 4) + d], False)
      | [Some a, Some b, Some c, None] \<Rightarrow>
          if q ! 3 = CHR ''='' then Some (map char_of [4 * a + b div 16, 16 * (b mod 16) + c div 4], True) else None
      | [Some a, Some b, None, None] \<Rightarrow>
          if q ! 2 = CHR ''='' \<and> q ! 3 = CHR ''='' then Some ([char_of (4 * a + b div 16)], True) else None
      | _ \<Rightarrow> None)"

text \<open>\<open>Encoding.Decode\<close> of whole quanta: padding must be at the end.\<close>

fun b64_Decode :: "nat \<Rightarrow> bytes \<Rightarrow> bytes \<times> bool" where
  "b64_Decode 0 s = ([], s = [])"
| "b64_Decode (Suc n) s =
     (case b64_quantum (take 4 s) of
        None \<Rightarrow> ([], False)
      | Some (bs, end_) \<Rightarrow>
          if end_ then (bs, drop 4 s = [])
          else (case b64_Decode n (drop 4 s) of (r, ok) \<Rightarrow> (bs @ r, ok)))"

text \<open>The decoder reads the text, without line breaks, in chunks of whole quanta; the reader it
  serves determines how large they are, so the sizes are an argument; when the list is used
  up the rest is one chunk. A chunk that ends in padding does not end the stream.\<close>

definition CorruptInputError :: go_error where "CorruptInputError = EMsg ''illegal base64 data''"
definition ErrUnexpectedEOF :: go_error where "ErrUnexpectedEOF = EMsg ''unexpected EOF''"

function b64_stream :: "nat list \<Rightarrow> bytes \<Rightarrow> reader" where
  "b64_stream cuts s =
     (if s = [] then ([], None)
      else if length s < 4 then ([], Some ErrUnexpectedEOF)
      else
        let n = (case cuts of [] \<Rightarrow> length s div 4 | k # ks \<Rightarrow> max 1 (min k (length s div 4)))
        in case b64_Decode n (take (4 * n) s) of
             (bs, False) \<Rightarrow> (bs, Some CorruptInputError)
           | (bs, True) \<Rightarrow> (case b64_stream (drop 1 cuts) (drop (4 * n) s) of (r, e) \<Rightarrow> (bs @ r, e)))"
  by pat_completeness auto
termination
proof (relation "measure (\<lambda>(cuts, s). length s)")
  fix cuts :: "nat list" and s :: bytes and n
  assume "\<not> length s < 4" and n: "n = (case cuts of [] \<Rightarrow> length s div 4 | k # ks \<Rightarrow> max 1 (min k (length s div 4)))"
  then have "0 < length s div 4" "0 < length s" by (auto simp: div_greater_zero_iff)
  then have "0 < n" using n by (cases cuts) simp_all
  then show "((drop 1 cuts, drop (4 * n) s), (cuts, s)) \<in> measure (\<lambda>(cuts, s). length s)"
    using \<open>0 < length s\<close> by simp
qed simp

declare b64_stream.simps [simp del]

definition base64_NewDecoder :: "nat list \<Rightarrow> bytes \<Rightarrow> reader" where
  "base64_NewDecoder cuts s = b64_stream cuts (filter (\<lambda>c. c \<noteq> CHR 0x0D \<and> c \<noteq> CHR 0x0A) s)"

lemma ReadAll_limit_length:
  "ReadAll (LimitReader r (n + 1)) = Inr data \<Longrightarrow> 0 \<le> n \<Longrightarrow> int (length data) \<le> n + 1"
  by (auto simp: ReadAll_def LimitReader_def split: prod.splits option.splits if_splits)

lemma ReadAll_limit_exact:
  assumes "ReadAll (LimitReader r (n + 1)) = Inr data" and "int (length data) \<le> n"
  shows "r = (data, None)"
  using assms by (auto simp: ReadAll_def LimitReader_def split: prod.splits option.splits if_splits)

end
