(* ===== verification/Rpc_Requests.thy ===== *)
theory Rpc_Requests
  imports Go_Url Go_Base64 Json_Codec
begin

text \<open>
  The command parameters of \<open>src/pkg/contracts/rpc.go\<close>: one record per request with its JSON
  fields and its \<open>Validate\<close>, and the status objects that devices report. The package's variables
  and the code that is not the client's own are the record \<open>contracts_env\<close>: the limits set by
  \<open>SetLimits\<close>, the allowed upload URL, the uCentral schema validator, the zlib reader, and the sizes
  of the chunks in which base64 text is read.
\<close>

record contracts_env =
  ce_maxConfigureSize :: int
  ce_maxCertUpdateSize :: int
  ce_maxScriptSize :: int
  ce_AllowedTraceUploadURL :: "url option"
  ce_validator :: "bytes \<Rightarrow> go_error option"
  ce_zlib :: "reader \<Rightarrow> reader result"
  ce_cuts :: "nat list"

definition SetLimits :: "int \<Rightarrow> int \<Rightarrow> int \<Rightarrow> contracts_env \<Rightarrow> contracts_env" where
  "SetLimits configure certUpdate script env =
     env\<lparr>ce_maxConfigureSize := configure, ce_maxCertUpdateSize := certUpdate, ce_maxScriptSize := script\<rparr>"

definition getConfigureLimit :: "contracts_env \<Rightarrow> int" where
  "getConfigureLimit env = (if 0 < ce_maxConfigureSize env then ce_maxConfigureSize env else 10 * 1024 * 1024)"

definition getCertUpdateLimit :: "contracts_env \<Rightarrow> int" where
  "getCertUpdateLimit env = (if 0 < ce_maxCertUpdateSize env then ce_maxCertUpdateSize env else 2 * 1024 * 1024)"

definition getScriptLimit :: "contracts_env \<Rightarrow> int" where
  "getScriptLimit env = (if 0 < ce_maxScriptSize env then ce_maxScriptSize env else 1024 * 1024)"

text \<open>A sequence of checks, of which the first that fails is reported.\<close>

fun first_error :: "(bool \<times> go_error) list \<Rightarrow> go_error option" where
  "first_error [] = None"
| "first_error ((bad, e) # cs) = (if bad then Some e else first_error cs)"

lemma first_error_None: "first_error cs = None \<longleftrightarrow> (\<forall>(bad, e) \<in> set cs. \<not> bad)"
  by (induction cs rule: first_error.induct) auto

section \<open>Configure\<close>

record configure_request =
  cq_Serial :: bytes
  cq_UUID :: int
  cq_When :: int
  cq_Config :: bytes
  cq_Compress64 :: bytes
  cq_CompressSz :: nat

definition zero_configure :: configure_request where
  "zero_configure = \<lparr>cq_Serial = [], cq_UUID = 0, cq_When = 0, cq_Config = [], cq_Compress64 = [], cq_CompressSz = 0\<rparr>"

definition configure_fields :: "(bytes \<times> configure_request field_dec) list" where
  "configure_fields =
     [(''serial'', on_field cq_Serial cq_Serial_update dec_string),
      (''uuid'', on_field cq_UUID cq_UUID_update dec_int),
      (''when'', on_field cq_When cq_When_update dec_int),
      (''config'', on_field cq_Config cq_Config_update dec_raw),
      (''compress_64'', on_field cq_Compress64 cq_Compress64_update dec_string),
      (''compress_sz'', on_field cq_CompressSz cq_CompressSz_update dec_uint32)]"

definition decompress :: "contracts_env \<Rightarrow> configure_request \<Rightarrow> bytes result" where
  "decompress env r =
     (if cq_Compress64 r = [] then Inl (EMsg ''compress_64 is required'')
      else if cq_CompressSz r = 0 then Inl (EMsg ''compress_sz must be greater than zero'')
      else
        let lim = getConfigureLimit env
        in if lim < int (cq_CompressSz r)
           then Inl (EFmt ''compress_sz exceeds configured limit'' (show_int lim))
           else case ce_zlib env (base64_NewDecoder (ce_cuts env) (cq_Compress64 r)) of
             Inl e \<Rightarrow> Inl (EWrap ''invalid zlib data'' e)
           | Inr zr \<Rightarrow>
               (case ReadAll (LimitReader zr (int (cq_CompressSz r) + 1)) of
                  Inl e \<Rightarrow> Inl (EWrap ''decompression error'' e)
                | Inr bytesRead \<Rightarrow>
                    if length bytesRead \<noteq> cq_CompressSz r
                    then Inl (EMsg ''decompressed size does not match compress_sz'')
                    else Inr bytesRead))"

text \<open>The member \<open>uuid\<close> of the configuration, when the object has a positive one.\<close>

definition config_uuid :: "bytes \<Rightarrow> int \<Rightarrow> int" where
  "config_uuid config outer =
     (case json_Unmarshal [(''uuid'', dec_int)] config 0 of
        (u, err) \<Rightarrow> if \<not> err \<and> 0 < u then u else outer)"

definition hasConfig :: "configure_request \<Rightarrow> bool" where
  "hasConfig r \<longleftrightarrow> cq_Config r \<noteq> [] \<and> cq_Config r \<noteq> ''null''"

definition hasCompress :: "configure_request \<Rightarrow> bool" where
  "hasCompress r \<longleftrightarrow> cq_Compress64 r \<noteq> [] \<or> 0 < cq_CompressSz r"

definition configure_outer_checks :: "configure_request \<Rightarrow> go_error option" where
  "configure_outer_checks r = first_error
     [(hasConfig r \<and> hasCompress r, EMsg ''cannot provide both config and compress_64''),
      (\<not> hasConfig r \<and> \<not> hasCompress r, EMsg ''must provide either config or compress_64''),
      (hasCompress r \<and> (cq_Serial r \<noteq> [] \<or> cq_UUID r \<noteq> 0 \<or> cq_When r \<noteq> 0),
        EMsg ''outer compressed request must not contain serial, uuid, or when''),
      (\<not> hasCompress r \<and> cq_Serial r = [], EMsg ''serial is required''),
      (\<not> hasCompress r \<and> cq_UUID r \<le> 0, EMsg ''uuid must be greater than zero''),
      (\<not> hasCompress r \<and> cq_When r \<noteq> 0, EMsg ''when must be zero for configure'')]"

function ValidateAndGetUUID :: "contracts_env \<Rightarrow> configure_request \<Rightarrow> int result" where
  "ValidateAndGetUUID env r =
     (case configure_outer_checks r of Some e \<Rightarrow> Inl e | None \<Rightarrow>
      if hasConfig r then
        (let trimmed = TrimSpace (cq_Config r)
         in if \<not> starts (CHR ''{'') trimmed then Inl (EMsg ''config must be a JSON object'')
            else case ce_validator env trimmed of
              Some e \<Rightarrow> Inl (EWrap ''config schema validation failed'' e)
            | None \<Rightarrow> Inr (config_uuid trimmed (cq_UUID r)))
      else
        case decompress env r of Inl e \<Rightarrow> Inl e | Inr bytesRead \<Rightarrow>
        (let trimmed = TrimSpace bytesRead
         in if \<not> starts (CHR ''{'') trimmed
            then Inl (EMsg ''decompressed payload must be a JSON configuration object'')
            else case json_Unmarshal configure_fields trimmed zero_configure of
              (innerReq, err) \<Rightarrow>
                if err then Inl (EMsg ''decompressed payload must be a JSON configuration object'')
                else if cq_Compress64 innerReq \<noteq> [] then Inl (EMsg ''nested compression is not supported'')
                else (case ValidateAndGetUUID env innerReq of
                        Inl e \<Rightarrow> Inl (EWrap ''invalid compressed configuration'' e)
                      | Inr u \<Rightarrow> Inr u)))"
  by pat_completeness auto
termination
  by (relation "measure (\<lambda>(env, r). if cq_Compress64 r = [] then 0 else 1)")
    (auto simp: decompress_def split: if_splits)

declare ValidateAndGetUUID.simps [simp del]

definition configure_Validate :: "contracts_env \<Rightarrow> configure_request \<Rightarrow> go_error option" where
  "configure_Validate env r = (case ValidateAndGetUUID env r of Inl e \<Rightarrow> Some e | Inr u \<Rightarrow> None)"

text \<open>\<open>EffectiveUUID\<close> follows nested compressed payloads as deep as they go; a payload that inflates
  to itself makes it run forever, which is \<open>None\<close>.\<close>

partial_function (option) EffectiveUUID :: "contracts_env \<Rightarrow> configure_request \<Rightarrow> int result option" where
  "EffectiveUUID env r =
     (if hasConfig r then Some (Inr (config_uuid (cq_Config r) (cq_UUID r)))
      else if cq_Compress64 r = [] then Some (Inl (EMsg ''neither config nor compress_64 is provided''))
      else case decompress env r of
        Inl e \<Rightarrow> Some (Inl e)
      | Inr bytesRead \<Rightarrow>
          (case json_Unmarshal configure_fields (TrimSpace bytesRead) zero_configure of
             (innerReq, err) \<Rightarrow>
               if err then Some (Inl (EMsg ''decompressed payload must be a JSON configuration object''))
               else EffectiveUUID env innerReq))"

section \<open>Reboot, factory reset and re-enrolment\<close>

record reboot_request =
  bq_Serial :: bytes
  bq_When :: int

definition zero_reboot_request :: reboot_request where
  "zero_reboot_request = \<lparr>bq_Serial = [], bq_When = 0\<rparr>"

definition reboot_request_fields :: "(bytes \<times> reboot_request field_dec) list" where
  "reboot_request_fields =
     [(''serial'', on_field bq_Serial bq_Serial_update dec_string),
      (''when'', on_field bq_When bq_When_update dec_int)]"

definition reboot_Validate :: "reboot_request \<Rightarrow> go_error option" where
  "reboot_Validate r = first_error
     [(bq_Serial r = [], EMsg ''serial is required''),
      (bq_When r \<noteq> 0, EMsg ''when must be zero for reboot'')]"

record factory_request =
  fq_Serial :: bytes
  fq_KeepRedirector :: "int option"
  fq_When :: int

definition zero_factory_request :: factory_request where
  "zero_factory_request = \<lparr>fq_Serial = [], fq_KeepRedirector = None, fq_When = 0\<rparr>"

definition factory_request_fields :: "(bytes \<times> factory_request field_dec) list" where
  "factory_request_fields =
     [(''serial'', on_field fq_Serial fq_Serial_update dec_string),
      (''keep_redirector'', on_field fq_KeepRedirector fq_KeepRedirector_update dec_int_ptr),
      (''when'', on_field fq_When fq_When_update dec_int)]"

definition factory_Validate :: "factory_request \<Rightarrow> go_error option" where
  "factory_Validate r =
     (if fq_Serial r = [] then Some (EMsg ''serial is required'')
      else case fq_KeepRedirector r of
        None \<Rightarrow> Some (EMsg ''missing keep_redirector'')
      | Some k \<Rightarrow>
          if k \<noteq> 0 \<and> k \<noteq> 1 then Some (EFmt ''invalid keep_redirector'' (show_int k))
          else if fq_When r \<noteq> 0 then Some (EMsg ''when must be zero for factory'')
          else None)"

record reenroll_request =
  eq_Serial :: bytes
  eq_When :: int

definition zero_reenroll_request :: reenroll_request where
  "zero_reenroll_request = \<lparr>eq_Serial = [], eq_When = 0\<rparr>"

definition reenroll_request_fields :: "(bytes \<times> reenroll_request field_dec) list" where
  "reenroll_request_fields =
     [(''serial'', on_field eq_Serial eq_Serial_update dec_string),
      (''when'', on_field eq_When eq_When_update dec_int)]"

definition reenroll_Validate :: "reenroll_request \<Rightarrow> go_error option" where
  "reenroll_Validate r = first_error
     [(eq_Serial r = [], EMsg ''serial is required''),
      (eq_When r \<noteq> 0, EMsg ''when must be zero for reenroll'')]"

section \<open>Upgrade\<close>

record upgrade_request =
  uq_Serial :: bytes
  uq_URI :: bytes
  uq_FWsignature :: bytes
  uq_When :: int

definition zero_upgrade_request :: upgrade_request where
  "zero_upgrade_request = \<lparr>uq_Serial = [], uq_URI = [], uq_FWsignature = [], uq_When = 0\<rparr>"

definition upgrade_request_fields :: "(bytes \<times> upgrade_request field_dec) list" where
  "upgrade_request_fields =
     [(''serial'', on_field uq_Serial uq_Serial_update dec_string),
      (''uri'', on_field uq_URI uq_URI_update dec_string),
      (''FWsignature'', on_field uq_FWsignature uq_FWsignature_update dec_string),
      (''when'', on_field uq_When uq_When_update dec_int)]"

definition upgrade_Validate :: "upgrade_request \<Rightarrow> go_error option" where
  "upgrade_Validate r =
     (if uq_Serial r = [] then Some (EMsg ''serial is required'')
      else if uq_URI r = [] then Some (EMsg ''uri is required'')
      else case ParseRequestURI (uq_URI r) of
        None \<Rightarrow> Some (EMsg ''invalid upgrade URI'')
      | Some u \<Rightarrow> first_error
          [(u_Host u = [], EMsg ''invalid upgrade URI''),
           (\<not> EqualFold (u_Scheme u) ''https'', EFmt ''upgrade uri scheme must be https'' (u_Scheme u)),
           (uq_When r \<noteq> 0, EMsg ''when must be zero for upgrade'')])"

section \<open>Trace, ping, LEDs and telemetry\<close>

text \<open>A pointer to an integer that is set and lies outside the bounds.\<close>

definition outside :: "int \<Rightarrow> int \<Rightarrow> int option \<Rightarrow> bool" where
  "outside lo hi p = (case p of None \<Rightarrow> False | Some v \<Rightarrow> v < lo \<or> hi < v)"

record trace_request =
  tq_Serial :: bytes
  tq_When :: int
  tq_Duration :: "int option"
  tq_Packets :: "int option"
  tq_Network :: bytes
  tq_Interface :: bytes
  tq_URI :: bytes

definition zero_trace_request :: trace_request where
  "zero_trace_request = \<lparr>tq_Serial = [], tq_When = 0, tq_Duration = None, tq_Packets = None, tq_Network = [], tq_Interface = [], tq_URI = []\<rparr>"

definition trace_request_fields :: "(bytes \<times> trace_request field_dec) list" where
  "trace_request_fields =
     [(''serial'', on_field tq_Serial tq_Serial_update dec_string),
      (''when'', on_field tq_When tq_When_update dec_int),
      (''duration'', on_field tq_Duration tq_Duration_update dec_int_ptr),
      (''packets'', on_field tq_Packets tq_Packets_update dec_int_ptr),
      (''network'', on_field tq_Network tq_Network_update dec_string),
      (''interface'', on_field tq_Interface tq_Interface_update dec_string),
      (''uri'', on_field tq_URI tq_URI_update dec_string)]"

definition trace_Validate :: "contracts_env \<Rightarrow> trace_request \<Rightarrow> go_error option" where
  "trace_Validate env r =
     (case first_error
        [(tq_Serial r = [], EMsg ''serial is required''),
         (tq_When r \<noteq> 0, EMsg ''when must be zero for trace''),
         (outside 1 300 (tq_Duration r), EMsg ''duration must be between 1 and 300''),
         (outside 1 10000 (tq_Packets r), EMsg ''packets must be between 1 and 10000'')] of
        Some e \<Rightarrow> Some e
      | None \<Rightarrow>
          if tq_URI r = [] then None
          else case ce_AllowedTraceUploadURL env of
            None \<Rightarrow> Some (EMsg ''trace upload is disabled'')
          | Some allowed \<Rightarrow>
              (case ParseRequestURI (tq_URI r) of
                 None \<Rightarrow> Some (EMsg ''invalid trace URI'')
               | Some u \<Rightarrow> first_error
                   [(u_Host u = [], EMsg ''invalid trace URI''),
                    (\<not> EqualFold (u_Scheme u) ''https'', EFmt ''trace URI scheme must be https'' (u_Scheme u)),
                    (\<not> EqualFold (u_Hostname u) (u_Hostname allowed),
                      EFmt ''trace URI hostname is not allowed'' (u_Hostname u)),
                    (u_Port u \<noteq> u_Port allowed, EFmt ''trace URI port is not allowed'' (u_Port u)),
                    (u_User u \<noteq> None, EMsg ''trace URI must not contain credentials'')]))"

record ping_request =
  pq_Serial :: bytes

definition zero_ping_request :: ping_request where
  "zero_ping_request = \<lparr>pq_Serial = []\<rparr>"

definition ping_request_fields :: "(bytes \<times> ping_request field_dec) list" where
  "ping_request_fields =
     [(''serial'', on_field pq_Serial pq_Serial_update dec_string)]"

definition ping_Validate :: "ping_request \<Rightarrow> go_error option" where
  "ping_Validate r = first_error [(pq_Serial r = [], EMsg ''serial is required'')]"

record leds_request =
  lq_Serial :: bytes
  lq_When :: int
  lq_Duration :: "int option"
  lq_Pattern :: bytes

definition zero_leds_request :: leds_request where
  "zero_leds_request = \<lparr>lq_Serial = [], lq_When = 0, lq_Duration = None, lq_Pattern = []\<rparr>"

definition leds_request_fields :: "(bytes \<times> leds_request field_dec) list" where
  "leds_request_fields =
     [(''serial'', on_field lq_Serial lq_Serial_update dec_string),
      (''when'', on_field lq_When lq_When_update dec_int),
      (''duration'', on_field lq_Duration lq_Duration_update dec_int_ptr),
      (''pattern'', on_field lq_Pattern lq_Pattern_update dec_string)]"

definition leds_Validate :: "leds_request \<Rightarrow> go_error option" where
  "leds_Validate r = first_error
     [(lq_Serial r = [], EMsg ''serial is required''),
      (lq_Pattern r \<noteq> ''on'' \<and> lq_Pattern r \<noteq> ''off'' \<and> lq_Pattern r \<noteq> ''blink'', EMsg ''pattern must be on, off, or blink''),
      (lq_When r \<noteq> 0, EMsg ''when must be zero for leds''),
      (outside 1 300 (lq_Duration r), EMsg ''duration must be between 1 and 300'')]"

record telemetry_request =
  mq_Serial :: bytes
  mq_Interval :: "int option"
  mq_Types :: "bytes list"

definition zero_telemetry_request :: telemetry_request where
  "zero_telemetry_request = \<lparr>mq_Serial = [], mq_Interval = None, mq_Types = []\<rparr>"

definition telemetry_request_fields :: "(bytes \<times> telemetry_request field_dec) list" where
  "telemetry_request_fields =
     [(''serial'', on_field mq_Serial mq_Serial_update dec_string),
      (''interval'', on_field mq_Interval mq_Interval_update dec_int_ptr),
      (''types'', on_field mq_Types mq_Types_update dec_strings)]"

definition telemetry_Validate :: "telemetry_request \<Rightarrow> go_error option" where
  "telemetry_Validate r = first_error
     [(mq_Serial r = [], EMsg ''serial is required''),
      (mq_Interval r = None \<or> outside 0 60 (mq_Interval r), EMsg ''invalid interval''),
      (mq_Types r \<noteq> [''dhcp''], EMsg ''invalid types'')]"

section \<open>Remote access\<close>

record rtty_request =
  aq_Method :: bytes
  aq_Serial :: bytes
  aq_Token :: bytes
  aq_ID :: bytes
  aq_Server :: bytes
  aq_Port :: int
  aq_User :: bytes
  aq_Timeout :: "int option"

definition zero_rtty_request :: rtty_request where
  "zero_rtty_request = \<lparr>aq_Method = [], aq_Serial = [], aq_Token = [], aq_ID = [], aq_Server = [], aq_Port = 0, aq_User = [], aq_Timeout = None\<rparr>"

definition rtty_request_fields :: "(bytes \<times> rtty_request field_dec) list" where
  "rtty_request_fields =
     [(''method'', on_field aq_Method aq_Method_update dec_string),
      (''serial'', on_field aq_Serial aq_Serial_update dec_string),
      (''token'', on_field aq_Token aq_Token_update dec_string),
      (''id'', on_field aq_ID aq_ID_update dec_string),
      (''server'', on_field aq_Server aq_Server_update dec_string),
      (''port'', on_field aq_Port aq_Port_update dec_int),
      (''user'', on_field aq_User aq_User_update dec_string),
      (''timeout'', on_field aq_Timeout aq_Timeout_update dec_int_ptr)]"

definition rtty_Validate :: "rtty_request \<Rightarrow> go_error option" where
  "rtty_Validate r = first_error
     [(aq_Method r \<noteq> ''rtty'', EFmt ''invalid method for remote access'' (aq_Method r)),
      (aq_Serial r = [], EMsg ''serial is required''),
      (aq_Token r = [], EMsg ''token is required''),
      (aq_ID r = [], EMsg ''id is required''),
      (aq_Server r = [], EMsg ''server is required''),
      (aq_Port r < 1 \<or> 65535 < aq_Port r, EMsg ''port must be between 1 and 65535''),
      (outside 1 300 (aq_Timeout r), EMsg ''timeout must be between 1 and 300'')]"

section \<open>Certificates and scripts\<close>

text \<open>The check of a base64 payload against a limit. The reader is stopped one byte beyond the
  limit; a payload that is both corrupt and too long may be reported either way.\<close>

definition base64_payload :: "contracts_env \<Rightarrow> bytes \<Rightarrow> int \<Rightarrow> go_error \<Rightarrow> go_error \<Rightarrow> go_error \<Rightarrow> go_error option" where
  "base64_payload env text maxlen invalid emptied exceeded =
     (case ReadAll (LimitReader (base64_NewDecoder (ce_cuts env) text) (maxlen + 1)) of
        Inl e \<Rightarrow> Some invalid
      | Inr bytesRead \<Rightarrow> first_error [(bytesRead = [], emptied), (maxlen < int (length bytesRead), exceeded)])"

record certupdate_request =
  xq_Serial :: bytes
  xq_Certificates :: bytes

definition zero_certupdate_request :: certupdate_request where
  "zero_certupdate_request = \<lparr>xq_Serial = [], xq_Certificates = []\<rparr>"

definition certupdate_request_fields :: "(bytes \<times> certupdate_request field_dec) list" where
  "certupdate_request_fields =
     [(''serial'', on_field xq_Serial xq_Serial_update dec_string),
      (''certificates'', on_field xq_Certificates xq_Certificates_update dec_string)]"

definition certupdate_Validate :: "contracts_env \<Rightarrow> certupdate_request \<Rightarrow> go_error option" where
  "certupdate_Validate env r =
     (if xq_Serial r = [] then Some (EMsg ''serial is required'')
      else if xq_Certificates r = [] then Some (EMsg ''certificates payload is required'')
      else base64_payload env (xq_Certificates r) (getCertUpdateLimit env)
             (EMsg ''certificates must be valid base64'') (EMsg ''certificates payload must not be empty'')
             (EFmt ''certificates exceed configured limit'' (show_int (getCertUpdateLimit env))))"

record script_request =
  sq_Serial :: bytes
  sq_Type :: bytes
  sq_Script :: bytes
  sq_Timeout :: "int option"
  sq_URI :: bytes
  sq_Signature :: bytes
  sq_When :: int

definition zero_script_request :: script_request where
  "zero_script_request = \<lparr>sq_Serial = [], sq_Type = [], sq_Script = [], sq_Timeout = None, sq_URI = [], sq_Signature = [], sq_When = 0\<rparr>"

definition script_request_fields :: "(bytes \<times> script_request field_dec) list" where
  "script_request_fields =
     [(''serial'', on_field sq_Serial sq_Serial_update dec_string),
      (''type'', on_field sq_Type sq_Type_update dec_string),
      (''script'', on_field sq_Script sq_Script_update dec_string),
      (''timeout'', on_field sq_Timeout sq_Timeout_update dec_int_ptr),
      (''uri'', on_field sq_URI sq_URI_update dec_string),
      (''signature'', on_field sq_Signature sq_Signature_update dec_string),
      (''when'', on_field sq_When sq_When_update dec_int)]"

text \<open>\<open>CloudScriptRequest.UnmarshalJSON\<close> refuses unknown members.\<close>

definition script_Unmarshal :: "bytes \<Rightarrow> script_request \<times> bool" where
  "script_Unmarshal raw = decode_struct True script_request_fields raw zero_script_request"

definition script_Validate :: "contracts_env \<Rightarrow> script_request \<Rightarrow> go_error option" where
  "script_Validate env r =
     (case first_error
        [(sq_Serial r = [], EMsg ''serial is required''),
         (sq_Type r \<noteq> ''shell'' \<and> sq_Type r \<noteq> ''ucode'' \<and> sq_Type r \<noteq> ''bundle'', EFmt ''invalid script type'' (sq_Type r)),
         (sq_When r \<noteq> 0, EMsg ''when must be zero for script''),
         ((sq_Script r = []) = (sq_URI r = []), EMsg ''exactly one of script or uri must be provided'')] of
        Some e \<Rightarrow> Some e
      | None \<Rightarrow>
     (case (if sq_Script r \<noteq> [] then
              base64_payload env (sq_Script r) (getScriptLimit env) (EMsg ''script must be valid base64'')
                (EMsg ''decoded script must not be empty'')
                (EFmt ''script exceeds configured limit'' (show_int (getScriptLimit env)))
            else None) of
        Some e \<Rightarrow> Some e
      | None \<Rightarrow>
     (case (if sq_URI r \<noteq> [] then
              (case ParseRequestURI (sq_URI r) of
                 None \<Rightarrow> Some (EMsg ''invalid script URI'')
               | Some u \<Rightarrow> first_error
                   [(u_Scheme u = [] \<or> u_Host u = [], EMsg ''invalid script URI''),
                    (\<not> EqualFold (u_Scheme u) ''https'', EFmt ''script uri scheme must be https'' (u_Scheme u))])
            else None) of
        Some e \<Rightarrow> Some e
      | None \<Rightarrow> first_error [(outside 1 300 (sq_Timeout r), EMsg ''timeout must be between 1 and 300'')])))"

section \<open>Status objects\<close>

text \<open>What a device reports. The validators only look at the text and, for scripts, at the error
  code and the results; the other members are decoded so that a member of a wrong type is noticed.
  \<open>rejected\<close> is a list of objects.\<close>

record text_status =
  ts_Error :: int
  ts_Text :: bytes
  ts_When :: int

definition zero_text_status :: text_status where
  "zero_text_status = \<lparr>ts_Error = 0, ts_Text = [], ts_When = 0\<rparr>"

definition text_status_fields :: "(bytes \<times> text_status field_dec) list" where
  "text_status_fields =
     [(''error'', on_field ts_Error ts_Error_update dec_int),
      (''text'', on_field ts_Text ts_Text_update dec_string),
      (''when'', on_field ts_When ts_When_update dec_int)]"

definition text_Validate :: "text_status \<Rightarrow> go_error option" where
  "text_Validate s = first_error [(ts_Text s = [], EMsg ''text is required'')]"

definition trace_status_Validate :: "text_status \<Rightarrow> go_error option" where
  "trace_status_Validate s = None"

record rejected_parameter =
  rp_Parameter :: bytes
  rp_Reason :: bytes
  rp_Substitution :: bytes

definition zero_rejected_parameter :: rejected_parameter where
  "zero_rejected_parameter = \<lparr>rp_Parameter = [], rp_Reason = [], rp_Substitution = []\<rparr>"

definition rejected_parameter_fields :: "(bytes \<times> rejected_parameter field_dec) list" where
  "rejected_parameter_fields =
     [(''parameter'', on_field rp_Parameter rp_Parameter_update dec_raw),
      (''reason'', on_field rp_Reason rp_Reason_update dec_string),
      (''substitution'', on_field rp_Substitution rp_Substitution_update dec_raw)]"

text \<open>Decoding an array of objects into a slice that starts empty.\<close>

definition dec_rejected :: "rejected_parameter list field_dec" where
  "dec_rejected cur raw =
     (if raw = ''null'' then ([], False)
      else if starts (CHR ''['') raw then
        (let rs = map (\<lambda>(i, e). decode_struct False rejected_parameter_fields e
                     (if i < length cur then cur ! i else zero_rejected_parameter)) (enumerate 0 (json_elements raw))
         in (map fst rs, list_ex snd rs))
      else (cur, True))"

record configure_status =
  cs_Error :: int
  cs_Text :: bytes
  cs_When :: int
  cs_Rejected :: "rejected_parameter list"

definition zero_configure_status :: configure_status where
  "zero_configure_status = \<lparr>cs_Error = 0, cs_Text = [], cs_When = 0, cs_Rejected = []\<rparr>"

definition configure_status_fields :: "(bytes \<times> configure_status field_dec) list" where
  "configure_status_fields =
     [(''error'', on_field cs_Error cs_Error_update dec_int),
      (''text'', on_field cs_Text cs_Text_update dec_string),
      (''when'', on_field cs_When cs_When_update dec_int),
      (''rejected'', on_field cs_Rejected cs_Rejected_update dec_rejected)]"

definition configure_status_Validate :: "configure_status \<Rightarrow> go_error option" where
  "configure_status_Validate s = first_error [(cs_Text s = [], EMsg ''text is required'')]"

record short_status =
  ss_Error :: int
  ss_Text :: bytes

definition zero_short_status :: short_status where
  "zero_short_status = \<lparr>ss_Error = 0, ss_Text = []\<rparr>"

definition short_status_fields :: "(bytes \<times> short_status field_dec) list" where
  "short_status_fields =
     [(''error'', on_field ss_Error ss_Error_update dec_int),
      (''text'', on_field ss_Text ss_Text_update dec_string)]"

definition short_Validate :: "short_status \<Rightarrow> go_error option" where
  "short_Validate s = first_error [(ss_Text s = [], EMsg ''text is required'')]"

record rtty_status =
  as_Error :: int
  as_Text :: bytes
  as_Meta :: bytes

definition zero_rtty_status :: rtty_status where
  "zero_rtty_status = \<lparr>as_Error = 0, as_Text = [], as_Meta = []\<rparr>"

definition rtty_status_fields :: "(bytes \<times> rtty_status field_dec) list" where
  "rtty_status_fields =
     [(''error'', on_field as_Error as_Error_update dec_int),
      (''text'', on_field as_Text as_Text_update dec_string),
      (''meta'', on_field as_Meta as_Meta_update dec_raw)]"

definition rtty_status_Validate :: "rtty_status \<Rightarrow> go_error option" where
  "rtty_status_Validate s = first_error [(as_Text s = [], EMsg ''text is required'')]"

record txt_status =
  xs_Error :: int
  xs_Txt :: bytes

definition zero_txt_status :: txt_status where
  "zero_txt_status = \<lparr>xs_Error = 0, xs_Txt = []\<rparr>"

definition txt_status_fields :: "(bytes \<times> txt_status field_dec) list" where
  "txt_status_fields =
     [(''error'', on_field xs_Error xs_Error_update dec_int),
      (''txt'', on_field xs_Txt xs_Txt_update dec_string)]"

definition txt_Validate :: "txt_status \<Rightarrow> go_error option" where
  "txt_Validate s = first_error [(xs_Txt s = [], EMsg ''txt is required'')]"

record script_status =
  zs_Error :: int
  zs_Result64 :: bytes
  zs_ResultSz :: "int option"
  zs_Result :: bytes

definition zero_script_status :: script_status where
  "zero_script_status = \<lparr>zs_Error = 0, zs_Result64 = [], zs_ResultSz = None, zs_Result = []\<rparr>"

definition script_status_fields :: "(bytes \<times> script_status field_dec) list" where
  "script_status_fields =
     [(''error'', on_field zs_Error zs_Error_update dec_int),
      (''result_64'', on_field zs_Result64 zs_Result64_update dec_string),
      (''result_sz'', on_field zs_ResultSz zs_ResultSz_update dec_int_ptr),
      (''result'', on_field zs_Result zs_Result_update dec_string)]"

definition script_status_Validate :: "script_status \<Rightarrow> go_error option" where
  "script_status_Validate s = first_error
     [(zs_Result s = [] \<and> zs_Result64 s = [] \<and> zs_Error s = 0, EMsg ''result is required'')]"

section \<open>What an accepted configuration is\<close>

lemma config_uuid_pos: "0 < outer \<Longrightarrow> 0 < config_uuid config outer"
  by (auto simp: config_uuid_def split: prod.splits)

text \<open>The configuration a request carries, directly or compressed, and its outer identifier: the
  reference against which \<open>ValidateAndGetUUID\<close> is stated.\<close>

definition carries :: "contracts_env \<Rightarrow> configure_request \<Rightarrow> configure_request \<Rightarrow> bool" where
  "carries env r inner \<longleftrightarrow>
     (if hasConfig r then inner = r \<and> \<not> hasCompress r
      else cq_Serial r = [] \<and> cq_UUID r = 0 \<and> cq_When r = 0 \<and>
        (\<exists>data. decompress env r = Inr data \<and> starts (CHR ''{'') (TrimSpace data)
           \<and> json_Unmarshal configure_fields (TrimSpace data) zero_configure = (inner, False)
           \<and> hasConfig inner \<and> \<not> hasCompress inner))"

definition config_accepted :: "contracts_env \<Rightarrow> configure_request \<Rightarrow> bool" where
  "config_accepted env r \<longleftrightarrow> cq_Serial r \<noteq> [] \<and> 0 < cq_UUID r \<and> cq_When r = 0
     \<and> starts (CHR ''{'') (TrimSpace (cq_Config r)) \<and> ce_validator env (TrimSpace (cq_Config r)) = None"

lemma outer_checks_config:
  "configure_outer_checks r = None \<Longrightarrow> hasConfig r \<Longrightarrow>
     \<not> hasCompress r \<and> cq_Serial r \<noteq> [] \<and> 0 < cq_UUID r \<and> cq_When r = 0"
  by (simp add: configure_outer_checks_def split: if_splits)

lemma ValidateAndGetUUID_config:
  assumes "hasConfig r" and "ValidateAndGetUUID env r = Inr u"
  shows "config_accepted env r \<and> \<not> hasCompress r \<and> u = config_uuid (TrimSpace (cq_Config r)) (cq_UUID r)"
proof -
  have "configure_outer_checks r = None"
    using assms(2) by (subst (asm) ValidateAndGetUUID.simps) (simp split: option.splits)
  with outer_checks_config [OF this assms(1)] assms show ?thesis
    by (subst (asm) ValidateAndGetUUID.simps)
      (simp add: config_accepted_def Let_def split: if_splits option.splits)
qed

lemma decompress_bounds:
  "decompress env r = Inr data \<Longrightarrow> cq_Compress64 r \<noteq> [] \<and> length data = cq_CompressSz r \<and> 0 < cq_CompressSz r
     \<and> int (cq_CompressSz r) \<le> getConfigureLimit env"
  by (auto simp: decompress_def Let_def split: if_splits sum.splits)

lemma ValidateAndGetUUID_compressed:
  assumes "\<not> hasConfig r" and "ValidateAndGetUUID env r = Inr u"
  shows "\<exists>data inner. decompress env r = Inr data \<and> starts (CHR ''{'') (TrimSpace data)
     \<and> json_Unmarshal configure_fields (TrimSpace data) zero_configure = (inner, False)
     \<and> cq_Compress64 inner = [] \<and> ValidateAndGetUUID env inner = Inr u"
proof -
  have "configure_outer_checks r = None"
    using assms(2) by (subst (asm) ValidateAndGetUUID.simps) (simp split: option.splits)
  with assms show ?thesis
    by (subst (asm) ValidateAndGetUUID.simps) (auto simp: Let_def split: if_splits sum.splits prod.splits)
qed

lemma ValidateAndGetUUID_plain:
  assumes "cq_Compress64 r = []" and "ValidateAndGetUUID env r = Inr u"
  shows "hasConfig r"
proof (rule ccontr)
  assume "\<not> hasConfig r"
  from ValidateAndGetUUID_compressed [OF this assms(2)] decompress_bounds assms(1) show False by blast
qed

lemma ValidateAndGetUUID_sound:
  assumes "ValidateAndGetUUID env r = Inr u"
  shows "\<exists>inner. carries env r inner \<and> config_accepted env inner
     \<and> u = config_uuid (TrimSpace (cq_Config inner)) (cq_UUID inner)"
proof (cases "hasConfig r")
  case True
  with ValidateAndGetUUID_config [OF True assms] show ?thesis by (auto simp: carries_def)
next
  case False
  then obtain data inner where d: "decompress env r = Inr data" "starts (CHR ''{'') (TrimSpace data)"
    "json_Unmarshal configure_fields (TrimSpace data) zero_configure = (inner, False)"
    "cq_Compress64 inner = []" "ValidateAndGetUUID env inner = Inr u"
    using ValidateAndGetUUID_compressed [OF _ assms] by blast
  have i: "hasConfig inner" by (rule ValidateAndGetUUID_plain [OF d(4,5)])
  have "configure_outer_checks r = None"
    using assms by (subst (asm) ValidateAndGetUUID.simps) (simp split: option.splits)
  moreover have "hasCompress r" using decompress_bounds [OF d(1)] by (simp add: hasCompress_def)
  ultimately have "cq_Serial r = []" "cq_UUID r = 0" "cq_When r = 0"
    using False by (simp_all add: configure_outer_checks_def split: if_splits)
  with ValidateAndGetUUID_config [OF i d(5)] d i False show ?thesis by (auto simp: carries_def)
qed

lemma ValidateAndGetUUID_direct:
  "hasConfig r \<Longrightarrow> \<not> hasCompress r \<Longrightarrow> config_accepted env r \<Longrightarrow>
     ValidateAndGetUUID env r = Inr (config_uuid (TrimSpace (cq_Config r)) (cq_UUID r))"
  by (subst ValidateAndGetUUID.simps) (simp add: configure_outer_checks_def config_accepted_def)

lemma ValidateAndGetUUID_complete:
  assumes "carries env r inner" and "config_accepted env inner"
  shows "ValidateAndGetUUID env r = Inr (config_uuid (TrimSpace (cq_Config inner)) (cq_UUID inner))"
proof (cases "hasConfig r")
  case True
  then show ?thesis using assms ValidateAndGetUUID_direct [of r env] by (simp add: carries_def)
next
  case False
  then obtain data where d: "decompress env r = Inr data" "starts (CHR ''{'') (TrimSpace data)"
      "json_Unmarshal configure_fields (TrimSpace data) zero_configure = (inner, False)"
      "hasConfig inner" "\<not> hasCompress inner" and o: "cq_Serial r = []" "cq_UUID r = 0" "cq_When r = 0"
    using assms(1) by (auto simp: carries_def)
  have "hasCompress r" using decompress_bounds [OF d(1)] by (simp add: hasCompress_def)
  then have "configure_outer_checks r = None" using False o by (simp add: configure_outer_checks_def)
  moreover have "cq_Compress64 inner = []" using d(5) by (simp add: hasCompress_def)
  ultimately show ?thesis
    using ValidateAndGetUUID_direct [OF d(4,5) assms(2)] d False
    by (subst ValidateAndGetUUID.simps) (simp add: Let_def)
qed

text \<open>C37: a configure request is accepted exactly when it carries, directly or in one layer of
  compression and nothing else, an object that the uCentral schema accepts with a serial, a
  positive identifier and no schedule. The identifier returned is then positive, and a compressed
  payload has inflated to exactly the announced size, within the configured limit.\<close>

theorem configure_accepts_valid_configuration:
  "(ValidateAndGetUUID env r = Inr u \<longleftrightarrow>
      (\<exists>inner. carries env r inner \<and> config_accepted env inner
         \<and> u = config_uuid (TrimSpace (cq_Config inner)) (cq_UUID inner)))
   \<and> (ValidateAndGetUUID env r = Inr u \<longrightarrow> 0 < u \<and>
      (hasConfig r \<or> (\<exists>data. decompress env r = Inr data \<and> length data = cq_CompressSz r
          \<and> int (length data) \<le> getConfigureLimit env)))"
proof (rule conjI)
  show "ValidateAndGetUUID env r = Inr u \<longleftrightarrow> (\<exists>inner. carries env r inner \<and> config_accepted env inner
         \<and> u = config_uuid (TrimSpace (cq_Config inner)) (cq_UUID inner))"
    using ValidateAndGetUUID_sound [of env r u] ValidateAndGetUUID_complete [of env r] by auto
  show "ValidateAndGetUUID env r = Inr u \<longrightarrow> 0 < u \<and>
      (hasConfig r \<or> (\<exists>data. decompress env r = Inr data \<and> length data = cq_CompressSz r
          \<and> int (length data) \<le> getConfigureLimit env))"
  proof
    assume u: "ValidateAndGetUUID env r = Inr u"
    from ValidateAndGetUUID_sound [OF u] have "0 < u"
      using config_uuid_pos by (auto simp: config_accepted_def)
    moreover have "hasConfig r \<or> (\<exists>data. decompress env r = Inr data \<and> length data = cq_CompressSz r
          \<and> int (length data) \<le> getConfigureLimit env)"
      using ValidateAndGetUUID_compressed [OF _ u] decompress_bounds by metis
    ultimately show "0 < u \<and> (hasConfig r \<or> (\<exists>data. decompress env r = Inr data \<and> length data = cq_CompressSz r
          \<and> int (length data) \<le> getConfigureLimit env))" by blast
  qed
qed

definition demo_env :: contracts_env where
  "demo_env = \<lparr>ce_maxConfigureSize = 0, ce_maxCertUpdateSize = 0, ce_maxScriptSize = 0,
     ce_AllowedTraceUploadURL = ParseRequestURI ''https://up.example:8443/traces'', ce_validator = (\<lambda>_. None),
     ce_zlib = Inr, ce_cuts = []\<rparr>"

definition demo_configure :: configure_request where
  "demo_configure = \<lparr>cq_Serial = ''aabb'', cq_UUID = 5, cq_When = 0, cq_Config = ''{'' @ quoted ''uuid'' @ '':7}'',
     cq_Compress64 = [], cq_CompressSz = 0\<rparr>"

lemma demo_configure_uuid: "ValidateAndGetUUID demo_env demo_configure = Inr 7"
proof -
  have "configure_outer_checks demo_configure = None" "hasConfig demo_configure"
    "starts (CHR ''{'') (TrimSpace (cq_Config demo_configure))"
    "config_uuid (TrimSpace (cq_Config demo_configure)) (cq_UUID demo_configure) = 7"
    by code_simp+
  then show ?thesis by (subst ValidateAndGetUUID.simps) (simp add: Let_def demo_env_def)
qed

theorem configure_accepts_valid_configuration_witness:
  "\<exists>inner. carries demo_env demo_configure inner \<and> config_accepted demo_env inner
     \<and> 7 = config_uuid (TrimSpace (cq_Config inner)) (cq_UUID inner)"
  using configure_accepts_valid_configuration [of demo_env demo_configure 7] demo_configure_uuid by blast

section \<open>Identifiers fit 64 bits\<close>

lemma configure_decoded_range:
  "in_int64 (cq_UUID (fst (json_Unmarshal configure_fields data zero_configure)))"
  by (rule json_Unmarshal_keeps)
    (auto simp: zero_configure_def configure_fields_def on_field_def dec_int_range case_prod_beta)

lemma config_uuid_range: "in_int64 outer \<Longrightarrow> in_int64 (config_uuid c outer)"
  using json_Unmarshal_keeps [of in_int64 0 "[(''uuid'', dec_int)]" c]
  by (auto simp: config_uuid_def dec_int_range split: prod.splits)

lemma ValidateAndGetUUID_range:
  assumes "ValidateAndGetUUID env r = Inr u" and "in_int64 (cq_UUID r)"
  shows "in_int64 u \<and> 0 < u"
proof -
  from ValidateAndGetUUID_sound [OF assms(1)] obtain inner where
    i: "carries env r inner" "config_accepted env inner" "u = config_uuid (TrimSpace (cq_Config inner)) (cq_UUID inner)"
    by blast
  have "in_int64 (cq_UUID inner)"
  proof (cases "hasConfig r")
    case True
    with i(1) assms(2) show ?thesis by (simp add: carries_def)
  next
    case False
    with i(1) obtain data where "json_Unmarshal configure_fields (TrimSpace data) zero_configure = (inner, False)"
      by (auto simp: carries_def)
    with configure_decoded_range [of "TrimSpace data"] show ?thesis by simp
  qed
  with i show ?thesis using config_uuid_range config_uuid_pos by (auto simp: config_accepted_def)
qed

end
