(* ===== verification/Enums.thy ===== *)
theory Enums
  imports Uc_Prelude
begin

text \<open>
  The wire vocabulary of \<open>src/pkg/contracts/enums.go\<close>. The Go types are strings, so any string
  can occur; the constants are named here and the \<open>Valid\<close> methods decide membership.
\<close>

type_synonym ResultType = string
type_synonym CommandType = string
type_synonym ActionType = string

abbreviation ResultSuccess :: ResultType where "ResultSuccess \<equiv> ''success''"
abbreviation ResultRejected :: ResultType where "ResultRejected \<equiv> ''rejected''"
abbreviation ResultFailed :: ResultType where "ResultFailed \<equiv> ''failure''"
abbreviation ResultTimeout :: ResultType where "ResultTimeout \<equiv> ''timeout''"
abbreviation ResultRolledBack :: ResultType where "ResultRolledBack \<equiv> ''rolled_back''"
abbreviation ResultRollbackFailed :: ResultType where "ResultRollbackFailed \<equiv> ''rollback_failed''"
abbreviation ResultStale :: ResultType where "ResultStale \<equiv> ''stale''"
abbreviation ResultBusy :: ResultType where "ResultBusy \<equiv> ''busy''"
abbreviation ResultUnsupported :: ResultType where "ResultUnsupported \<equiv> ''unsupported''"

definition ResultType_Valid :: "ResultType \<Rightarrow> bool" where
  "ResultType_Valid r \<longleftrightarrow>
     r \<in> set [ResultSuccess, ResultRejected, ResultFailed, ResultTimeout, ResultRolledBack,
              ResultRollbackFailed, ResultStale, ResultBusy, ResultUnsupported]"

abbreviation CommandAction :: CommandType where "CommandAction \<equiv> ''action''"
abbreviation CommandConfigure :: CommandType where "CommandConfigure \<equiv> ''configure''"
abbreviation CommandExecute :: CommandType where "CommandExecute \<equiv> ''execute''"
abbreviation CommandUpgrade :: CommandType where "CommandUpgrade \<equiv> ''upgrade''"
abbreviation CommandScript :: CommandType where "CommandScript \<equiv> ''script''"
abbreviation CommandReboot :: CommandType where "CommandReboot \<equiv> ''reboot''"

abbreviation ActionUpgrade :: ActionType where "ActionUpgrade \<equiv> ''upgrade''"
abbreviation ActionReboot :: ActionType where "ActionReboot \<equiv> ''reboot''"
abbreviation ActionExecute :: ActionType where "ActionExecute \<equiv> ''execute''"
abbreviation ActionFactory :: ActionType where "ActionFactory \<equiv> ''factory''"
abbreviation ActionCertupdate :: ActionType where "ActionCertupdate \<equiv> ''certupdate''"
abbreviation ActionReenroll :: ActionType where "ActionReenroll \<equiv> ''reenroll''"
abbreviation ActionRTTY :: ActionType where "ActionRTTY \<equiv> ''rtty''"
abbreviation ActionLeds :: ActionType where "ActionLeds \<equiv> ''leds''"
abbreviation ActionTrace :: ActionType where "ActionTrace \<equiv> ''trace''"
abbreviation ActionPing :: ActionType where "ActionPing \<equiv> ''ping''"
abbreviation ActionTelemetry :: ActionType where "ActionTelemetry \<equiv> ''telemetry''"

definition CommandType_Valid :: "CommandType \<Rightarrow> bool" where
  "CommandType_Valid c \<longleftrightarrow>
     c \<in> set [CommandAction, CommandConfigure, CommandExecute, CommandUpgrade, CommandScript, CommandReboot]"

definition ActionType_Valid :: "ActionType \<Rightarrow> bool" where
  "ActionType_Valid a \<longleftrightarrow>
     a \<in> set [ActionUpgrade, ActionReboot, ActionExecute, ActionFactory, ActionCertupdate, ActionReenroll,
              ActionRTTY, ActionLeds, ActionTrace, ActionPing, ActionTelemetry]"

definition ValidCommandAction :: "CommandType \<Rightarrow> ActionType \<Rightarrow> bool" where
  "ValidCommandAction command action =
     (if action \<noteq> '''' \<and> \<not> ActionType_Valid action then False
      else if \<not> CommandType_Valid command then False
      else if command = CommandAction then ActionType_Valid action
      else if command = CommandExecute \<or> command = CommandScript then action = ActionExecute
      else if command = CommandUpgrade then action = ActionUpgrade
      else if command = CommandReboot then action = ActionReboot
      else if command = CommandConfigure then action = ''''
      else False)"

section \<open>Connection state\<close>

type_synonym ConnectionState = string
type_synonym LinkState = string

abbreviation StateConnecting :: ConnectionState where "StateConnecting \<equiv> ''connecting''"
abbreviation StateOperational :: ConnectionState where "StateOperational \<equiv> ''operational''"
abbreviation StateCloudDegraded :: ConnectionState where "StateCloudDegraded \<equiv> ''cloud_degraded''"
abbreviation StateNATSDegraded :: ConnectionState where "StateNATSDegraded \<equiv> ''nats_degraded''"

abbreviation LinkConnecting :: LinkState where "LinkConnecting \<equiv> ''connecting''"
abbreviation LinkConnected :: LinkState where "LinkConnected \<equiv> ''connected''"

definition DeriveConnectionState :: "LinkState \<Rightarrow> LinkState \<Rightarrow> ConnectionState result" where
  "DeriveConnectionState cloud nats =
     (if cloud \<noteq> LinkConnecting \<and> cloud \<noteq> LinkConnected then Inl (EMsg ''invalid cloud state'')
      else if nats \<noteq> LinkConnecting \<and> nats \<noteq> LinkConnected then Inl (EMsg ''invalid nats state'')
      else if cloud = LinkConnecting \<and> nats = LinkConnecting then Inr StateConnecting
      else if cloud = LinkConnecting \<and> nats = LinkConnected then Inr StateCloudDegraded
      else if cloud = LinkConnected \<and> nats = LinkConnecting then Inr StateNATSDegraded
      else if cloud = LinkConnected \<and> nats = LinkConnected then Inr StateOperational
      else Inl (EMsg ''unrecognized state combination''))"

text \<open>The matrix in closed form: which actions each command admits.\<close>

lemma ValidCommandAction_matrix:
  "ValidCommandAction c a \<longleftrightarrow>
     (c = CommandAction \<and> ActionType_Valid a) \<or> (c = CommandExecute \<and> a = ActionExecute)
     \<or> (c = CommandScript \<and> a = ActionExecute) \<or> (c = CommandUpgrade \<and> a = ActionUpgrade)
     \<or> (c = CommandReboot \<and> a = ActionReboot) \<or> (c = CommandConfigure \<and> a = '''')"
  by (auto simp: ValidCommandAction_def ActionType_Valid_def CommandType_Valid_def)

end
