(* ===== verification/Envelopes.thy ===== *)
theory Envelopes
  imports Rpc_Requests Enums Json_Codec
begin

text \<open>
  The validation of what crosses the local NATS bus, \<open>src/pkg/contracts/envelopes.go\<close>: targets,
  command payloads by command and action, and result payloads.
\<close>

abbreviation EnvelopeVersion :: bytes where "EnvelopeVersion \<equiv> ''1.0''"

definition ValidateNATSTarget :: "bytes \<Rightarrow> go_error option" where
  "ValidateNATSTarget target = first_error
     [(target = [], EMsg ''nats target is required and cannot be empty''),
      (TrimSpace target \<noteq> target, EMsg ''nats target must not contain leading or trailing whitespace''),
      (list_ex (\<lambda>c. c \<in> set ''.*> '' \<or> c = CHR 0x09 \<or> c = CHR 0x0D \<or> c = CHR 0x0A) target,
        EMsg ''nats target must not contain wildcards, dots, or internal whitespace'')]"

text \<open>The zero time is the instant \<open>- 62135596800 s\<close>.\<close>

definition time_IsZero :: "instant \<Rightarrow> bool" where
  "time_IsZero t \<longleftrightarrow> t = - 62135596800 * Second"

record status_query =
  dq_Version :: bytes
  dq_RPCID :: bytes
  dq_Target :: bytes
  dq_Timestamp :: instant

definition status_query_Validate :: "status_query \<Rightarrow> go_error option" where
  "status_query_Validate q = first_error
     [(dq_Version q \<noteq> EnvelopeVersion, EFmt ''unsupported envelope version'' (dq_Version q)),
      (dq_RPCID q = [] \<or> dq_Target q = [] \<or> time_IsZero (dq_Timestamp q),
        EMsg ''missing required fields in CloudDeviceStatusQuery'')]"

section \<open>Decoding exactly one value\<close>

text \<open>\<open>decoder.Decode(v)\<close> followed by the check that nothing but white space is left.\<close>

datatype 'a decode_outcome = Malformed | Trailing | Decoded 'a

definition decode_exactly :: "(bytes \<Rightarrow> 'a \<times> bool) \<Rightarrow> bytes \<Rightarrow> 'a decode_outcome" where
  "decode_exactly dec payload =
     (case decode_first payload of
        DValue raw rest \<Rightarrow>
          (case dec raw of (v, err) \<Rightarrow>
             if err then Malformed else if decode_first rest \<noteq> DEOF then Trailing else Decoded v)
      | _ \<Rightarrow> Malformed)"

section \<open>Command payloads\<close>

definition payload_error :: "string \<Rightarrow> CommandType \<Rightarrow> ActionType \<Rightarrow> string" where
  "payload_error what command action =
     what @ '' for command '' @ quoted command @ '' action '' @ quoted action"

definition check_payload ::
  "CommandType \<Rightarrow> ActionType \<Rightarrow> (bytes \<Rightarrow> 'a \<times> bool) \<Rightarrow> ('a \<Rightarrow> go_error option) \<Rightarrow> bytes \<Rightarrow> go_error option" where
  "check_payload command action dec validate payload =
     (if payload = [] \<or> payload = ''null'' then Some (EMsg (payload_error ''payload is required'' command action))
      else case decode_exactly dec payload of
        Malformed \<Rightarrow> Some (EWrap (payload_error ''malformed payload'' command action) (EMsg ''json''))
      | Trailing \<Rightarrow> Some (EMsg (payload_error ''trailing JSON in payload'' command action))
      | Decoded req \<Rightarrow>
          (case validate req of
             Some e \<Rightarrow> Some (EWrap (payload_error ''invalid payload'' command action) e)
           | None \<Rightarrow> None))"

abbreviation lenient :: "(bytes \<times> 's field_dec) list \<Rightarrow> 's \<Rightarrow> bytes \<Rightarrow> 's \<times> bool" where
  "lenient fds zero raw \<equiv> decode_struct False fds raw zero"

definition ValidateCommandPayload :: "contracts_env \<Rightarrow> CommandType \<Rightarrow> ActionType \<Rightarrow> bytes \<Rightarrow> go_error option" where
  "ValidateCommandPayload env command action payload =
     (if command = CommandConfigure then
        check_payload command action (lenient configure_fields zero_configure) (configure_Validate env) payload
      else if action = ActionFactory then
        check_payload command action (lenient factory_request_fields zero_factory_request) factory_Validate payload
      else if action = ActionCertupdate then
        check_payload command action (lenient certupdate_request_fields zero_certupdate_request) (certupdate_Validate env) payload
      else if action = ActionReenroll then
        check_payload command action (lenient reenroll_request_fields zero_reenroll_request) reenroll_Validate payload
      else if action = ActionRTTY then
        check_payload command action (lenient rtty_request_fields zero_rtty_request) rtty_Validate payload
      else if action = ActionLeds then
        check_payload command action (lenient leds_request_fields zero_leds_request) leds_Validate payload
      else if action = ActionTrace then
        check_payload command action (lenient trace_request_fields zero_trace_request) (trace_Validate env) payload
      else if action = ActionPing then
        check_payload command action (lenient ping_request_fields zero_ping_request) ping_Validate payload
      else if action = ActionTelemetry then
        check_payload command action (lenient telemetry_request_fields zero_telemetry_request) telemetry_Validate payload
      else if action = ActionReboot \<or> command = CommandReboot then
        check_payload command action (lenient reboot_request_fields zero_reboot_request) reboot_Validate payload
      else if action = ActionUpgrade \<or> command = CommandUpgrade then
        check_payload command action (lenient upgrade_request_fields zero_upgrade_request) upgrade_Validate payload
      else if action = ActionExecute \<or> command = CommandScript then
        check_payload command action script_Unmarshal (script_Validate env) payload
      else if payload \<noteq> [] \<and> \<not> json_Valid payload then Some (EMsg ''payload contains invalid JSON'')
      else None)"

section \<open>Result payloads\<close>

definition check_status :: "(bytes \<Rightarrow> 'a \<times> bool) \<Rightarrow> ('a \<Rightarrow> go_error option) \<Rightarrow> bytes \<Rightarrow> go_error option" where
  "check_status dec validate payload =
     (case decode_exactly dec payload of
        Malformed \<Rightarrow> Some (EMsg ''json'')
      | Trailing \<Rightarrow> Some (EMsg ''trailing JSON in payload'')
      | Decoded s \<Rightarrow> validate s)"

definition check_text_status :: "bytes \<Rightarrow> go_error option" where
  "check_text_status = check_status (lenient text_status_fields zero_text_status) text_Validate"

definition check_script_status :: "bytes \<Rightarrow> go_error option" where
  "check_script_status = check_status (lenient script_status_fields zero_script_status) script_status_Validate"

definition check_short_status :: "bytes \<Rightarrow> go_error option" where
  "check_short_status = check_status (lenient short_status_fields zero_short_status) short_Validate"

definition check_txt_status :: "bytes \<Rightarrow> go_error option" where
  "check_txt_status = check_status (lenient txt_status_fields zero_txt_status) txt_Validate"

definition ValidateResultPayload :: "CommandType \<Rightarrow> ActionType \<Rightarrow> bytes \<Rightarrow> go_error option" where
  "ValidateResultPayload command action payload =
     (if payload = [] \<or> TrimSpace payload = ''null'' then None
      else if command = CommandConfigure then
        check_status (lenient configure_status_fields zero_configure_status) configure_status_Validate payload
      else if command = CommandReboot then check_text_status payload
      else if command = CommandScript then check_script_status payload
      else if command = CommandUpgrade then check_text_status payload
      else if command = CommandAction then
        (if action = ActionFactory then check_text_status payload
         else if action = ActionTelemetry then check_short_status payload
         else if action = ActionRTTY then
           check_status (lenient rtty_status_fields zero_rtty_status) rtty_status_Validate payload
         else if action = ActionCertupdate then check_txt_status payload
         else if action = ActionReenroll then check_txt_status payload
         else if action = ActionLeds then check_short_status payload
         else if action = ActionTrace then
           check_status (lenient text_status_fields zero_text_status) trace_status_Validate payload
         else if action = ActionPing then Some (EMsg ''ping result payload must be empty'')
         else if action = ActionReboot then check_text_status payload
         else if action = ActionUpgrade then check_text_status payload
         else if action = ActionExecute then check_script_status payload
         else Some (EFmt ''unrecognized action for result'' action))
      else None)"

section \<open>What an accepted command may fetch\<close>

lemma check_payload_None:
  "check_payload command action dec validate payload = None \<longleftrightarrow>
     payload \<noteq> [] \<and> payload \<noteq> ''null'' \<and> (\<exists>req. decode_exactly dec payload = Decoded req \<and> validate req = None)"
  by (auto simp: check_payload_def split: decode_outcome.splits option.splits)

text \<open>A location that is fetched over HTTPS from a named host.\<close>

definition secure_uri :: "bytes \<Rightarrow> bool" where
  "secure_uri s \<longleftrightarrow> (\<exists>u. ParseRequestURI s = Some u \<and> u_Host u \<noteq> [] \<and> EqualFold (u_Scheme u) ''https'')"

text \<open>A base64 text that decodes completely to between one and \<open>n\<close> bytes.\<close>

definition bounded_base64 :: "contracts_env \<Rightarrow> int \<Rightarrow> bytes \<Rightarrow> bool" where
  "bounded_base64 env n s \<longleftrightarrow>
     (\<exists>data. base64_NewDecoder (ce_cuts env) s = (data, None) \<and> data \<noteq> [] \<and> int (length data) \<le> n)"

lemma base64_payload_None:
  "base64_payload env s n e1 e2 e3 = None \<Longrightarrow> bounded_base64 env n s"
proof -
  assume a: "base64_payload env s n e1 e2 e3 = None"
  then obtain data where "ReadAll (LimitReader (base64_NewDecoder (ce_cuts env) s) (n + 1)) = Inr data"
      "data \<noteq> []" "int (length data) \<le> n"
    by (auto simp: base64_payload_def split: sum.splits if_splits)
  then show ?thesis unfolding bounded_base64_def using ReadAll_limit_exact by blast
qed

lemma upgrade_None: "upgrade_Validate r = None \<Longrightarrow> uq_Serial r \<noteq> [] \<and> uq_When r = 0 \<and> secure_uri (uq_URI r)"
  by (auto simp: upgrade_Validate_def secure_uri_def split: if_splits option.splits)

lemma script_None:
  "script_Validate env r = None \<Longrightarrow> sq_Serial r \<noteq> [] \<and> sq_When r = 0 \<and>
     (sq_URI r = [] \<and> bounded_base64 env (getScriptLimit env) (sq_Script r) \<or> sq_Script r = [] \<and> secure_uri (sq_URI r))"
  by (auto simp: script_Validate_def secure_uri_def dest: base64_payload_None split: if_splits option.splits)

definition trace_uri_allowed :: "contracts_env \<Rightarrow> bytes \<Rightarrow> bool" where
  "trace_uri_allowed env s \<longleftrightarrow> secure_uri s \<and>
     (\<exists>u a. ParseRequestURI s = Some u \<and> ce_AllowedTraceUploadURL env = Some a
        \<and> EqualFold (u_Hostname u) (u_Hostname a) \<and> u_Port u = u_Port a \<and> u_User u = None)"

lemma trace_None:
  "trace_Validate env r = None \<Longrightarrow> tq_Serial r \<noteq> [] \<and> tq_When r = 0 \<and> (tq_URI r = [] \<or> trace_uri_allowed env (tq_URI r))"
  by (auto simp: trace_Validate_def secure_uri_def trace_uri_allowed_def split: if_splits option.splits)

lemma certupdate_None:
  "certupdate_Validate env r = None \<Longrightarrow> xq_Serial r \<noteq> [] \<and> bounded_base64 env (getCertUpdateLimit env) (xq_Certificates r)"
  by (auto simp: certupdate_Validate_def dest: base64_payload_None split: if_splits)

text \<open>C38: what the payload of an accepted command can make the device load. An upgrade is fetched over
  HTTPS from a named host; a script is either inline base64 within the size limit or fetched over
  HTTPS; a trace is uploaded, if at all, to the configured host and port over HTTPS and without
  credentials; certificates are inline base64 within the size limit. Each payload is one JSON
  value that names the serial and is not scheduled.\<close>

theorem accepted_commands_load_safely:
  assumes "ValidateCommandPayload env command action payload = None" and "ValidCommandAction command action"
  shows "(action = ActionUpgrade \<longrightarrow>
        (\<exists>r. decode_exactly (lenient upgrade_request_fields zero_upgrade_request) payload = Decoded r
           \<and> uq_Serial r \<noteq> [] \<and> uq_When r = 0 \<and> secure_uri (uq_URI r)))
     \<and> (action = ActionExecute \<longrightarrow>
        (\<exists>r. decode_exactly script_Unmarshal payload = Decoded r \<and> sq_Serial r \<noteq> [] \<and> sq_When r = 0
           \<and> (sq_URI r = [] \<and> bounded_base64 env (getScriptLimit env) (sq_Script r)
              \<or> sq_Script r = [] \<and> secure_uri (sq_URI r))))
     \<and> (action = ActionTrace \<longrightarrow>
        (\<exists>r. decode_exactly (lenient trace_request_fields zero_trace_request) payload = Decoded r
           \<and> tq_Serial r \<noteq> [] \<and> tq_When r = 0 \<and> (tq_URI r = [] \<or> trace_uri_allowed env (tq_URI r))))
     \<and> (action = ActionCertupdate \<longrightarrow>
        (\<exists>r. decode_exactly (lenient certupdate_request_fields zero_certupdate_request) payload = Decoded r
           \<and> xq_Serial r \<noteq> [] \<and> bounded_base64 env (getCertUpdateLimit env) (xq_Certificates r)))"
proof -
  have c: "command \<noteq> CommandConfigure \<or> action = ''''"
    using assms(2) by (auto simp: ValidCommandAction_def split: if_splits)
  show ?thesis
  proof (intro conjI impI)
    assume a: "action = ActionUpgrade"
    then have "command \<noteq> CommandReboot" using assms(2) by (auto simp: ValidCommandAction_def split: if_splits)
    with a assms(1) c have "check_payload command action (lenient upgrade_request_fields zero_upgrade_request) upgrade_Validate payload = None"
      by (simp add: ValidateCommandPayload_def)
    then show "\<exists>r. decode_exactly (lenient upgrade_request_fields zero_upgrade_request) payload = Decoded r
           \<and> uq_Serial r \<noteq> [] \<and> uq_When r = 0 \<and> secure_uri (uq_URI r)"
      using upgrade_None by (auto simp: check_payload_None)
  next
    assume a: "action = ActionExecute"
    then have "command \<noteq> CommandReboot" "command \<noteq> CommandUpgrade" using assms(2) by (auto simp: ValidCommandAction_def split: if_splits)
    with a assms(1) c have "check_payload command action script_Unmarshal (script_Validate env) payload = None"
      by (simp add: ValidateCommandPayload_def)
    then show "\<exists>r. decode_exactly script_Unmarshal payload = Decoded r \<and> sq_Serial r \<noteq> [] \<and> sq_When r = 0
           \<and> (sq_URI r = [] \<and> bounded_base64 env (getScriptLimit env) (sq_Script r)
              \<or> sq_Script r = [] \<and> secure_uri (sq_URI r))"
      using script_None by (auto simp: check_payload_None)
  next
    assume a: "action = ActionTrace"
    with assms(1) c have "check_payload command action (lenient trace_request_fields zero_trace_request) (trace_Validate env) payload = None"
      by (simp add: ValidateCommandPayload_def)
    then show "\<exists>r. decode_exactly (lenient trace_request_fields zero_trace_request) payload = Decoded r
           \<and> tq_Serial r \<noteq> [] \<and> tq_When r = 0 \<and> (tq_URI r = [] \<or> trace_uri_allowed env (tq_URI r))"
      using trace_None by (auto simp: check_payload_None)
  next
    assume a: "action = ActionCertupdate"
    with assms(1) c have "check_payload command action (lenient certupdate_request_fields zero_certupdate_request) (certupdate_Validate env) payload = None"
      by (simp add: ValidateCommandPayload_def)
    then show "\<exists>r. decode_exactly (lenient certupdate_request_fields zero_certupdate_request) payload = Decoded r
           \<and> xq_Serial r \<noteq> [] \<and> bounded_base64 env (getCertUpdateLimit env) (xq_Certificates r)"
      using certupdate_None by (auto simp: check_payload_None)
  qed
qed

definition demo_upgrade :: bytes where
  "demo_upgrade = object_text [(''serial'', json_quote ''aabb''), (''uri'', json_quote ''https://fw.example/x.bin'')]"

lemma demo_upgrade_decoded:
  "decode_exactly (lenient upgrade_request_fields zero_upgrade_request) demo_upgrade =
     Decoded (zero_upgrade_request\<lparr>uq_Serial := ''aabb'', uq_URI := ''https://fw.example/x.bin''\<rparr>)"
proof -
  let ?ms = "[(''serial'', json_quote ''aabb''), (''uri'', json_quote ''https://fw.example/x.bin'')]"
  have p: "list_all plain ''aabb''" "list_all plain ''https://fw.example/x.bin''"
    by (simp_all add: plain_def html_char_def)
  have "members_ok ?ms" using p by (simp add: members_ok_def scalar_quote plain_def html_char_def)
  note o = object_text_reads(2,3) [OF this, folded demo_upgrade_def]
  have "lenient upgrade_request_fields zero_upgrade_request demo_upgrade =
      set_members False upgrade_request_fields ?ms zero_upgrade_request"
    using o(2) by (simp add: decode_struct_def) (simp add: demo_upgrade_def object_text_def starts_def)
  also have "\<dots> = (zero_upgrade_request\<lparr>uq_Serial := ''aabb'', uq_URI := ''https://fw.example/x.bin''\<rparr>, False)"
    using p by (simp add: set_members_def find_field_def upgrade_request_fields_def on_field_def del: list.pred_inject(2))
  finally show ?thesis
    by (simp add: decode_exactly_def o(1)) (simp add: decode_first_def scan_start_def begin_value_def is_space_def)
qed

lemma demo_upgrade_accepted: "ValidateCommandPayload demo_env CommandUpgrade ActionUpgrade demo_upgrade = None"
proof -
  have "upgrade_Validate (zero_upgrade_request\<lparr>uq_Serial := ''aabb'', uq_URI := ''https://fw.example/x.bin''\<rparr>) = None"
    by code_simp
  moreover have "demo_upgrade \<noteq> []" "demo_upgrade \<noteq> ''null''" by (simp_all add: demo_upgrade_def object_text_def)
  ultimately show ?thesis
    using demo_upgrade_decoded by (simp add: ValidateCommandPayload_def check_payload_None)
qed

theorem accepted_commands_load_safely_witness:
  "\<exists>r. decode_exactly (lenient upgrade_request_fields zero_upgrade_request) demo_upgrade = Decoded r \<and> secure_uri (uq_URI r)"
proof -
  have "ValidCommandAction CommandUpgrade ActionUpgrade" by code_simp
  then show ?thesis using accepted_commands_load_safely [OF demo_upgrade_accepted] by blast
qed

end
