(* ===== verification/Config.thy ===== *)
theory Config
  imports Envelopes
begin

text \<open>
  Configuration loading and validation, \<open>src/pkg/config/config.go\<close>. The file system, the parsers of
  certificates and key pairs and the NATS credential parsers are the record \<open>files_env\<close>: what each
  of them answers. The validators of the source write defaults into the configuration they check,
  so they return it beside the error.
\<close>

abbreviation DefaultCompressionThresholdBytes :: int where "DefaultCompressionThresholdBytes \<equiv> 2048"
abbreviation DefaultMaxFrameSizeBytes :: int where "DefaultMaxFrameSizeBytes \<equiv> 11 * 1024 * 1024"
abbreviation DefaultMaxConsecutiveFrameErrors :: int where "DefaultMaxConsecutiveFrameErrors \<equiv> 20"
abbreviation DefaultMaxConcurrentRequests :: int where "DefaultMaxConcurrentRequests \<equiv> 100"

text \<open>The leaf certificate: its common name, DNS names and URIs (a nil URI is \<open>None\<close>).\<close>

record certificate =
  ct_CommonName :: bytes
  ct_DNSNames :: "bytes list"
  ct_URIs :: "bytes option list"

record files_env =
  fe_Stat :: "bytes \<Rightarrow> bool result"
  fe_Open :: "bytes \<Rightarrow> go_error option"
  fe_ReadFile :: "bytes \<Rightarrow> bytes result"
  fe_KeyPair :: "bytes \<Rightarrow> bytes \<Rightarrow> bytes list result"
  fe_Certificate :: "bytes \<Rightarrow> certificate result"
  fe_PEM :: "bytes \<Rightarrow> bool"
  fe_JWT :: "bytes \<Rightarrow> go_error option"
  fe_NKey :: "bytes \<Rightarrow> go_error option"

definition checkFile :: "files_env \<Rightarrow> bytes \<Rightarrow> string \<Rightarrow> go_error option" where
  "checkFile fe path name =
     (if path = [] then Some (EMsg (name @ '' is required''))
      else case fe_Stat fe path of
        Inl e \<Rightarrow> Some (EWrap (name @ '' is not accessible'') e)
      | Inr isDir \<Rightarrow>
          if isDir then Some (EMsg (name @ '' is a directory''))
          else case fe_Open fe path of
            Some e \<Rightarrow> Some (EWrap (name @ '' cannot be opened'') e)
          | None \<Rightarrow> None)"

text \<open>The first error of a list of checks that may fail, evaluated in order.\<close>

fun first_of :: "go_error option list \<Rightarrow> go_error option" where
  "first_of [] = None"
| "first_of (c # cs) = (case c of Some e \<Rightarrow> Some e | None \<Rightarrow> first_of cs)"

lemma first_of_None: "first_of cs = None \<longleftrightarrow> (\<forall>c \<in> set cs. c = None)"
  by (induction cs) (auto split: option.splits)

definition wrap_error :: "string \<Rightarrow> 'a result \<Rightarrow> go_error option" where
  "wrap_error m r = (case r of Inl e \<Rightarrow> Some (EWrap m e) | Inr x \<Rightarrow> None)"

section \<open>Records\<close>

record tls_config =
  tc_CAFile :: bytes
  tc_ClientCertFile :: bytes
  tc_ClientKeyFile :: bytes
  tc_ServerName :: bytes

record cloud_config =
  cc_URL :: bytes
  cc_ConnectTimeoutSeconds :: int
  cc_WriteTimeoutSeconds :: int
  cc_PingIntervalSeconds :: int
  cc_PongTimeoutSeconds :: int
  cc_StableSessionThresholdSeconds :: int
  cc_CompressionThresholdBytes :: int
  cc_MaxFrameSizeBytes :: int
  cc_MaxConsecutiveFrameErrors :: int
  cc_TLS :: tls_config

record nats_config =
  nc_Servers :: "bytes list"
  nc_CredentialsFile :: bytes
  nc_CAFile :: bytes
  nc_ClientCertFile :: bytes
  nc_ClientKeyFile :: bytes
  nc_AllowInsecureLocalDev :: bool
  nc_Target :: bytes

record queue_config =
  qc_WSWriterCapacity :: int
  qc_EmergencyCapacity :: int
  qc_NATSPublishCapacity :: int
  qc_CommandResultCapacity :: int
  qc_TelemetryCapacity :: int
  qc_MaxConcurrentRequests :: int

record client_config =
  cf_Serial :: bytes
  cf_Cloud :: cloud_config
  cf_NATS :: nats_config
  cf_Queues :: queue_config

section \<open>Cloud link\<close>

definition tls_Validate :: "files_env \<Rightarrow> tls_config \<Rightarrow> go_error option" where
  "tls_Validate fe c = first_of
     [checkFile fe (tc_CAFile c) ''tls ca_file'',
      checkFile fe (tc_ClientCertFile c) ''tls client_cert_file'',
      checkFile fe (tc_ClientKeyFile c) ''tls client_key_file'',
      wrap_error ''invalid tls client certificate or key'' (fe_KeyPair fe (tc_ClientCertFile c) (tc_ClientKeyFile c)),
      (case fe_ReadFile fe (tc_CAFile c) of
         Inl e \<Rightarrow> Some (EWrap ''failed to read tls ca_file'' e)
       | Inr caCert \<Rightarrow>
           if fe_PEM fe caCert then None
           else Some (EMsg ''failed to parse tls ca_file as a valid PEM CA bundle''))]"

definition norm_name :: "bytes \<Rightarrow> bytes" where "norm_name s = ToLower (TrimSpace s)"

definition tls_ValidateSerialBinding :: "files_env \<Rightarrow> tls_config \<Rightarrow> bytes \<Rightarrow> go_error option" where
  "tls_ValidateSerialBinding fe c serial =
     (if tc_ClientCertFile c = [] then None
      else case fe_KeyPair fe (tc_ClientCertFile c) (tc_ClientKeyFile c) of
        Inl e \<Rightarrow> Some (EWrap ''failed to load client certificate for serial binding validation'' e)
      | Inr [] \<Rightarrow> Some (EFmt ''no certificates found'' (tc_ClientCertFile c))
      | Inr (der # ders) \<Rightarrow>
          (case fe_Certificate fe der of
             Inl e \<Rightarrow> Some (EWrap ''failed to parse client certificate'' e)
           | Inr leaf \<Rightarrow>
               let normSerial = norm_name serial; normCN = norm_name (ct_CommonName leaf)
               in if normCN = normSerial \<and> normCN \<noteq> [] then None
                  else if list_ex (\<lambda>dns. norm_name dns = normSerial) (ct_DNSNames leaf) then None
                  else if list_ex (\<lambda>uri. case uri of None \<Rightarrow> False | Some t \<Rightarrow> norm_name t = normSerial) (ct_URIs leaf)
                  then None
                  else Some (EFmt ''serial mismatch'' serial)))"

text \<open>A value of 0 stands for the default.\<close>

definition or_default :: "int \<Rightarrow> int \<Rightarrow> int" where
  "or_default d v = (if v = 0 then d else v)"

definition cloud_Validate :: "files_env \<Rightarrow> cloud_config \<Rightarrow> go_error option \<times> cloud_config" where
  "cloud_Validate fe c =
     (case first_error
        [(cc_URL c = [], EMsg ''cloud url is required''),
         (case ParseRequestURI (cc_URL c) of None \<Rightarrow> True | Some u \<Rightarrow> u_Scheme u \<noteq> ''wss'' \<or> u_Host u = [],
            EMsg ''cloud url must be a valid wss URL''),
         (cc_ConnectTimeoutSeconds c \<le> 0, EMsg ''cloud connect_timeout_seconds must be positive''),
         (cc_WriteTimeoutSeconds c \<le> 0, EMsg ''cloud write_timeout_seconds must be positive''),
         (cc_PingIntervalSeconds c \<le> 0, EMsg ''cloud ping_interval_seconds must be positive''),
         (cc_PongTimeoutSeconds c \<le> 0, EMsg ''cloud pong_timeout_seconds must be positive''),
         (cc_StableSessionThresholdSeconds c \<le> 0, EMsg ''cloud stable_session_threshold_seconds must be positive''),
         (cc_CompressionThresholdBytes c < 0, EMsg ''cloud compression_threshold_bytes must be positive'')] of
        Some e \<Rightarrow> (Some e, c)
      | None \<Rightarrow>
          let c1 = c\<lparr>cc_CompressionThresholdBytes := or_default DefaultCompressionThresholdBytes (cc_CompressionThresholdBytes c)\<rparr>
          in if cc_MaxFrameSizeBytes c < 0 then (Some (EMsg ''cloud max_frame_size_bytes must be zero or positive''), c1)
             else
               let c2 = c1\<lparr>cc_MaxFrameSizeBytes := or_default DefaultMaxFrameSizeBytes (cc_MaxFrameSizeBytes c)\<rparr>
               in if cc_MaxConsecutiveFrameErrors c < 0
                  then (Some (EMsg ''cloud max_consecutive_frame_errors must be zero or positive''), c2)
                  else
                    let c3 = c2\<lparr>cc_MaxConsecutiveFrameErrors :=
                               or_default DefaultMaxConsecutiveFrameErrors (cc_MaxConsecutiveFrameErrors c)\<rparr>
                    in (tls_Validate fe (cc_TLS c), c3))"

section \<open>NATS link\<close>

text \<open>The check of one server; the flag tells whether its scheme is the insecure one.\<close>

definition server_check :: "bool \<Rightarrow> bytes \<Rightarrow> bool result" where
  "server_check allowInsecure srv =
     (case ParseRequestURI srv of
        None \<Rightarrow> Inl (EMsg ''nats server must be a valid URL'')
      | Some u \<Rightarrow>
          (case first_error
             [(u_Host u = [], EMsg ''nats server must be a valid URL''),
              (u_Path u \<noteq> [] \<and> u_Path u \<noteq> ''/'' \<or> u_RawQuery u \<noteq> [],
                 EMsg ''nats server URL must contain only scheme, host, and port (no paths, queries, or fragments)''),
              (\<not> allowInsecure \<and> u_Scheme u \<noteq> ''tls'', EMsg ''nats server must use tls://''),
              (allowInsecure \<and> u_Scheme u \<noteq> ''tls'' \<and> u_Scheme u \<noteq> ''nats'', EMsg ''nats server must use tls:// or nats://'')] of
             Some e \<Rightarrow> Inl e
           | None \<Rightarrow> Inr (u_Scheme u = ''nats'')))"

fun servers_check :: "bool \<Rightarrow> bytes list \<Rightarrow> bool \<Rightarrow> bool result" where
  "servers_check allowInsecure [] ins = Inr ins"
| "servers_check allowInsecure (srv # srvs) ins =
     (case server_check allowInsecure srv of
        Inl e \<Rightarrow> Inl e
      | Inr nats \<Rightarrow> servers_check allowInsecure srvs (ins \<or> nats))"

definition is_local_host :: "bytes \<Rightarrow> bool" where
  "is_local_host host \<longleftrightarrow> host = ''localhost'' \<or> host = ''nats-server'' \<or>
     (case ParseIP host of None \<Rightarrow> False | Some ip \<Rightarrow> IsLoopback ip \<or> IsPrivate ip)"

definition server_is_local :: "bytes \<Rightarrow> bool" where
  "server_is_local srv = (case ParseRequestURI srv of None \<Rightarrow> False | Some u \<Rightarrow> is_local_host (u_Hostname u))"

definition credentials_check :: "files_env \<Rightarrow> nats_config \<Rightarrow> go_error option" where
  "credentials_check fe n =
     (if nc_CredentialsFile n = [] then
        (if nc_AllowInsecureLocalDev n then None else Some (EMsg ''nats credentials_file is strictly required in production''))
      else case checkFile fe (nc_CredentialsFile n) ''nats credentials_file'' of
        Some e \<Rightarrow> Some e
      | None \<Rightarrow>
          (case fe_ReadFile fe (nc_CredentialsFile n) of
             Inl e \<Rightarrow> Some (EWrap ''failed to read nats credentials_file'' e)
           | Inr creds \<Rightarrow> first_of
               [map_option (EWrap ''failed to parse JWT from nats credentials_file'') (fe_JWT fe creds),
                map_option (EWrap ''failed to parse NKey from nats credentials_file'') (fe_NKey fe creds)]))"

definition nats_ca_check :: "files_env \<Rightarrow> nats_config \<Rightarrow> go_error option" where
  "nats_ca_check fe n =
     (if nc_CAFile n = [] then
        (if nc_AllowInsecureLocalDev n then None else Some (EMsg ''nats ca_file is strictly required in production''))
      else case checkFile fe (nc_CAFile n) ''nats ca_file'' of
        Some e \<Rightarrow> Some e
      | None \<Rightarrow>
          (case fe_ReadFile fe (nc_CAFile n) of
             Inl e \<Rightarrow> Some (EWrap ''failed to read nats ca_file'' e)
           | Inr ca \<Rightarrow>
               if fe_PEM fe ca then None
               else Some (EMsg ''failed to parse nats ca_file as a valid PEM CA bundle'')))"

definition nats_mtls_check :: "files_env \<Rightarrow> nats_config \<Rightarrow> go_error option" where
  "nats_mtls_check fe n =
     (if (nc_ClientCertFile n = []) \<noteq> (nc_ClientKeyFile n = [])
      then Some (EMsg ''nats client_cert_file and client_key_file must both be provided for mTLS'')
      else if nc_ClientCertFile n = [] then None
      else first_of
        [checkFile fe (nc_ClientCertFile n) ''nats client_cert_file'',
         checkFile fe (nc_ClientKeyFile n) ''nats client_key_file'',
         wrap_error ''invalid nats client certificate or key'' (fe_KeyPair fe (nc_ClientCertFile n) (nc_ClientKeyFile n))])"

definition nats_default :: "nats_config \<Rightarrow> nats_config" where
  "nats_default n = (if nc_Target n = [] then n\<lparr>nc_Target := ''vyos''\<rparr> else n)"

definition nats_check :: "files_env \<Rightarrow> nats_config \<Rightarrow> go_error option" where
  "nats_check fe n =
     (case ValidateNATSTarget (nc_Target n) of
        Some e \<Rightarrow> Some (EWrap ''nats target is invalid'' e)
      | None \<Rightarrow>
          if nc_Servers n = [] then Some (EMsg ''nats servers are required'')
          else case servers_check (nc_AllowInsecureLocalDev n) (nc_Servers n)
                      (nc_CredentialsFile n = [] \<or> nc_CAFile n = []) of
            Inl e \<Rightarrow> Some e
          | Inr hasInsecureFeatures \<Rightarrow>
              if hasInsecureFeatures \<and> nc_AllowInsecureLocalDev n \<and> \<not> list_all server_is_local (nc_Servers n)
              then Some (EMsg ''insecure features are only permitted for loopback addresses or private local dev addresses'')
              else first_of [credentials_check fe n, nats_ca_check fe n, nats_mtls_check fe n])"

definition nats_Validate :: "files_env \<Rightarrow> nats_config \<Rightarrow> go_error option \<times> nats_config" where
  "nats_Validate fe n0 = (let n = nats_default n0 in (nats_check fe n, n))"

section \<open>Queues and the whole configuration\<close>

definition queue_Validate :: "queue_config \<Rightarrow> go_error option \<times> queue_config" where
  "queue_Validate q =
     (case first_error
        [(qc_WSWriterCapacity q \<le> 0, EMsg ''ws_writer_capacity must be positive''),
         (qc_EmergencyCapacity q \<le> 0, EMsg ''emergency_capacity must be positive''),
         (qc_NATSPublishCapacity q \<le> 0, EMsg ''nats_publish_capacity must be positive''),
         (qc_CommandResultCapacity q \<le> 0, EMsg ''command_result_capacity must be positive''),
         (qc_TelemetryCapacity q \<le> 0, EMsg ''telemetry_capacity must be positive''),
         (qc_MaxConcurrentRequests q < 0, EMsg ''max_concurrent_requests must be positive'')] of
        Some e \<Rightarrow> (Some e, q)
      | None \<Rightarrow> (None, q\<lparr>qc_MaxConcurrentRequests := or_default DefaultMaxConcurrentRequests (qc_MaxConcurrentRequests q)\<rparr>))"

definition Config_Validate :: "files_env \<Rightarrow> client_config \<Rightarrow> go_error option \<times> client_config" where
  "Config_Validate fe c =
     (case cloud_Validate fe (cf_Cloud c) of
        (Some e, cl) \<Rightarrow> (Some e, c\<lparr>cf_Cloud := cl\<rparr>)
      | (None, cl) \<Rightarrow>
          (case nats_Validate fe (cf_NATS c) of
             (Some e, n) \<Rightarrow> (Some e, c\<lparr>cf_Cloud := cl, cf_NATS := n\<rparr>)
           | (None, n) \<Rightarrow>
               (case queue_Validate (cf_Queues c) of
                  (r, q) \<Rightarrow> (r, c\<lparr>cf_Cloud := cl, cf_NATS := n, cf_Queues := q\<rparr>))))"

definition Config_ValidateSerialBinding :: "files_env \<Rightarrow> client_config \<Rightarrow> go_error option" where
  "Config_ValidateSerialBinding fe c =
     (if cf_Serial c = [] then Some (EMsg ''serial cannot be empty for serial binding validation'')
      else tls_ValidateSerialBinding fe (cc_TLS (cf_Cloud c)) (cf_Serial c))"

section \<open>Loading\<close>

definition dec_object :: "(bytes \<times> 's field_dec) list \<Rightarrow> 's field_dec" where
  "dec_object fds cur raw = decode_struct False fds raw cur"

definition tls_fields :: "(bytes \<times> tls_config field_dec) list" where
  "tls_fields =
     [(''ca_file'', on_field tc_CAFile tc_CAFile_update dec_string),
      (''client_cert_file'', on_field tc_ClientCertFile tc_ClientCertFile_update dec_string),
      (''client_key_file'', on_field tc_ClientKeyFile tc_ClientKeyFile_update dec_string),
      (''server_name'', on_field tc_ServerName tc_ServerName_update dec_string)]"

definition cloud_fields :: "(bytes \<times> cloud_config field_dec) list" where
  "cloud_fields =
     [(''url'', on_field cc_URL cc_URL_update dec_string),
      (''connect_timeout_seconds'', on_field cc_ConnectTimeoutSeconds cc_ConnectTimeoutSeconds_update dec_int),
      (''write_timeout_seconds'', on_field cc_WriteTimeoutSeconds cc_WriteTimeoutSeconds_update dec_int),
      (''ping_interval_seconds'', on_field cc_PingIntervalSeconds cc_PingIntervalSeconds_update dec_int),
      (''pong_timeout_seconds'', on_field cc_PongTimeoutSeconds cc_PongTimeoutSeconds_update dec_int),
      (''stable_session_threshold_seconds'', on_field cc_StableSessionThresholdSeconds cc_StableSessionThresholdSeconds_update dec_int),
      (''compression_threshold_bytes'', on_field cc_CompressionThresholdBytes cc_CompressionThresholdBytes_update dec_int),
      (''max_frame_size_bytes'', on_field cc_MaxFrameSizeBytes cc_MaxFrameSizeBytes_update dec_int),
      (''max_consecutive_frame_errors'', on_field cc_MaxConsecutiveFrameErrors cc_MaxConsecutiveFrameErrors_update dec_int),
      (''tls'', on_field cc_TLS cc_TLS_update (dec_object tls_fields))]"

definition nats_fields :: "(bytes \<times> nats_config field_dec) list" where
  "nats_fields =
     [(''servers'', on_field nc_Servers nc_Servers_update dec_strings),
      (''credentials_file'', on_field nc_CredentialsFile nc_CredentialsFile_update dec_string),
      (''ca_file'', on_field nc_CAFile nc_CAFile_update dec_string),
      (''client_cert_file'', on_field nc_ClientCertFile nc_ClientCertFile_update dec_string),
      (''client_key_file'', on_field nc_ClientKeyFile nc_ClientKeyFile_update dec_string),
      (''allow_insecure_local_dev'', on_field nc_AllowInsecureLocalDev nc_AllowInsecureLocalDev_update dec_bool),
      (''target'', on_field nc_Target nc_Target_update dec_string)]"

definition queue_fields :: "(bytes \<times> queue_config field_dec) list" where
  "queue_fields =
     [(''ws_writer_capacity'', on_field qc_WSWriterCapacity qc_WSWriterCapacity_update dec_int),
      (''emergency_capacity'', on_field qc_EmergencyCapacity qc_EmergencyCapacity_update dec_int),
      (''nats_publish_capacity'', on_field qc_NATSPublishCapacity qc_NATSPublishCapacity_update dec_int),
      (''command_result_capacity'', on_field qc_CommandResultCapacity qc_CommandResultCapacity_update dec_int),
      (''telemetry_capacity'', on_field qc_TelemetryCapacity qc_TelemetryCapacity_update dec_int),
      (''max_concurrent_requests'', on_field qc_MaxConcurrentRequests qc_MaxConcurrentRequests_update dec_int)]"

definition zero_config :: client_config where
  "zero_config = \<lparr>cf_Serial = [],
     cf_Cloud = \<lparr>cc_URL = [], cc_ConnectTimeoutSeconds = 0, cc_WriteTimeoutSeconds = 0, cc_PingIntervalSeconds = 0,
       cc_PongTimeoutSeconds = 0, cc_StableSessionThresholdSeconds = 0, cc_CompressionThresholdBytes = 0,
       cc_MaxFrameSizeBytes = 0, cc_MaxConsecutiveFrameErrors = 0,
       cc_TLS = \<lparr>tc_CAFile = [], tc_ClientCertFile = [], tc_ClientKeyFile = [], tc_ServerName = []\<rparr>\<rparr>,
     cf_NATS = \<lparr>nc_Servers = [], nc_CredentialsFile = [], nc_CAFile = [], nc_ClientCertFile = [], nc_ClientKeyFile = [],
       nc_AllowInsecureLocalDev = False, nc_Target = []\<rparr>,
     cf_Queues = \<lparr>qc_WSWriterCapacity = 0, qc_EmergencyCapacity = 0, qc_NATSPublishCapacity = 0,
       qc_CommandResultCapacity = 0, qc_TelemetryCapacity = 0, qc_MaxConcurrentRequests = 0\<rparr>\<rparr>"

text \<open>The serial is never read from the file (its JSON name is \<open>-\<close>).\<close>

definition config_fields :: "(bytes \<times> client_config field_dec) list" where
  "config_fields =
     [(''cloud'', on_field cf_Cloud cf_Cloud_update (dec_object cloud_fields)),
      (''nats'', on_field cf_NATS cf_NATS_update (dec_object nats_fields)),
      (''queues'', on_field cf_Queues cf_Queues_update (dec_object queue_fields))]"

definition LoadConfig :: "files_env \<Rightarrow> bytes \<Rightarrow> client_config result" where
  "LoadConfig fe path =
     (case fe_ReadFile fe path of
        Inl e \<Rightarrow> Inl (EWrap ''failed to read configuration file'' e)
      | Inr data \<Rightarrow>
          (case json_Unmarshal config_fields data zero_config of
             (cfg, err) \<Rightarrow> if err then Inl (EWrap ''failed to parse configuration JSON'' (EMsg ''json'')) else Inr cfg))"

definition LoadSerialFromMapping :: "files_env \<Rightarrow> bytes \<Rightarrow> bytes result" where
  "LoadSerialFromMapping fe path =
     (case fe_ReadFile fe path of
        Inl e \<Rightarrow> Inl (EWrap ''failed to read interface map file'' e)
      | Inr data \<Rightarrow>
          (case json_Unmarshal [(''serial'', dec_string)] data [] of
             (s, err) \<Rightarrow>
               if err then Inl (EWrap ''failed to parse interface map JSON'' (EMsg ''json''))
               else if TrimSpace s = [] then Inl (EMsg ''serial field is empty or whitespace in mapping file'')
               else Inr (TrimSpace s)))"

section \<open>Cache lifetimes from the environment\<close>

text \<open>\<open>time.ParseDuration\<close>. The fraction of a unit is truncated to nanoseconds; Go computes it in
  \<open>float64\<close>, which can differ in the last nanosecond.\<close>

definition unit_map :: "(bytes \<times> nat) list" where
  "unit_map =
     [(''ns'', 1), (''us'', 1000), ([CHR 0xC2, CHR 0xB5] @ ''s'', 1000), ([CHR 0xCE, CHR 0xBC] @ ''s'', 1000),
      (''ms'', 1000000), (''s'', 1000000000), (''m'', 60000000000), (''h'', 3600000000000)]"

definition dur_digit :: "char \<Rightarrow> bool" where "dur_digit c \<longleftrightarrow> c = CHR ''.'' \<or> is_digit c"

text \<open>One number with its unit, in nanoseconds, and the rest of the text.\<close>

definition duration_term :: "bytes \<Rightarrow> (nat \<times> bytes) option" where
  "duration_term s =
     (let ip = takeWhile is_digit s; r1 = drop (length ip) s;
          fp = (if take 1 r1 = ''.'' then takeWhile is_digit (tl r1) else []);
          r2 = (if take 1 r1 = ''.'' then drop (length fp) (tl r1) else r1);
          u = takeWhile (\<lambda>c. \<not> dur_digit c) r2
      in if ip = [] \<and> fp = [] \<or> 2 ^ 63 < digits_val ip then None
         else case map_of unit_map u of
           None \<Rightarrow> None
         | Some k \<Rightarrow>
             let v = digits_val ip * k + digits_val fp * k div 10 ^ length fp
             in if 2 ^ 63 div k < digits_val ip \<or> 2 ^ 63 < v then None else Some (v, drop (length u) r2))"

text \<open>The sum over the text; every term takes at least one character, so its length is fuel enough.\<close>

fun duration_sum :: "nat \<Rightarrow> bytes \<Rightarrow> nat \<Rightarrow> nat option" where
  "duration_sum 0 s d = (if s = [] then Some d else None)"
| "duration_sum (Suc fuel) s d =
     (if s = [] then Some d
      else case duration_term s of
        None \<Rightarrow> None
      | Some (v, r) \<Rightarrow> if 2 ^ 63 < d + v then None else duration_sum fuel r (d + v))"

definition ParseDuration :: "bytes \<Rightarrow> duration option" where
  "ParseDuration s0 =
     (let neg = (take 1 s0 = ''-''); s = (if take 1 s0 = ''-'' \<or> take 1 s0 = ''+'' then tl s0 else s0)
      in if s = ''0'' then Some 0
         else if s = [] then None
         else case duration_sum (length s) s 0 of
           None \<Rightarrow> None
         | Some d \<Rightarrow> if neg then Some (- int d) else if 2 ^ 63 \<le> d then None else Some (int d))"

text \<open>A variable that is unset or empty gives the default; the result is in whole seconds.\<close>

definition parseEnvDuration :: "(string \<Rightarrow> bytes) \<Rightarrow> string \<Rightarrow> duration \<Rightarrow> int result" where
  "parseEnvDuration getenv envKey defaultDuration =
     (let val = getenv envKey
      in if val = [] then Inr (defaultDuration div Second)
         else case ParseDuration val of
           None \<Rightarrow> Inl (EWrap (''failed to parse '' @ envKey) (EMsg ''time: invalid duration''))
         | Some d \<Rightarrow>
             if d < Second then Inl (EMsg (envKey @ '' must be at least 1s'')) else Inr (d div Second))"

record cache_ttl_settings =
  cs_Configure :: int
  cs_LEDs :: int
  cs_Reboot :: int
  cs_RemoteAccess :: int
  cs_Factory :: int
  cs_Upgrade :: int
  cs_Certupdate :: int
  cs_Reenroll :: int
  cs_Script :: int
  cs_Default :: int

fun parse_all :: "(string \<Rightarrow> bytes) \<Rightarrow> (string \<times> duration) list \<Rightarrow> int list result" where
  "parse_all getenv [] = Inr []"
| "parse_all getenv ((k, d) # kds) =
     (case parseEnvDuration getenv k d of
        Inl e \<Rightarrow> Inl e
      | Inr v \<Rightarrow> (case parse_all getenv kds of Inl e \<Rightarrow> Inl e | Inr vs \<Rightarrow> Inr (v # vs)))"

definition ttl_variables :: "(string \<times> duration) list" where
  "ttl_variables =
     [(''OLG_CACHE_TTL_CONFIGURE'', 5 * Minute), (''OLG_CACHE_TTL_LEDS'', 5 * Minute),
      (''OLG_CACHE_TTL_REBOOT'', 10 * Minute), (''OLG_CACHE_TTL_REMOTE_ACCESS'', 10 * Minute),
      (''OLG_CACHE_TTL_FACTORY'', 30 * Minute), (''OLG_CACHE_TTL_UPGRADE'', 60 * Minute),
      (''OLG_CACHE_TTL_CERTUPDATE'', 30 * Minute), (''OLG_CACHE_TTL_REENROLL'', 30 * Minute),
      (''OLG_CACHE_TTL_SCRIPT'', 30 * Minute), (''OLG_CACHE_TTL_DEFAULT'', 2 * Minute)]"

definition LoadCacheTTLConfigFromEnv :: "(string \<Rightarrow> bytes) \<Rightarrow> cache_ttl_settings result" where
  "LoadCacheTTLConfigFromEnv getenv =
     (case parse_all getenv ttl_variables of
        Inr [a, b, c, d, e, f, g, h, i, j] \<Rightarrow>
          Inr \<lparr>cs_Configure = a, cs_LEDs = b, cs_Reboot = c, cs_RemoteAccess = d, cs_Factory = e, cs_Upgrade = f,
               cs_Certupdate = g, cs_Reenroll = h, cs_Script = i, cs_Default = j\<rparr>
      | Inr _ \<Rightarrow> Inl (EMsg ''unreachable'')
      | Inl e \<Rightarrow> Inl e)"

definition settings_TTLForMethod :: "cache_ttl_settings \<Rightarrow> string \<Rightarrow> int" where
  "settings_TTLForMethod c meth =
     (let m = ToLower meth
      in if m = ''configure'' then cs_Configure c
         else if m = ''leds'' then cs_LEDs c
         else if m = ''reboot'' then cs_Reboot c
         else if m = ''remoteaccess'' \<or> m = ''remote_access'' \<or> m = ''rtty'' then cs_RemoteAccess c
         else if m = ''factory'' then cs_Factory c
         else if m = ''upgrade'' then cs_Upgrade c
         else if m = ''certupdate'' then cs_Certupdate c
         else if m = ''reenroll'' then cs_Reenroll c
         else if m = ''script'' then cs_Script c
         else cs_Default c)"

section \<open>What a validated configuration guarantees\<close>

definition cloud_ok :: "files_env \<Rightarrow> cloud_config \<Rightarrow> bool" where
  "cloud_ok fe c \<longleftrightarrow>
     (\<exists>u. ParseRequestURI (cc_URL c) = Some u \<and> u_Scheme u = ''wss'' \<and> u_Host u \<noteq> [])
     \<and> 0 < cc_ConnectTimeoutSeconds c \<and> 0 < cc_WriteTimeoutSeconds c \<and> 0 < cc_PingIntervalSeconds c
     \<and> 0 < cc_PongTimeoutSeconds c \<and> 0 < cc_StableSessionThresholdSeconds c \<and> 0 < cc_CompressionThresholdBytes c
     \<and> 0 < cc_MaxFrameSizeBytes c \<and> 0 < cc_MaxConsecutiveFrameErrors c \<and> tls_Validate fe (cc_TLS c) = None"

definition uses_scheme :: "bytes \<Rightarrow> bytes \<Rightarrow> bool" where
  "uses_scheme scheme srv \<longleftrightarrow> (\<exists>u. ParseRequestURI srv = Some u \<and> u_Host u \<noteq> [] \<and> u_Scheme u = scheme)"

text \<open>Production: TLS, credentials and a CA. Development: without them only towards local hosts.\<close>

definition nats_ok :: "nats_config \<Rightarrow> bool" where
  "nats_ok n \<longleftrightarrow> ValidateNATSTarget (nc_Target n) = None \<and> nc_Servers n \<noteq> []
     \<and> (\<forall>srv \<in> set (nc_Servers n). uses_scheme ''tls'' srv \<or> nc_AllowInsecureLocalDev n \<and> uses_scheme ''nats'' srv)
     \<and> (if nc_AllowInsecureLocalDev n
         then nc_CredentialsFile n \<noteq> [] \<and> nc_CAFile n \<noteq> [] \<and> (\<forall>srv \<in> set (nc_Servers n). uses_scheme ''tls'' srv)
           \<or> (\<forall>srv \<in> set (nc_Servers n). server_is_local srv)
         else nc_CredentialsFile n \<noteq> [] \<and> nc_CAFile n \<noteq> [])"

definition queue_ok :: "queue_config \<Rightarrow> bool" where
  "queue_ok q \<longleftrightarrow> 0 < qc_WSWriterCapacity q \<and> 0 < qc_EmergencyCapacity q \<and> 0 < qc_NATSPublishCapacity q
     \<and> 0 < qc_CommandResultCapacity q \<and> 0 < qc_TelemetryCapacity q \<and> 0 < qc_MaxConcurrentRequests q"

lemma or_default_id: "0 < v \<Longrightarrow> or_default d v = v"
  by (simp add: or_default_def)

lemma cloud_Validate_ok: "cloud_Validate fe c = (None, c') \<Longrightarrow> cloud_ok fe c'"
  by (auto simp: cloud_Validate_def cloud_ok_def or_default_def Let_def split: if_splits option.splits)

lemma ParseRequestURI_Nil [simp]: "ParseRequestURI [] = None"
  by (simp add: ParseRequestURI_def url_parse_def)

lemma cloud_Validate_stable: "cloud_ok fe c \<Longrightarrow> cloud_Validate fe c = (None, c)"
  by (auto simp: cloud_Validate_def cloud_ok_def or_default_id Let_def)

lemma server_check_ok:
  "server_check ins srv = Inr b \<Longrightarrow>
     (uses_scheme ''tls'' srv \<and> \<not> b) \<or> (ins \<and> uses_scheme ''nats'' srv \<and> b)"
  by (auto simp: server_check_def uses_scheme_def split: option.splits if_splits)

lemma servers_check_ok:
  "servers_check ins srvs b0 = Inr b \<Longrightarrow>
     (\<forall>srv \<in> set srvs. uses_scheme ''tls'' srv \<or> ins \<and> uses_scheme ''nats'' srv)
     \<and> (b0 \<longrightarrow> b) \<and> (\<not> b \<longrightarrow> (\<forall>srv \<in> set srvs. uses_scheme ''tls'' srv))"
proof (induction srvs arbitrary: b0)
  case (Cons srv srvs)
  then obtain x where x: "server_check ins srv = Inr x" and r: "servers_check ins srvs (b0 \<or> x) = Inr b"
    by (auto split: sum.splits)
  from Cons.IH [OF r] server_check_ok [OF x] show ?case by auto
qed simp

lemma nats_Validate_ok:
  assumes "nats_Validate fe n0 = (None, n)"
  shows "nats_ok n"
proof -
  from assms obtain b where t: "ValidateNATSTarget (nc_Target n) = None" "nc_Servers n \<noteq> []"
    and s: "servers_check (nc_AllowInsecureLocalDev n) (nc_Servers n) (nc_CredentialsFile n = [] \<or> nc_CAFile n = []) = Inr b"
    and l: "b \<and> nc_AllowInsecureLocalDev n \<longrightarrow> list_all server_is_local (nc_Servers n)"
    and c: "credentials_check fe n = None" "nats_ca_check fe n = None"
    by (auto simp: nats_Validate_def nats_check_def first_of_None Let_def split: option.splits if_splits sum.splits)
  have "\<not> nc_AllowInsecureLocalDev n \<longrightarrow> nc_CredentialsFile n \<noteq> [] \<and> nc_CAFile n \<noteq> []"
    using c by (auto simp: credentials_check_def nats_ca_check_def split: if_splits)
  then show ?thesis
    using t l servers_check_ok [OF s] unfolding nats_ok_def list_all_iff by (auto split: if_splits)
qed

lemma nats_default_idem [simp]: "nats_default (nats_default n) = nats_default n"
  by (simp add: nats_default_def)

lemma nats_Validate_stable: "nats_Validate fe n0 = (None, n) \<Longrightarrow> nats_Validate fe n = (None, n)"
  by (auto simp: nats_Validate_def Let_def)

lemma queue_Validate_ok: "queue_Validate q = (None, q') \<Longrightarrow> queue_ok q'"
  by (auto simp: queue_Validate_def queue_ok_def or_default_def split: if_splits)

lemma queue_Validate_stable: "queue_ok q \<Longrightarrow> queue_Validate q = (None, q)"
  by (simp add: queue_Validate_def queue_ok_def or_default_id)

text \<open>C39: a configuration that passes validation has a secure cloud URL with a loadable client key
  pair and CA, only positive time-outs, sizes and capacities, and a NATS link that in production
  uses TLS with credentials and a CA, and that without these protections reaches only local
  hosts. Validating the result again changes nothing.\<close>

theorem validated_configuration_is_secure:
  assumes "Config_Validate fe c = (None, c')"
  shows "cloud_ok fe (cf_Cloud c') \<and> nats_ok (cf_NATS c') \<and> queue_ok (cf_Queues c')
     \<and> cf_Serial c' = cf_Serial c \<and> Config_Validate fe c' = (None, c')"
proof -
  from assms obtain cl n q where p: "cloud_Validate fe (cf_Cloud c) = (None, cl)"
      "nats_Validate fe (cf_NATS c) = (None, n)" "queue_Validate (cf_Queues c) = (None, q)"
    and c': "c' = c\<lparr>cf_Cloud := cl, cf_NATS := n, cf_Queues := q\<rparr>"
    by (auto simp: Config_Validate_def split: prod.splits option.splits)
  note ok = cloud_Validate_ok [OF p(1)] nats_Validate_ok [OF p(2)] queue_Validate_ok [OF p(3)]
  then show ?thesis
    using nats_Validate_stable [OF p(2)] cloud_Validate_stable queue_Validate_stable
    by (simp add: c' Config_Validate_def)
qed

definition demo_files :: files_env where
  "demo_files = \<lparr>fe_Stat = (\<lambda>_. Inr False), fe_Open = (\<lambda>_. None), fe_ReadFile = (\<lambda>p. Inr p),
     fe_KeyPair = (\<lambda>c k. Inr [c]), fe_Certificate = (\<lambda>d. Inr \<lparr>ct_CommonName = ''AABB'', ct_DNSNames = [], ct_URIs = []\<rparr>),
     fe_PEM = (\<lambda>_. True), fe_JWT = (\<lambda>_. None), fe_NKey = (\<lambda>_. None)\<rparr>"

definition demo_config :: client_config where
  "demo_config = zero_config\<lparr>cf_Serial := ''aabb'',
     cf_Cloud := \<lparr>cc_URL = ''wss://gw.example:15002'', cc_ConnectTimeoutSeconds = 10, cc_WriteTimeoutSeconds = 10,
       cc_PingIntervalSeconds = 30, cc_PongTimeoutSeconds = 60, cc_StableSessionThresholdSeconds = 60,
       cc_CompressionThresholdBytes = 0, cc_MaxFrameSizeBytes = 0, cc_MaxConsecutiveFrameErrors = 0,
       cc_TLS = \<lparr>tc_CAFile = ''ca'', tc_ClientCertFile = ''crt'', tc_ClientKeyFile = ''key'', tc_ServerName = []\<rparr>\<rparr>,
     cf_NATS := \<lparr>nc_Servers = [''tls://bus.example:4222''], nc_CredentialsFile = ''creds'', nc_CAFile = ''ca'',
       nc_ClientCertFile = [], nc_ClientKeyFile = [], nc_AllowInsecureLocalDev = False, nc_Target = []\<rparr>,
     cf_Queues := \<lparr>qc_WSWriterCapacity = 8, qc_EmergencyCapacity = 4, qc_NATSPublishCapacity = 8,
       qc_CommandResultCapacity = 8, qc_TelemetryCapacity = 8, qc_MaxConcurrentRequests = 0\<rparr>\<rparr>"

lemma demo_config_valid: "fst (Config_Validate demo_files demo_config) = None"
proof -
  have u: "ParseRequestURI ''wss://gw.example:15002'' = Some \<lparr>u_Scheme = ''wss'', u_Opaque = [], u_User = None,
      u_Host = ''gw.example:15002'', u_Path = [], u_RawQuery = []\<rparr>"
    and s: "ParseRequestURI ''tls://bus.example:4222'' = Some \<lparr>u_Scheme = ''tls'', u_Opaque = [], u_User = None,
      u_Host = ''bus.example:4222'', u_Path = [], u_RawQuery = []\<rparr>"
    and t: "ValidateNATSTarget ''vyos'' = None"
    by code_simp+
  show ?thesis
    by (simp add: Config_Validate_def demo_config_def cloud_Validate_def u tls_Validate_def checkFile_def
        wrap_error_def demo_files_def nats_Validate_def nats_check_def nats_default_def t server_check_def s credentials_check_def nats_ca_check_def
        nats_mtls_check_def queue_Validate_def Let_def or_default_def zero_config_def)
qed

theorem validated_configuration_is_secure_witness:
  "nats_ok (cf_NATS (snd (Config_Validate demo_files demo_config)))
     \<and> cloud_ok demo_files (cf_Cloud (snd (Config_Validate demo_files demo_config)))"
proof -
  have "Config_Validate demo_files demo_config = (None, snd (Config_Validate demo_files demo_config))"
    using demo_config_valid by (metis prod.collapse)
  from validated_configuration_is_secure [OF this] show ?thesis by blast
qed

end
