(* ===== verification/Nats_Client.thy ===== *)
theory Nats_Client
  imports Config
begin

text \<open>
  The client's side of the local NATS bus: \<open>src/pkg/nats/client.go\<close> and \<open>capabilities.go\<close>. The
  agentcore library is a parameter: the answers of its constructor, of \<open>Start\<close>, and of the submit
  calls. What is handed to it is part of the result, so that a theorem can speak of everything
  that leaves the client.
\<close>

section \<open>Envelopes of the agent library\<close>

record configure_command =
  cm_Version :: bytes
  cm_RPCID :: bytes
  cm_Target :: bytes
  cm_UUID :: bytes
  cm_Payload :: bytes
  cm_Timestamp :: instant

record action_command =
  ac_Version :: bytes
  ac_RPCID :: bytes
  ac_Target :: bytes
  ac_CommandType :: bytes
  ac_Action :: bytes
  ac_Payload :: bytes
  ac_Timestamp :: instant

record result_envelope =
  re_Version :: bytes
  re_RPCID :: bytes
  re_Target :: bytes
  re_UUID :: bytes
  re_CommandType :: bytes
  re_Action :: bytes
  re_Result :: bytes
  re_ErrorCode :: bytes
  re_Message :: bytes
  re_Payload :: bytes
  re_Timestamp :: instant

text \<open>A context: \<open>None\<close> is nil, otherwise the value of \<open>ctx.Err()\<close>.\<close>

type_synonym context_arg = "go_error option option"

section \<open>Connecting\<close>

definition allServersUseTLS :: "bytes list \<Rightarrow> bool" where
  "allServersUseTLS servers \<longleftrightarrow> servers \<noteq> [] \<and>
     list_all (\<lambda>srv. case url_Parse srv of None \<Rightarrow> False | Some u \<Rightarrow> ToLower (u_Scheme u) = ''tls'') servers"

record agent_config =
  ag_AgentName :: bytes
  ag_Version :: bytes
  ag_Servers :: "bytes list"
  ag_CredentialsFile :: bytes
  ag_TLSEnabled :: bool
  ag_CAFile :: bytes
  ag_CertFile :: bytes
  ag_KeyFile :: bytes
  ag_ConfigurePattern :: bytes
  ag_ActionPattern :: bytes
  ag_ResultPattern :: bytes
  ag_StatusPattern :: bytes
  ag_HealthPattern :: bytes
  ag_Bucket :: bytes
  ag_AutoCreateBucket :: bool

definition agent_config_of :: "bytes \<Rightarrow> nats_config \<Rightarrow> agent_config" where
  "agent_config_of agentName cfg =
     \<lparr>ag_AgentName = agentName, ag_Version = ''1.0'', ag_Servers = nc_Servers cfg,
      ag_CredentialsFile = nc_CredentialsFile cfg, ag_TLSEnabled = allServersUseTLS (nc_Servers cfg),
      ag_CAFile = nc_CAFile cfg, ag_CertFile = nc_ClientCertFile cfg, ag_KeyFile = nc_ClientKeyFile cfg,
      ag_ConfigurePattern = ''cmd.configure.%s'', ag_ActionPattern = ''cmd.action.%s.%s'',
      ag_ResultPattern = ''result.%s'', ag_StatusPattern = ''status.%s'', ag_HealthPattern = ''health.%s'',
      ag_Bucket = ''cfg_desired'', ag_AutoCreateBucket = True\<rparr>"

text \<open>The agent library is used through a handle; \<open>None\<close> is a nil \<open>agentClient\<close>.\<close>

record 'h nats_client =
  nt_target :: bytes
  nt_agentClient :: "'h option"

text \<open>\<open>NewNATSClient\<close> with the link states it reports while it runs. The reconnect handler it installs
  reports \<open>LinkConnected\<close> on every later reconnection.\<close>

definition NewNATSClient ::
  "files_env \<Rightarrow> (agent_config \<Rightarrow> 'h result) \<Rightarrow> ('h \<Rightarrow> go_error option) \<Rightarrow> bytes \<Rightarrow> nats_config
     \<Rightarrow> 'h nats_client result \<times> LinkState list" where
  "NewNATSClient fe agentcoreNew agent_Start agentName cfg0 =
     (case nats_Validate fe cfg0 of
        (Some e, cfg) \<Rightarrow> (Inl (EWrap ''nats: invalid configuration'' e), [])
      | (None, cfg) \<Rightarrow>
          (case ValidateNATSTarget agentName of
             Some e \<Rightarrow> (Inl (EWrap ''nats: fatal'' e), [])
           | None \<Rightarrow>
               (case agentcoreNew (agent_config_of agentName cfg) of
                  Inl e \<Rightarrow> (Inl (EWrap ''nats: failed to initialize agentcore client'' e), [])
                | Inr h \<Rightarrow>
                    (case agent_Start h of
                       Some e \<Rightarrow> (Inl (EWrap ''nats: failed to start agentcore client'' e), [])
                     | None \<Rightarrow> (Inr \<lparr>nt_target = agentName, nt_agentClient = Some h\<rparr>, [LinkConnected])))))"

definition nats_Close :: "('h \<Rightarrow> go_error option) \<Rightarrow> 'h nats_client \<Rightarrow> go_error option" where
  "nats_Close agent_Close n = (case nt_agentClient n of None \<Rightarrow> None | Some h \<Rightarrow> agent_Close h)"

section \<open>Submitting commands\<close>

text \<open>The checks of \<open>SubmitConfigure\<close> before the agent is called, in order.\<close>

definition configure_command_check :: "contracts_env \<Rightarrow> context_arg \<Rightarrow> configure_command option \<Rightarrow> go_error option" where
  "configure_command_check env ctx cmd =
     (case ctx of None \<Rightarrow> Some (EMsg ''context cannot be nil'') | Some ctxErr \<Rightarrow>
      case ctxErr of Some e \<Rightarrow> Some (EWrap ''NATS dispatch context expired'' e) | None \<Rightarrow>
      case cmd of None \<Rightarrow> Some (EMsg ''command cannot be nil'') | Some c \<Rightarrow>
      if cm_Version c \<noteq> EnvelopeVersion then Some (EFmt ''invalid envelope version'' (cm_Version c))
      else if cm_Payload c = [] then Some (EMsg ''command payload cannot be empty'')
      else case ParseInt64 (cm_UUID c) of None \<Rightarrow> Some (EMsg ''uuid must be a positive int64'') | Some uuid \<Rightarrow>
      if uuid \<le> 0 then Some (EMsg ''uuid must be a positive int64'')
      else case json_Unmarshal configure_fields (cm_Payload c) zero_configure of (cfgReq, err) \<Rightarrow>
      if err then Some (EWrap ''invalid configure payload'' (EMsg ''json''))
      else case ValidateAndGetUUID env cfgReq of Inl e \<Rightarrow> Some (EWrap ''invalid configure payload'' e) | Inr payloadUUID \<Rightarrow>
      if payloadUUID \<noteq> uuid then Some (EFmt ''envelope UUID does not match payload UUID'' (cm_UUID c))
      else case ValidateNATSTarget (cm_Target c) of Some e \<Rightarrow> Some (EWrap ''invalid target'' e) | None \<Rightarrow> None)"

definition action_command_check :: "contracts_env \<Rightarrow> context_arg \<Rightarrow> action_command option \<Rightarrow> go_error option" where
  "action_command_check env ctx cmd =
     (case ctx of None \<Rightarrow> Some (EMsg ''context cannot be nil'') | Some ctxErr \<Rightarrow>
      case ctxErr of Some e \<Rightarrow> Some (EWrap ''NATS dispatch context expired'' e) | None \<Rightarrow>
      case cmd of None \<Rightarrow> Some (EMsg ''command cannot be nil'') | Some c \<Rightarrow>
      if ac_Payload c = [] then Some (EMsg ''command payload cannot be empty'')
      else if ac_Version c \<noteq> EnvelopeVersion then Some (EFmt ''invalid envelope version'' (ac_Version c))
      else if \<not> ValidCommandAction (ac_CommandType c) (ac_Action c)
        then Some (EFmt ''invalid command/action combination'' (ac_CommandType c @ ''/'' @ ac_Action c))
      else case ValidateCommandPayload env (ac_CommandType c) (ac_Action c) (ac_Payload c) of
        Some e \<Rightarrow> Some (EWrap ''invalid action payload'' e) | None \<Rightarrow>
      case ValidateNATSTarget (ac_Target c) of Some e \<Rightarrow> Some (EWrap ''invalid target'' e) | None \<Rightarrow> None)"

text \<open>The submit calls return their error and the commands they handed to the agent.\<close>

definition submit ::
  "'h nats_client \<Rightarrow> ('h \<Rightarrow> 'c \<Rightarrow> go_error option) \<Rightarrow> go_error option \<Rightarrow> 'c option \<Rightarrow> go_error option \<times> 'c list" where
  "submit n agent_Submit checked cmd =
     (case checked of
        Some e \<Rightarrow> (Some e, [])
      | None \<Rightarrow>
          (case (nt_agentClient n, cmd) of
             (Some h, Some c) \<Rightarrow> (agent_Submit h c, [c])
           | _ \<Rightarrow> (Some (EMsg ''agentClient is not initialized''), [])))"

definition SubmitConfigure ::
  "contracts_env \<Rightarrow> ('h \<Rightarrow> configure_command \<Rightarrow> go_error option) \<Rightarrow> 'h nats_client \<Rightarrow> context_arg
     \<Rightarrow> configure_command option \<Rightarrow> go_error option \<times> configure_command list" where
  "SubmitConfigure env agent_SubmitConfigure n ctx cmd =
     submit n agent_SubmitConfigure (configure_command_check env ctx cmd) cmd"

definition ExecuteAction ::
  "contracts_env \<Rightarrow> ('h \<Rightarrow> action_command \<Rightarrow> go_error option) \<Rightarrow> 'h nats_client \<Rightarrow> context_arg
     \<Rightarrow> action_command option \<Rightarrow> go_error option \<times> action_command list" where
  "ExecuteAction env agent_SubmitAction n ctx cmd =
     submit n agent_SubmitAction (action_command_check env ctx cmd) cmd"

section \<open>Results\<close>

definition validateResultEnvelope :: "bytes \<Rightarrow> result_envelope \<Rightarrow> go_error option" where
  "validateResultEnvelope expectedTarget msg =
     (case first_error
        [(re_Version msg \<noteq> EnvelopeVersion, EFmt ''invalid envelope version'' (re_Version msg)),
         (re_Target msg \<noteq> expectedTarget, EFmt ''target mismatch'' (re_Target msg)),
         (re_RPCID msg = [], EMsg ''rpc_id cannot be empty''),
         (time_IsZero (re_Timestamp msg), EMsg ''timestamp cannot be zero''),
         (\<not> ResultType_Valid (re_Result msg), EFmt ''invalid result state'' (re_Result msg)),
         (re_Result msg = ResultSuccess \<and> re_ErrorCode msg \<noteq> [] \<and> re_ErrorCode msg \<noteq> ''0'',
            EMsg ''success result cannot contain non-zero error_code''),
         (\<not> ValidCommandAction (re_CommandType msg) (re_Action msg),
            EFmt ''invalid command/action combination'' (re_CommandType msg @ ''/'' @ re_Action msg)),
         (re_CommandType msg = CommandConfigure \<and>
            (case ParseInt64 (re_UUID msg) of None \<Rightarrow> True | Some uuid \<Rightarrow> uuid \<le> 0),
            EMsg ''uuid must be a positive int64 for configure results'')] of
        Some e \<Rightarrow> Some e
      | None \<Rightarrow> map_option (EWrap ''invalid result payload'')
          (ValidateResultPayload (re_CommandType msg) (re_Action msg) (re_Payload msg)))"

text \<open>\<open>SubscribeResults\<close> installs a callback that runs the handler on valid envelopes only.\<close>

definition result_callback :: "bytes \<Rightarrow> (result_envelope \<Rightarrow> 's \<Rightarrow> 's) \<Rightarrow> result_envelope \<Rightarrow> 's \<Rightarrow> go_error option \<times> 's" where
  "result_callback target handler msg s =
     (case validateResultEnvelope target msg of
        Some e \<Rightarrow> (Some e, s)
      | None \<Rightarrow> (None, handler msg s))"

definition SubscribeResults ::
  "('h \<Rightarrow> bytes \<Rightarrow> go_error option) \<Rightarrow> 'h nats_client \<Rightarrow> context_arg \<Rightarrow> bytes \<Rightarrow> bool \<Rightarrow> go_error option" where
  "SubscribeResults agent_Register n ctx target handler_present =
     (if ctx \<noteq> Some None then Some (EMsg ''invalid or canceled context'')
      else case ValidateNATSTarget target of
        Some e \<Rightarrow> Some (EWrap ''invalid target'' e)
      | None \<Rightarrow>
          if \<not> handler_present then Some (EMsg ''handler cannot be nil'')
          else case nt_agentClient n of
            None \<Rightarrow> Some (EMsg ''agentClient is not initialized'')
          | Some h \<Rightarrow> agent_Register h target)"

section \<open>Capabilities\<close>

record capability_cache =
  cp_capabilities :: bytes
  cp_firmware :: bytes
  cp_filePath :: bytes

record olg_version =
  ov_Major :: "int option"
  ov_Minor :: "int option"
  ov_Patch :: "int option"

definition zero_version :: olg_version where
  "zero_version = \<lparr>ov_Major = None, ov_Minor = None, ov_Patch = None\<rparr>"

definition version_fields :: "(bytes \<times> olg_version field_dec) list" where
  "version_fields =
     [(''major'', on_field ov_Major ov_Major_update dec_int_ptr),
      (''minor'', on_field ov_Minor ov_Minor_update dec_int_ptr),
      (''patch'', on_field ov_Patch ov_Patch_update dec_int_ptr)]"

text \<open>The structs \<open>metadata\<close>, \<open>Version\<close> and \<open>OLG\<close> are nested with one member each.\<close>

definition metadata_fields :: "(bytes \<times> olg_version field_dec) list" where
  "metadata_fields = [(''version'', dec_object [(''olg'', dec_object version_fields)])]"

definition LoadFromDisk :: "files_env \<Rightarrow> bytes \<Rightarrow> (bytes \<times> bytes) result" where
  "LoadFromDisk fe filePath =
     (case fe_ReadFile fe filePath of
        Inl e \<Rightarrow> Inl (EWrap ''failed to read capabilities file'' e)
      | Inr data \<Rightarrow>
          (case json_Unmarshal metadata_fields data zero_version of
             (v, err) \<Rightarrow>
               if err then Inl (EWrap ''failed to parse capabilities JSON'' (EMsg ''json''))
               else case (ov_Major v, ov_Minor v, ov_Patch v) of
                 (Some a, Some b, Some c) \<Rightarrow>
                   if a < 0 \<or> b < 0 \<or> c < 0
                   then Inl (EMsg ''capabilities version.olg major, minor, and patch must be non-negative integers'')
                   else Inr (data, show_int a @ ''.'' @ show_int b @ ''.'' @ show_int c)
               | _ \<Rightarrow> Inl (EMsg ''capabilities version.olg missing numeric major, minor, or patch fields'')))"

definition NewCapabilityCache :: "files_env \<Rightarrow> bytes \<Rightarrow> capability_cache result" where
  "NewCapabilityCache fe filePath =
     (case LoadFromDisk fe filePath of
        Inl e \<Rightarrow> Inl (EWrap ''failed to validate capabilities at startup'' e)
      | Inr (data, fw) \<Rightarrow> Inr \<lparr>cp_capabilities = data, cp_firmware = fw, cp_filePath = filePath\<rparr>)"

text \<open>The file is read again only while nothing is cached; the checks before and after the lock see
  the same content, since the content never becomes empty again.\<close>

definition GetCapabilities :: "files_env \<Rightarrow> capability_cache \<Rightarrow> bytes result \<times> capability_cache" where
  "GetCapabilities fe c =
     (if cp_capabilities c \<noteq> [] then (Inr (cp_capabilities c), c)
      else case LoadFromDisk fe (cp_filePath c) of
        Inl e \<Rightarrow> (Inl e, c)
      | Inr (data, fw) \<Rightarrow>
          let c1 = c\<lparr>cp_capabilities := data, cp_firmware := fw\<rparr>
          in (if data = [] then Inl (EMsg ''capabilities not populated'') else Inr data, c1))"

definition GetFirmware :: "files_env \<Rightarrow> capability_cache \<Rightarrow> bytes result \<times> capability_cache" where
  "GetFirmware fe c =
     (case GetCapabilities fe c of
        (Inl e, c1) \<Rightarrow> (Inl e, c1)
      | (Inr caps, c1) \<Rightarrow>
          (if cp_firmware c1 = [] then Inl (EMsg ''firmware not populated'') else Inr (cp_firmware c1), c1))"

section \<open>Properties\<close>

text \<open>A subject token that reaches exactly the intended agent.\<close>

definition subject_token :: "bytes \<Rightarrow> bool" where
  "subject_token t \<longleftrightarrow> t \<noteq> [] \<and> (\<forall>c \<in> set t. c \<noteq> CHR ''.'' \<and> c \<noteq> CHR ''*'' \<and> c \<noteq> CHR ''>'' \<and> c \<noteq> CHR '' '')"

lemma target_token: "ValidateNATSTarget t = None \<Longrightarrow> subject_token t"
  by (auto simp: ValidateNATSTarget_def subject_token_def list_ex_iff split: if_splits)

lemma submit_log: "submit n agent checked cmd = (r, cs) \<Longrightarrow> c \<in> set cs \<Longrightarrow> checked = None \<and> cmd = Some c \<and> cs = [c]"
  by (auto simp: submit_def split: option.splits)

text \<open>C36: whatever reaches the agent library is valid. A configure command has the protocol version, a
  target that is a single subject token, and a positive identifier that equals the one of its
  validated payload; an action command has the version, a single-token target, a permitted
  combination of command and action and a payload accepted for it; and at most the command
  submitted is handed over, once.\<close>

theorem only_valid_commands_are_published:
  "(\<forall>c \<in> set (snd (SubmitConfigure env agent n ctx cmd)).
       cmd = Some c \<and> ctx = Some None \<and> cm_Version c = EnvelopeVersion \<and> subject_token (cm_Target c)
       \<and> (\<exists>req uuid. json_Unmarshal configure_fields (cm_Payload c) zero_configure = (req, False)
            \<and> ValidateAndGetUUID env req = Inr uuid \<and> ParseInt64 (cm_UUID c) = Some uuid \<and> 0 < uuid))
   \<and> (\<forall>c \<in> set (snd (ExecuteAction env agent' n ctx' cmd')).
       cmd' = Some c \<and> ctx' = Some None \<and> ac_Version c = EnvelopeVersion \<and> subject_token (ac_Target c)
       \<and> ValidCommandAction (ac_CommandType c) (ac_Action c)
       \<and> ValidateCommandPayload env (ac_CommandType c) (ac_Action c) (ac_Payload c) = None)
   \<and> length (snd (SubmitConfigure env agent n ctx cmd)) \<le> 1
   \<and> length (snd (ExecuteAction env agent' n ctx' cmd')) \<le> 1"
proof (intro conjI ballI)
  fix c assume "c \<in> set (snd (SubmitConfigure env agent n ctx cmd))"
  then have ck: "configure_command_check env ctx cmd = None" and c: "cmd = Some c"
    using submit_log [of n agent "configure_command_check env ctx cmd" cmd]
    unfolding SubmitConfigure_def by (metis prod.collapse)+
  show "cmd = Some c" by (rule c)
  from ck c show "ctx = Some None" "cm_Version c = EnvelopeVersion" "subject_token (cm_Target c)"
    "\<exists>req uuid. json_Unmarshal configure_fields (cm_Payload c) zero_configure = (req, False)
            \<and> ValidateAndGetUUID env req = Inr uuid \<and> ParseInt64 (cm_UUID c) = Some uuid \<and> 0 < uuid"
    by (auto simp: configure_command_check_def split: option.splits if_splits prod.splits sum.splits intro: target_token)
next
  fix c assume "c \<in> set (snd (ExecuteAction env agent' n ctx' cmd'))"
  then have ck: "action_command_check env ctx' cmd' = None" and c: "cmd' = Some c"
    using submit_log [of n agent' "action_command_check env ctx' cmd'" cmd']
    unfolding ExecuteAction_def by (metis prod.collapse)+
  show "cmd' = Some c" by (rule c)
  from ck c show "ctx' = Some None" "ac_Version c = EnvelopeVersion" "subject_token (ac_Target c)"
    "ValidCommandAction (ac_CommandType c) (ac_Action c)"
    "ValidateCommandPayload env (ac_CommandType c) (ac_Action c) (ac_Payload c) = None"
    by (auto simp: action_command_check_def split: option.splits if_splits intro: target_token)
qed (auto simp: SubmitConfigure_def ExecuteAction_def submit_def split: option.splits)

definition demo_client :: "unit nats_client" where
  "demo_client = \<lparr>nt_target = ''vyos'', nt_agentClient = Some ()\<rparr>"

definition demo_action :: action_command where
  "demo_action = \<lparr>ac_Version = ''1.0'', ac_RPCID = ''r1'', ac_Target = ''vyos'', ac_CommandType = CommandUpgrade,
     ac_Action = ActionUpgrade, ac_Payload = demo_upgrade, ac_Timestamp = 0\<rparr>"

theorem only_valid_commands_are_published_witness:
  "snd (ExecuteAction demo_env (\<lambda>_ _. None) demo_client (Some None) (Some demo_action)) = [demo_action]
     \<and> subject_token (ac_Target demo_action)"
proof -
  have "ValidCommandAction CommandUpgrade ActionUpgrade" "ValidateNATSTarget ''vyos'' = None"
    by code_simp+
  moreover have "demo_upgrade \<noteq> []" by (simp add: demo_upgrade_def object_text_def)
  ultimately have "action_command_check demo_env (Some None) (Some demo_action) = None"
    using demo_upgrade_accepted by (simp add: action_command_check_def demo_action_def)
  then have l: "snd (ExecuteAction demo_env (\<lambda>_ _. None) demo_client (Some None) (Some demo_action)) = [demo_action]"
    by (simp add: ExecuteAction_def submit_def demo_client_def)
  from only_valid_commands_are_published [where env = demo_env and agent' = "\<lambda>_ _. None" and n = demo_client
      and ctx' = "Some None" and cmd' = "Some demo_action"] l
  show ?thesis by simp
qed

lemma show_int_nonempty [simp]: "show_int i \<noteq> []"
  by (simp add: show_int_def)

lemma LoadFromDisk_Inr:
  "LoadFromDisk fe p = Inr (data, fw) \<Longrightarrow> fe_ReadFile fe p = Inr data \<and> data \<noteq> []
     \<and> (\<exists>a b c. 0 \<le> a \<and> 0 \<le> b \<and> 0 \<le> c \<and> json_Unmarshal metadata_fields data zero_version
            = (\<lparr>ov_Major = Some a, ov_Minor = Some b, ov_Patch = Some c\<rparr>, False)
          \<and> fw = show_int a @ ''.'' @ show_int b @ ''.'' @ show_int c)"
proof -
  assume l: "LoadFromDisk fe p = Inr (data, fw)"
  have nonempty: "json_Unmarshal metadata_fields [] zero_version = (zero_version, True)"
    by (simp add: json_Unmarshal_def json_Valid_def scan_run_def scan_start_def begin_value_def is_space_def)
  obtain v where v: "fe_ReadFile fe p = Inr data" "json_Unmarshal metadata_fields data zero_version = (v, False)"
    using l by (auto simp: LoadFromDisk_def split: sum.splits prod.splits if_splits option.splits)
  moreover obtain a b c where "ov_Major v = Some a" "ov_Minor v = Some b" "ov_Patch v = Some c" "0 \<le> a" "0 \<le> b" "0 \<le> c"
      "fw = show_int a @ ''.'' @ show_int b @ ''.'' @ show_int c"
    using l v by (auto simp: LoadFromDisk_def split: option.splits if_splits)
  moreover have "data \<noteq> []" using v nonempty by auto
  ultimately show ?thesis by (cases v) auto
qed

text \<open>A capability cache that was created successfully keeps serving the file content and the
  firmware version \<open>major.minor.patch\<close> of that moment, three non-negative numbers, whatever happens
  to the file later.\<close>

theorem capabilities_are_stable:
  assumes "NewCapabilityCache fe p = Inr c"
  shows "\<exists>data a b d. fe_ReadFile fe p = Inr data \<and> 0 \<le> a \<and> 0 \<le> b \<and> 0 \<le> d
     \<and> json_Unmarshal metadata_fields data zero_version = (\<lparr>ov_Major = Some a, ov_Minor = Some b, ov_Patch = Some d\<rparr>, False)
     \<and> (\<forall>fe'. GetCapabilities fe' c = (Inr data, c)
            \<and> GetFirmware fe' c = (Inr (show_int a @ ''.'' @ show_int b @ ''.'' @ show_int d), c))"
proof -
  obtain data fw where l: "LoadFromDisk fe p = Inr (data, fw)"
    and c: "c = \<lparr>cp_capabilities = data, cp_firmware = fw, cp_filePath = p\<rparr>"
    using assms by (auto simp: NewCapabilityCache_def split: sum.splits prod.splits)
  from LoadFromDisk_Inr [OF l] obtain a b d where "fe_ReadFile fe p = Inr data" "data \<noteq> []" "0 \<le> a" "0 \<le> b" "0 \<le> d"
    "json_Unmarshal metadata_fields data zero_version = (\<lparr>ov_Major = Some a, ov_Minor = Some b, ov_Patch = Some d\<rparr>, False)"
    "fw = show_int a @ ''.'' @ show_int b @ ''.'' @ show_int d" by blast
  then show ?thesis
    by (intro exI [of _ data] exI [of _ a] exI [of _ b] exI [of _ d])
      (simp add: c GetFirmware_def GetCapabilities_def)
qed

definition demo_capabilities :: bytes where
  "demo_capabilities = ''{'' @ quoted ''version'' @ '':{'' @ quoted ''olg'' @ '':{'' @ quoted ''major'' @ '':1,''
     @ quoted ''minor'' @ '':2,'' @ quoted ''patch'' @ '':3}}}''"

theorem capabilities_are_stable_witness:
  "\<exists>c. NewCapabilityCache demo_files demo_capabilities = Inr c \<and> GetCapabilities demo_files c = (Inr demo_capabilities, c)"
proof -
  have "json_Unmarshal metadata_fields demo_capabilities zero_version =
      (\<lparr>ov_Major = Some 1, ov_Minor = Some 2, ov_Patch = Some 3\<rparr>, False)"
    by (simp add: json_eval demo_capabilities_def metadata_fields_def version_fields_def dec_object_def zero_version_def
        del: dec_scan.simps(2))
  then obtain c where c: "NewCapabilityCache demo_files demo_capabilities = Inr c"
    by (simp add: NewCapabilityCache_def LoadFromDisk_def demo_files_def)
  from capabilities_are_stable [OF c] c show ?thesis by (auto simp: demo_files_def)
qed

end
