(* ===== verification/Go_Value.thy ===== *)
theory Go_Value
  imports Go_Json "HOL-Library.Char_ord" "HOL-Library.List_Lexorder"
begin

text \<open>
  JSON values decoded into Go's \<open>interface{}\<close> and written again: numbers become \<open>float64\<close>, objects
  become maps, which \<open>json.Marshal\<close> writes with sorted keys. Also the integer scanner of \<open>fmt.Sscan\<close>.
\<close>

section \<open>float64\<close>

text \<open>A finite \<open>float64\<close> is a sign with \<open>m * 2 ^ e\<close>; \<open>None\<close> stands for an overflow to infinity.\<close>

type_synonym float64 = "bool \<times> nat \<times> int"

definition pow2 :: "int \<Rightarrow> rat" where
  "pow2 e = (if e < 0 then 1 / 2 ^ nat (- e) else 2 ^ nat e)"

fun bit_len :: "nat \<Rightarrow> nat" where
  "bit_len n = (if n = 0 then 0 else Suc (bit_len (n div 2)))"

declare bit_len.simps [simp del]

definition round_half_even :: "rat \<Rightarrow> nat" where
  "round_half_even q =
     (let f = nat \<lfloor>q\<rfloor>; r = q - of_nat f
      in if r < 1 / 2 then f else if r > 1 / 2 then Suc f else if even f then f else Suc f)"

text \<open>The exponent with which \<open>q\<close> has a mantissa of 53 bits, not below that of the subnormals.\<close>

definition float_exp :: "rat \<Rightarrow> int" where
  "float_exp q =
     (case quotient_of q of (n, d) \<Rightarrow>
        let k = int (bit_len (nat n)) - int (bit_len (nat d)) - 53
        in max (- 1074) (if 2 ^ 53 \<le> q / pow2 k then k + 1 else k))"

definition float_round :: "rat \<Rightarrow> (nat \<times> int) option" where
  "float_round q =
     (if q = 0 then Some (0, 0)
      else
        let e = float_exp q; m = round_half_even (q / pow2 e);
            (m', e') = (if m = 2 ^ 53 then (2 ^ 52, e + 1) else (m, e))
        in if 2 ^ 1024 \<le> of_nat m' * pow2 e' then None else Some (m', e'))"

definition float_of_literal :: "bytes \<Rightarrow> float64 option" where
  "float_of_literal lit =
     map_option (\<lambda>(m, e). (nl_neg (num_parts lit), m, e)) (float_round \<bar>num_value lit\<bar>)"

text \<open>The decimal exponent \<open>p\<close> with \<open>10 ^ p \<le> q < 10 ^ (p + 1)\<close>, searched from above.\<close>

fun dec_exp :: "nat \<Rightarrow> int \<Rightarrow> rat \<Rightarrow> int" where
  "dec_exp 0 p q = p"
| "dec_exp (Suc n) p q = (if pow10 p \<le> q then p else dec_exp n (p - 1) q)"

text \<open>The shortest decimal digits that read back as the same number, the closest of them when there
  are two: \<open>n\<close> digits are tried from 1 on, and 17 always suffice. The result is the digits as a
  number with the power of ten of the last one.\<close>

definition decimal_candidates :: "nat \<Rightarrow> int \<Rightarrow> rat \<Rightarrow> (nat \<times> int) list" where
  "decimal_candidates n p q =
     (let x = p - int n + 1; lo = nat \<lfloor>q / pow10 x\<rfloor>
      in if q - of_nat lo * pow10 x \<le> of_nat (Suc lo) * pow10 x - q then [(lo, x), (Suc lo, x)] else [(Suc lo, x), (lo, x)])"

fun shortest :: "nat \<Rightarrow> nat \<Rightarrow> int \<Rightarrow> rat \<Rightarrow> nat \<times> int" where
  "shortest 0 n p q = hd (decimal_candidates n p q)"
| "shortest (Suc k) n p q =
     (case find (\<lambda>(d, x). map_option (\<lambda>(m, e). of_nat m * pow2 e) (float_round (of_nat d * pow10 x)) = Some q)
             (decimal_candidates n p q) of
        Some c \<Rightarrow> c
      | None \<Rightarrow> shortest k (Suc n) p q)"

fun strip_zeros :: "nat \<Rightarrow> nat \<Rightarrow> int \<Rightarrow> nat \<times> int" where
  "strip_zeros 0 d x = (d, x)"
| "strip_zeros (Suc k) d x = (if d \<noteq> 0 \<and> d mod 10 = 0 then strip_zeros k (d div 10) (x + 1) else (d, x))"

text \<open>The encoder's format: plain notation between 1e-6 and 1e21, scientific otherwise.\<close>

definition show_plain :: "nat \<Rightarrow> int \<Rightarrow> bytes" where
  "show_plain d x =
     (let ds = show_nat d
      in if 0 \<le> x then ds @ replicate (nat x) (CHR ''0'')
         else let k = nat (- x)
              in if k < length ds then take (length ds - k) ds @ ''.'' @ drop (length ds - k) ds
                 else ''0.'' @ replicate (k - length ds) (CHR ''0'') @ ds)"

definition show_scientific :: "nat \<Rightarrow> int \<Rightarrow> bytes" where
  "show_scientific d x =
     (let ds = show_nat d; e = x + int (length ds) - 1
      in take 1 ds @ (if length ds = 1 then [] else ''.'' @ drop 1 ds) @ ''e''
           @ (if e < 0 then ''-'' else ''+'') @ (if \<bar>e\<bar> < 10 \<and> 0 \<le> e then ''0'' else []) @ show_nat (nat \<bar>e\<bar>))"

definition marshal_float :: "float64 \<Rightarrow> bytes" where
  "marshal_float f =
     (case f of (neg, m, e) \<Rightarrow>
        (if neg then ''-'' else []) @
        (if m = 0 then ''0''
         else
           let q = of_nat m * pow2 e; (d0, x0) = shortest 17 1 (dec_exp 640 309 q) q; (d, x) = strip_zeros 17 d0 x0
           in if q < pow10 (- 6) \<or> pow10 21 \<le> q then show_scientific d x else show_plain d x))"

section \<open>Values\<close>

datatype jval =
    JNull
  | JBool bool
  | JFloat float64
  | JInt int
  | JStr bytes
  | JArr "jval list"
  | JObj "(bytes \<times> jval) list"

text \<open>A map keeps one value per key; its order is immaterial.\<close>

definition map_set :: "bytes \<Rightarrow> jval \<Rightarrow> (bytes \<times> jval) list \<Rightarrow> (bytes \<times> jval) list" where
  "map_set k v m = (k, v) # filter (\<lambda>(k', _). k' \<noteq> k) m"

lemma map_of_set [simp]: "map_of (map_set k v m) k' = (if k' = k then Some v else map_of m k')"
  by (induction m) (auto simp: map_set_def)

text \<open>Decoding one valid value. A number beyond \<open>float64\<close> gives nil and an error; the rest is still
  decoded. Every nested value is shorter than its text, so the length is fuel enough.\<close>

fun decode_any :: "nat \<Rightarrow> bytes \<Rightarrow> jval \<times> bool" where
  "decode_any 0 raw = (JNull, True)"
| "decode_any (Suc n) raw =
     (if raw = ''null'' then (JNull, False)
      else if raw = ''true'' then (JBool True, False)
      else if raw = ''false'' then (JBool False, False)
      else if starts (CHR 0x22) raw then (JStr (json_unquote raw), False)
      else if starts (CHR ''['') raw then
        (let rs = map (decode_any n) (json_elements raw) in (JArr (map fst rs), list_ex snd rs))
      else if starts (CHR ''{'') raw then
        (let rs = map (\<lambda>(k, v). (k, decode_any n v)) (json_members raw)
         in (JObj (fold (\<lambda>(k, v, e). map_set k v) rs []), list_ex (\<lambda>(k, v, e). e) rs))
      else (case float_of_literal raw of Some f \<Rightarrow> (JFloat f, False) | None \<Rightarrow> (JNull, True)))"

text \<open>\<open>json.Unmarshal\<close> into a \<open>map[string]interface{}\<close>: the map afterwards, which is nil (\<open>None\<close>) when
  the text is \<open>null\<close>, and whether there was an error. A syntax error or a value that is no object
  leaves the map as it was.\<close>

definition unmarshal_map :: "bytes \<Rightarrow> (bytes \<times> jval) list option \<Rightarrow> (bytes \<times> jval) list option \<times> bool" where
  "unmarshal_map data m =
     (if \<not> json_Valid data then (m, True)
      else case decode_first data of
        DValue raw rest \<Rightarrow>
          if raw = ''null'' then (None, False)
          else if starts (CHR ''{'') raw then
            (let rs = map (\<lambda>(k, v). (k, decode_any (length raw) v)) (json_members raw)
             in (Some (fold (\<lambda>(k, v, e). map_set k v) rs (case m of None \<Rightarrow> [] | Some xs \<Rightarrow> xs)), list_ex (\<lambda>(k, v, e). e) rs))
          else (m, True)
      | _ \<Rightarrow> (m, True))"

fun join_comma :: "bytes list \<Rightarrow> bytes" where
  "join_comma [] = []"
| "join_comma [x] = x"
| "join_comma (x # xs) = x @ '','' @ join_comma xs"

text \<open>\<open>json.Marshal\<close>; what \<open>decode_any\<close> produces always marshals. The fuel bounds the nesting.\<close>

fun marshal_any :: "nat \<Rightarrow> jval \<Rightarrow> bytes" where
  "marshal_any 0 v = ''null''"
| "marshal_any (Suc n) v =
     (case v of
        JNull \<Rightarrow> ''null''
      | JBool b \<Rightarrow> if b then ''true'' else ''false''
      | JFloat f \<Rightarrow> marshal_float f
      | JInt i \<Rightarrow> show_int i
      | JStr s \<Rightarrow> json_quote s
      | JArr vs \<Rightarrow> ''['' @ join_comma (map (marshal_any n) vs) @ '']''
      | JObj m \<Rightarrow> ''{'' @ join_comma (map (\<lambda>(k, x). json_quote k @ '':'' @ marshal_any n x) (sort_key fst m)) @ ''}'')"

definition json_Marshal_map :: "(bytes \<times> jval) list \<Rightarrow> bytes" where
  "json_Marshal_map m = marshal_any (Suc (size (JObj m))) (JObj m)"

section \<open>Sscan\<close>

text \<open>\<open>fmt.Sscan\<close> into an \<open>int\<close> or \<open>int64\<close>: white space, a sign, a base prefix, the digits of that base
  with underscores; what follows is ignored. \<open>strconv.ParseInt\<close> with base 0 then checks the token.\<close>

definition scan_digits :: "char \<Rightarrow> (nat \<times> char set) option" where
  "scan_digits c =
     (if c = CHR ''b'' \<or> c = CHR ''B'' then Some (2, set ''01'')
      else if c = CHR ''o'' \<or> c = CHR ''O'' then Some (8, set ''01234567'')
      else if c = CHR ''x'' \<or> c = CHR ''X'' then Some (16, {c. is_hex c}) else None)"

text \<open>Underscores separate digits: none at the end, none doubled, none at the start unless a prefix
  precedes.\<close>

fun underscores_ok :: "bool \<Rightarrow> bytes \<Rightarrow> bool" where
  "underscores_ok after_digit [] = after_digit"
| "underscores_ok after_digit (c # cs) =
     (if c = CHR ''_'' then after_digit \<and> underscores_ok False cs \<and> cs \<noteq> [] else underscores_ok True cs)"

definition base_value :: "nat \<Rightarrow> bytes \<Rightarrow> nat" where
  "base_value b ds = foldl (\<lambda>a c. b * a + hex_val c) 0 (filter (\<lambda>c. c \<noteq> CHR ''_'') ds)"

definition scan_body :: "bytes \<Rightarrow> nat option" where
  "scan_body s =
     (let digits = (\<lambda>D t. takeWhile (\<lambda>c. c \<in> D \<or> c = CHR ''_'') t)
      in if take 1 s = ''0'' then
           (case tl s of
              [] \<Rightarrow> Some 0
            | c # cs \<Rightarrow>
                (case scan_digits c of
                   Some (b, D) \<Rightarrow>
                     (let ds = digits D cs
                      in if ds \<noteq> [] \<and> filter (\<lambda>c. c \<noteq> CHR ''_'') ds \<noteq> [] \<and> underscores_ok True ds
                         then Some (base_value b ds) else None)
                 | None \<Rightarrow>
                     (let ds = digits (set ''01234567'') (c # cs)
                      in if underscores_ok True ds then Some (base_value 8 ds) else None)))
         else
           (let ds = digits (set ''0123456789'') s
            in if ds \<noteq> [] \<and> underscores_ok False ds then Some (base_value 10 ds) else None))"

definition Sscan_int :: "bytes \<Rightarrow> int option" where
  "Sscan_int s0 =
     (let s = trim_front ws_runes s0; neg = (take 1 s = ''-'');
          body = (if take 1 s = ''-'' \<or> take 1 s = ''+'' then tl s else s)
      in case scan_body body of
           None \<Rightarrow> None
         | Some n \<Rightarrow>
             let v = (if neg then - int n else int n) in if - (2 ^ 63) \<le> v \<and> v < 2 ^ 63 then Some v else None)"

end
