(* ===== verification/Device_Result.thy ===== *)
theory Device_Result
  imports Go_Value Jsonrpc Enums
begin

text \<open>
  The result objects sent to the cloud: \<open>EnsureStatusInResult\<close> and \<open>BuildDeviceResultObject\<close> of
  \<open>src/pkg/contracts/rpc.go\<close>. Writing into a nil map is a run-time panic, which is the value \<open>Panic\<close>.
\<close>

definition EnsureStatusInResult :: "bytes \<Rightarrow> bytes go" where
  "EnsureStatusInResult payload =
     (if payload = [] \<or> payload = ''null'' then Ret success_result
      else case unmarshal_map payload None of
        (obj, True) \<Rightarrow> Ret (''{'' @ quoted ''status'' @ '':{'' @ quoted ''error'' @ '':1,'' @ quoted ''text'' @ '':''
                           @ quoted ''Invalid downstream response'' @ ''}}'')
      | (None, False) \<Rightarrow> Panic
      | (Some obj, False) \<Rightarrow>
          if map_of obj ''status'' \<noteq> None then Ret payload
          else Ret (json_Marshal_map (map_set ''status''
                 (JObj [(''error'', JInt 0), (''text'', JStr ''Success'')]) obj)))"

text \<open>The error code of the status: 0 for success, otherwise the code of the envelope when it is a
  number other than 0, and 1 by default.\<close>

definition status_code :: "bytes \<Rightarrow> bytes \<Rightarrow> int" where
  "status_code natsResult errCode =
     (if natsResult = ResultSuccess then 0
      else case Sscan_int errCode of None \<Rightarrow> 1 | Some c \<Rightarrow> if c = 0 then 1 else c)"

definition status_text :: "bytes \<Rightarrow> bytes \<Rightarrow> bytes" where
  "status_text natsResult msg =
     (if msg \<noteq> [] then msg else if natsResult = ResultSuccess then ''Success'' else ''Failed'')"

text \<open>The map that is marshalled, from the map the payload left behind.\<close>

definition device_result_map ::
  "bytes \<Rightarrow> bytes \<Rightarrow> bytes \<Rightarrow> bytes \<Rightarrow> bytes \<Rightarrow> (bytes \<times> jval) list \<Rightarrow> (bytes \<times> jval) list" where
  "device_result_map serial configUUID natsResult errCode msg m =
     (let m1 = map_set ''serial'' (JStr serial) m;
          m2 = (if configUUID \<noteq> [] then
                  map_set ''uuid'' (case Sscan_int configUUID of Some u \<Rightarrow> JInt u | None \<Rightarrow> JStr configUUID) m1
                else m1);
          st = (case map_of m2 ''status'' of Some (JObj s) \<Rightarrow> s | _ \<Rightarrow> [])
      in map_set ''status'' (JObj (map_set ''text'' (JStr (status_text natsResult msg))
           (map_set ''error'' (JInt (status_code natsResult errCode)) st))) m2)"

definition payload_map :: "bytes \<Rightarrow> (bytes \<times> jval) list option" where
  "payload_map payload =
     (if payload = [] \<or> payload = ''null'' then Some [] else fst (unmarshal_map payload (Some [])))"

definition BuildDeviceResultObject ::
  "bytes \<Rightarrow> bytes \<Rightarrow> bytes \<Rightarrow> bytes \<Rightarrow> bytes \<Rightarrow> bytes \<Rightarrow> bytes go" where
  "BuildDeviceResultObject serial configUUID natsResult errCode msg payload =
     (case payload_map payload of
        None \<Rightarrow> Panic
      | Some m \<Rightarrow> Ret (json_Marshal_map (device_result_map serial configUUID natsResult errCode msg m)))"

section \<open>Properties\<close>

text \<open>A payload without surrounding white space, as a decoder delivers a raw message.\<close>

definition trimmed_json :: "bytes \<Rightarrow> bool" where
  "trimmed_json p \<longleftrightarrow> p = [] \<or> (\<not> is_space (hd p) \<and> \<not> is_space (last p))"

lemma payload_map_None: "payload_map payload = None \<Longrightarrow> \<exists>rest. decode_first payload = DValue ''null'' rest \<and> payload \<noteq> ''null''"
  by (auto simp: payload_map_def unmarshal_map_def Let_def split: if_splits decoded.splits option.splits)

lemma dec_scan_prefix:
  "dec_scan st acc xs = DValue v r \<Longrightarrow> \<exists>ys. rev acc @ xs = v @ r \<and> v = rev acc @ ys"
proof (induction st acc xs rule: dec_scan.induct)
  case (1 st acc)
  then show ?case by (auto split: if_splits)
next
  case (2 st acc c cs)
  then show ?case by (auto split: prod.splits scan_op.splits if_splits)
qed

lemma decode_first_parts:
  assumes "decode_first xs = DValue v r" and "xs \<noteq> []" and "\<not> is_space (hd xs)" and "v \<noteq> []"
  shows "xs = v @ r"
proof -
  obtain w where w: "dec_scan scan_start [] xs = DValue w r" "v = skip_space w"
    using assms(1) by (auto simp: decode_first_def split: decoded.splits)
  from dec_scan_prefix [OF w(1)] have x: "xs = w @ r" by simp
  have "w \<noteq> []" using w(2) assms(4) by (auto simp: skip_space_def)
  then have "hd w = hd xs" using x by simp
  then have "skip_space w = w" using assms(3) \<open>w \<noteq> []\<close> by (cases w) (auto simp: skip_space_def)
  with x w(2) show ?thesis by simp
qed

text \<open>After a literal at the top level only white space leaves the scanner without an error.\<close>

lemma scan_run_append: "scan_run st (xs @ ys) = scan_run (scan_run st xs) ys"
  by (simp add: scan_run_def)

lemma scan_error_stays: "fst (scan_run (ScanErrorState, k) xs) = ScanErrorState"
  by (induction xs) (simp_all add: scan_run_def)

lemma scan_run_Cons: "scan_run st (c # cs) = scan_run (fst (scan_step st c)) cs"
  by (simp add: scan_run_def)

lemma endtop_spaces: "fst (scan_run (EndTop, k) xs) = EndTop \<Longrightarrow> list_all is_space xs"
  by (induction xs) (auto simp: scan_run_Cons scan_error_stays split: if_splits)

lemma endvalue_spaces: "fst (scan_run (EndValue, []) xs) = EndTop \<Longrightarrow> list_all is_space xs"
  by (cases xs) (auto simp: scan_run_Cons end_value_def scan_error_stays endtop_spaces split: if_splits)

lemma null_run: "scan_run scan_start ''null'' = (EndValue, [])"
  by (simp add: scan_run_def scan_start_def begin_value_def is_space_def is_digit19_def expect_def)

lemma trimmed_no_panic:
  assumes "trimmed_json payload"
  shows "payload_map payload \<noteq> None"
proof
  assume n: "payload_map payload = None"
  obtain rest where d: "decode_first payload = DValue ''null'' rest" and p: "payload \<noteq> ''null''"
    using payload_map_None [OF n] by blast
  have ne: "payload \<noteq> []" using n by (auto simp: payload_map_def)
  then have x: "payload = ''null'' @ rest"
    using decode_first_parts [OF d] assms by (simp add: trimmed_json_def)
  have "json_Valid payload" using n by (auto simp: payload_map_def unmarshal_map_def split: if_splits)
  then have "fst (scan_run (EndValue, []) (rest @ '' '')) = EndTop"
    by (simp add: json_Valid_def x scan_run_append [of _ "''null''"] null_run flip: append.simps)
  then have "list_all is_space (rest @ '' '')" by (rule endvalue_spaces)
  moreover have "rest \<noteq> []" using p x by auto
  ultimately have "is_space (last payload)" using x by (simp add: list_all_iff)
  then show False using assms ne by (simp add: trimmed_json_def)
qed

text \<open>C40: for a payload as a decoder delivers it the result object is always built, and the client's own
  fields win over whatever the device put there: the serial, the configuration identifier when
  there is one, the status code (0 exactly for success) and the status text. Every other member of
  the payload, and every other member of a status object in it, is passed on.\<close>

theorem device_result_is_authoritative:
  assumes "trimmed_json payload"
  shows "\<exists>m r st. payload_map payload = Some m
     \<and> BuildDeviceResultObject serial configUUID natsResult errCode msg payload = Ret (json_Marshal_map r)
     \<and> map_of r ''serial'' = Some (JStr serial)
     \<and> map_of r ''status'' = Some (JObj st)
     \<and> map_of st ''error'' = Some (JInt (status_code natsResult errCode))
     \<and> (status_code natsResult errCode = 0 \<longleftrightarrow> natsResult = ResultSuccess)
     \<and> map_of st ''text'' = Some (JStr (status_text natsResult msg))
     \<and> map_of r ''uuid'' = (if configUUID = [] then map_of m ''uuid''
          else Some (case Sscan_int configUUID of Some u \<Rightarrow> JInt u | None \<Rightarrow> JStr configUUID))
     \<and> (\<forall>k. k \<notin> {''serial'', ''uuid'', ''status''} \<longrightarrow> map_of r k = map_of m k)
     \<and> (\<forall>s k. map_of m ''status'' = Some (JObj s) \<and> k \<notin> {''error'', ''text''} \<longrightarrow> map_of st k = map_of s k)"
proof -
  from trimmed_no_panic [OF assms] obtain m where m: "payload_map payload = Some m" by blast
  define st where "st = map_set ''text'' (JStr (status_text natsResult msg))
           (map_set ''error'' (JInt (status_code natsResult errCode)) (case map_of m ''status'' of Some (JObj s) \<Rightarrow> s | _ \<Rightarrow> []))"
  define r where "r = device_result_map serial configUUID natsResult errCode msg m"
  have "map_of r ''status'' = Some (JObj st)" by (simp add: r_def st_def device_result_map_def Let_def)
  moreover have "map_of r ''serial'' = Some (JStr serial)"
    "map_of r ''uuid'' = (if configUUID = [] then map_of m ''uuid''
          else Some (case Sscan_int configUUID of Some u \<Rightarrow> JInt u | None \<Rightarrow> JStr configUUID))"
    "\<forall>k. k \<notin> {''serial'', ''uuid'', ''status''} \<longrightarrow> map_of r k = map_of m k"
    by (simp_all add: r_def device_result_map_def Let_def)
  moreover have "map_of st ''error'' = Some (JInt (status_code natsResult errCode))"
    "map_of st ''text'' = Some (JStr (status_text natsResult msg))"
    "\<forall>s k. map_of m ''status'' = Some (JObj s) \<and> k \<notin> {''error'', ''text''} \<longrightarrow> map_of st k = map_of s k"
    by (auto simp: st_def)
  moreover have "status_code natsResult errCode = 0 \<longleftrightarrow> natsResult = ResultSuccess"
    by (simp add: status_code_def split: option.splits)
  moreover have "BuildDeviceResultObject serial configUUID natsResult errCode msg payload = Ret (json_Marshal_map r)"
    by (simp add: BuildDeviceResultObject_def m r_def)
  ultimately show ?thesis using m by blast
qed

theorem device_result_is_authoritative_witness:
  "\<exists>r. BuildDeviceResultObject ''aabb'' ''7'' ResultSuccess [] [] [] = Ret (json_Marshal_map r)
     \<and> map_of r ''serial'' = Some (JStr ''aabb'') \<and> map_of r ''uuid'' = Some (JInt 7)"
proof -
  have s: "Sscan_int ''7'' = Some 7" by code_simp
  have "trimmed_json []" by (simp add: trimmed_json_def)
  from device_result_is_authoritative [OF this, of "''aabb''" "''7''" ResultSuccess "[]" "[]"] show ?thesis
    by (auto simp: s)
qed

end
