(* ===== verification/Handler.thy ===== *)
theory Handler
  imports Nats_Client Device_Result Manager_Props
begin

text \<open>
  The handler of cloud frames, \<open>src/cmd/ucentral-client/handler.go\<close>: it checks size, syntax and
  parameters of a request, admits it at the request manager and starts its execution, which hands
  it to the NATS client. The scheduler of the handler and that of the request manager are the same
  object, so it is kept in the manager's state. The text that Go prints for an error is the
  argument \<open>err_text\<close>.
\<close>

section \<open>Connection parameters and link states\<close>

record connect_params =
  cn_Serial :: bytes
  cn_UUID :: nat
  cn_Firmware :: bytes
  cn_Capabilities :: "(bytes \<times> jval) list option"

definition ConnectParams :: "files_env \<Rightarrow> bytes \<Rightarrow> capability_cache \<Rightarrow> connect_params result \<times> capability_cache" where
  "ConnectParams fe serial c =
     (case GetCapabilities fe c of
        (Inl e, c1) \<Rightarrow> (Inl e, c1)
      | (Inr rawCaps, c1) \<Rightarrow>
          (case GetFirmware fe c1 of
             (Inl e, c2) \<Rightarrow> (Inl e, c2)
           | (Inr fw, c2) \<Rightarrow>
               (case unmarshal_map rawCaps None of
                  (caps, True) \<Rightarrow> (Inl (EMsg ''json''), c2)
                | (caps, False) \<Rightarrow>
                    (Inr \<lparr>cn_Serial = serial, cn_UUID = 0, cn_Firmware = fw, cn_Capabilities = caps\<rparr>, c2))))"

record system_state =
  st_natsLink :: LinkState
  st_wsLink :: LinkState

definition UpdateNATSLink :: "LinkState \<Rightarrow> system_state \<Rightarrow> system_state" where
  "UpdateNATSLink state s = s\<lparr>st_natsLink := state\<rparr>"

definition UpdateWSLink :: "LinkState \<Rightarrow> system_state \<Rightarrow> system_state" where
  "UpdateWSLink state s = s\<lparr>st_wsLink := state\<rparr>"

definition GetSystemState :: "system_state \<Rightarrow> ConnectionState" where
  "GetSystemState s = (case DeriveConnectionState (st_wsLink s) (st_natsLink s) of Inl e \<Rightarrow> '''' | Inr st \<Rightarrow> st)"

section \<open>The handler\<close>

record handler_config =
  hc_serial :: bytes
  hc_target :: bytes
  hc_dispatchCapacity :: int
  hc_timeoutDispatch :: duration
  hc_timeoutConfigure :: duration
  hc_timeoutActionDefault :: duration
  hc_timeoutActionExtended :: duration
  hc_payloadLimitAbsolute :: int
  hc_payloadLimitConfigure :: int
  hc_payloadLimitScript :: int
  hc_payloadLimitCertUpdate :: int
  hc_payloadLimitDefault :: int

text \<open>The state it shares: the request manager with the scheduler, the link states, the NATS client
  when there is one, and the number of tokens in the dispatch buffer.\<close>

record 'h frame_handler =
  fh_reqMgr :: manager
  fh_stateMgr :: system_state
  fh_natsClient :: "'h nats_client option"
  fh_dispatchBuffer :: int

definition GetNATSClient :: "'h frame_handler \<Rightarrow> 'h nats_client option" where
  "GetNATSClient h = fh_natsClient h"

definition SetNATSClient :: "'h nats_client option \<Rightarrow> 'h frame_handler \<Rightarrow> 'h frame_handler" where
  "SetNATSClient nc h = h\<lparr>fh_natsClient := nc\<rparr>"

definition getCommandAction :: "bytes \<Rightarrow> CommandType \<times> ActionType \<times> bool" where
  "getCommandAction meth =
     (if meth = ''configure'' then (CommandConfigure, '''', True)
      else if meth = ''reboot'' then (CommandReboot, ActionReboot, True)
      else if meth = ''factory'' then (CommandAction, ActionFactory, True)
      else if meth = ''leds'' then (CommandAction, ActionLeds, True)
      else if meth = ''upgrade'' then (CommandUpgrade, ActionUpgrade, True)
      else if meth = ''certupdate'' then (CommandAction, ActionCertupdate, True)
      else if meth = ''reenroll'' then (CommandAction, ActionReenroll, True)
      else if meth = ''script'' then (CommandScript, ActionExecute, True)
      else if meth = ''ping'' then (CommandAction, ActionPing, False)
      else if meth = ''trace'' then (CommandAction, ActionTrace, False)
      else if meth = ''telemetry'' then (CommandAction, ActionTelemetry, False)
      else if meth = ''rtty'' then (CommandAction, ActionRTTY, False)
      else ('''', '''', False))"

definition getMethodPayloadLimit :: "handler_config \<Rightarrow> bytes \<Rightarrow> int" where
  "getMethodPayloadLimit hc meth =
     (if meth = ''configure'' then hc_payloadLimitConfigure hc
      else if meth = ''certupdate'' then hc_payloadLimitCertUpdate hc
      else if meth = ''script'' then hc_payloadLimitScript hc
      else hc_payloadLimitDefault hc)"

text \<open>Go's \<open>int64\<close> arithmetic wraps around.\<close>

definition wrap64 :: "int \<Rightarrow> int" where
  "wrap64 x = (x + 2 ^ 63) mod 2 ^ 64 - 2 ^ 63"

definition getTransactionTimeout :: "handler_config \<Rightarrow> bytes \<Rightarrow> bytes \<Rightarrow> duration" where
  "getTransactionTimeout hc meth params =
     (if meth = ''configure'' then hc_timeoutConfigure hc
      else if meth = ''upgrade'' \<or> meth = ''certupdate'' \<or> meth = ''script'' then hc_timeoutActionExtended hc
      else if meth = ''trace'' then
        (case json_Unmarshal trace_request_fields params zero_trace_request of
           (trace, err) \<Rightarrow>
             (case tq_Duration trace of
                Some d \<Rightarrow> if \<not> err \<and> 0 < d then wrap64 (wrap64 (d * Second) + 30 * Second) else hc_timeoutActionExtended hc
              | None \<Rightarrow> hc_timeoutActionExtended hc))
      else hc_timeoutActionDefault hc)"

section \<open>Responses\<close>

text \<open>Pushing to the scheduler; a refused push is only logged.\<close>

definition push_highest :: "string \<Rightarrow> bytes \<Rightarrow> manager \<Rightarrow> manager" where
  "push_highest sessionID payload m =
     (case mg_scheduler m of
        None \<Rightarrow> m
      | Some s \<Rightarrow>
          (case sched_Push \<lparr>om_SessionID = sessionID, om_Priority = PriorityHighest, om_Payload = payload\<rparr> s of
             Inl e \<Rightarrow> m
           | Inr s' \<Rightarrow> m\<lparr>mg_scheduler := Some s'\<rparr>))"

definition pushResponse :: "string \<Rightarrow> bytes \<Rightarrow> bytes \<Rightarrow> jsonrpc_error option \<Rightarrow> manager \<Rightarrow> manager go" where
  "pushResponse sessionID rid result errObj m =
     (case (if errObj = None then EnsureStatusInResult result else Ret result) of
        Panic \<Rightarrow> Panic
      | Ret finalResult \<Rightarrow>
          Ret (case Response_Marshal \<lparr>rs_JSONRPC = JSONRPCVersion, rs_Result = finalResult, rs_Error = errObj, rs_ID = rid\<rparr> of
                 None \<Rightarrow> m
               | Some respBytes \<Rightarrow> push_highest sessionID respBytes m))"

datatype frame_disposition = FrameAccepted | FrameRejectedKeepConnection | FrameFatalCloseConnection

record inbound_frame =
  if_SessionID :: string
  if_Type :: int
  if_Payload :: bytes

text \<open>The execution that an admitted request starts in a goroutine of its own.\<close>

record job =
  jb_tx :: transaction
  jb_command :: CommandType
  jb_action :: ActionType
  jb_params :: bytes
  jb_uuid :: bytes

type_synonym 'h handled = "(frame_disposition \<times> job list \<times> 'h frame_handler) go"

definition rejected :: "'h frame_handler \<Rightarrow> 'h handled" where
  "rejected h = Ret (FrameRejectedKeepConnection, [], h)"

definition reject_with :: "string \<Rightarrow> bytes \<Rightarrow> jsonrpc_error option \<Rightarrow> 'h frame_handler \<Rightarrow> 'h handled" where
  "reject_with sessionID rid errObj h =
     (case pushResponse sessionID rid [] errObj (fh_reqMgr h) of
        Panic \<Rightarrow> Panic
      | Ret m \<Rightarrow> rejected (h\<lparr>fh_reqMgr := m\<rparr>))"

text \<open>A notification is rejected silently.\<close>

definition reject_unless :: "bool \<Rightarrow> string \<Rightarrow> bytes \<Rightarrow> jsonrpc_error option \<Rightarrow> 'h frame_handler \<Rightarrow> 'h handled" where
  "reject_unless isNotification sessionID rid errObj h =
     (if isNotification then rejected h else reject_with sessionID rid errObj h)"

abbreviation plain_error :: "int \<Rightarrow> bytes \<Rightarrow> jsonrpc_error" where
  "plain_error c msg \<equiv> \<lparr>je_Code = c, je_Message = msg, je_Data = []\<rparr>"

definition internal_error :: "int \<Rightarrow> bytes \<Rightarrow> jsonrpc_error option" where
  "internal_error appCode msg = (case NewInternalJSONRPCError appCode msg of Inl e \<Rightarrow> None | Inr e \<Rightarrow> Some e)"

record meta_extractor =
  me_Method :: bytes
  me_ID :: bytes

definition meta_fields :: "(bytes \<times> meta_extractor field_dec) list" where
  "meta_fields =
     [(''method'', on_field me_Method me_Method_update dec_string), (''id'', on_field me_ID me_ID_update dec_raw)]"

definition zero_request :: jsonrpc_request where
  "zero_request = \<lparr>rq_JSONRPC = [], rq_Method = [], rq_Params = [], rq_ID = []\<rparr>"

definition request_fields :: "(bytes \<times> jsonrpc_request field_dec) list" where
  "request_fields =
     [(''jsonrpc'', on_field rq_JSONRPC rq_JSONRPC_update dec_string),
      (''method'', on_field rq_Method rq_Method_update dec_string),
      (''params'', on_field rq_Params rq_Params_update dec_raw),
      (''id'', on_field rq_ID rq_ID_update dec_raw)]"

definition is_notification_id :: "bytes \<Rightarrow> bool" where
  "is_notification_id rid \<longleftrightarrow> rid = [] \<or> rid = ''null''"

text \<open>The check of the parameters and the identifier of a configuration.\<close>

definition validate_params :: "contracts_env \<Rightarrow> CommandType \<Rightarrow> ActionType \<Rightarrow> bytes \<Rightarrow> bytes result" where
  "validate_params env command action params =
     (if command = CommandConfigure then
        (case json_Unmarshal configure_fields params zero_configure of
           (cfgReq, True) \<Rightarrow> Inl (EMsg ''json'')
         | (cfgReq, False) \<Rightarrow>
             (case ValidateAndGetUUID env cfgReq of
                Inl e \<Rightarrow> Inl e
              | Inr effUUID \<Rightarrow> Inr (if 0 < effUUID then show_int effUUID else ''0'')))
      else case ValidateCommandPayload env command action params of
        Some e \<Rightarrow> Inl e
      | None \<Rightarrow> Inr ''0'')"

section \<open>HandleFrame\<close>

text \<open>From the admission on; \<open>now\<close> and \<open>rpcID\<close> are the clock and the fresh identifier of
  \<open>CreateTransaction\<close>.\<close>

definition admit ::
  "(go_error \<Rightarrow> bytes) \<Rightarrow> handler_config \<Rightarrow> instant \<Rightarrow> string \<Rightarrow> string \<Rightarrow> jsonrpc_request \<Rightarrow> CommandType \<Rightarrow> ActionType
     \<Rightarrow> bool \<Rightarrow> bytes \<Rightarrow> 'h frame_handler \<Rightarrow> 'h handled" where
  "admit err_text hc now rpcID sessionID req command action isStateChanging uuidVal h =
     (let isNotification = is_notification_id (rq_ID req);
          timeout = getTransactionTimeout hc (rq_Method req) (rq_Params req)
      in case CreateTransaction now rpcID sessionID (rq_ID req) (\<not> isNotification) (rq_Method req) timeout isStateChanging (fh_reqMgr h) of
           (Inr tx, m) \<Rightarrow>
             Ret (FrameAccepted, [\<lparr>jb_tx = tx, jb_command = command, jb_action = action, jb_params = rq_Params req, jb_uuid = uuidVal\<rparr>],
                  h\<lparr>fh_reqMgr := m\<rparr>)
         | (Inl (CachedResponseError payload), m) \<Rightarrow>
             Ret (FrameAccepted, [], h\<lparr>fh_reqMgr := push_highest sessionID payload m\<rparr>)
         | (Inl e, m) \<Rightarrow>
             reject_unless isNotification sessionID (rq_ID req)
               (if errors_Is e ErrCapacityExceeded \<or> errors_Is e ErrStateLockBusy \<or> errors_Is e ErrDuplicateRequest
                then Some (plain_error ErrInternal ''Device is busy'')
                else internal_error ErrAppFailure (''Transaction creation failed: '' @ err_text e))
               (h\<lparr>fh_reqMgr := m\<rparr>))"

text \<open>From the parsed request on.\<close>

definition dispatch_request ::
  "contracts_env \<Rightarrow> (go_error \<Rightarrow> bytes) \<Rightarrow> handler_config \<Rightarrow> instant \<Rightarrow> string \<Rightarrow> string \<Rightarrow> jsonrpc_request
     \<Rightarrow> 'h frame_handler \<Rightarrow> 'h handled" where
  "dispatch_request env err_text hc now rpcID sessionID req h =
     (case Request_Validate req of
        Some e \<Rightarrow>
          reject_with sessionID (ValidResponseID (rq_ID req))
            (Some (plain_error ErrInvalidRequest (''Invalid request: '' @ err_text e))) h
      | None \<Rightarrow>
          let isNotification = is_notification_id (rq_ID req)
          in case getCommandAction (rq_Method req) of (command, action, isStateChanging) \<Rightarrow>
             if command = '''' then
               reject_unless isNotification sessionID (rq_ID req)
                 (Some (plain_error ErrMethodNotFound (''Method '' @ rq_Method req @ '' not found''))) h
             else case validate_params env command action (rq_Params req) of
               Inl e \<Rightarrow>
                 reject_unless isNotification sessionID (rq_ID req)
                   (Some (plain_error ErrInvalidParams (''Invalid parameters: '' @ err_text e))) h
             | Inr uuidVal \<Rightarrow>
                 if isNotification \<and> (isStateChanging \<or> rq_Method req = ActionRTTY) then rejected h
                 else if GetSystemState (fh_stateMgr h) = StateNATSDegraded then
                   reject_unless isNotification sessionID (rq_ID req)
                     (internal_error ErrServiceUnavailable ''Local NATS service is unavailable'') h
                 else admit err_text hc now rpcID sessionID req command action isStateChanging uuidVal h)"

definition HandleFrame ::
  "contracts_env \<Rightarrow> (go_error \<Rightarrow> bytes) \<Rightarrow> handler_config \<Rightarrow> instant \<Rightarrow> string \<Rightarrow> inbound_frame \<Rightarrow> 'h frame_handler \<Rightarrow> 'h handled" where
  "HandleFrame env err_text hc now rpcID frame h =
     (let payload = if_Payload frame; size = int (length payload)
      in if hc_payloadLimitAbsolute hc < size then rejected h
         else
           let meta = fst (json_Unmarshal meta_fields payload \<lparr>me_Method = [], me_ID = []\<rparr>);
               maxlen = getMethodPayloadLimit hc (me_Method meta)
           in if maxlen < size then
                (if is_notification_id (me_ID meta) then rejected h
                 else case internal_error ErrValidationFailed (''Payload size exceeds method limit of '' @ show_int maxlen) of
                   None \<Rightarrow> Panic
                 | Some errObj \<Rightarrow>
                     reject_with (if_SessionID frame) (me_ID meta) (Some (errObj\<lparr>je_Code := ErrInvalidParams\<rparr>)) h)
              else case json_Unmarshal request_fields payload zero_request of
                (req, True) \<Rightarrow>
                  reject_with (if_SessionID frame)
                    (ValidResponseID (fst (json_Unmarshal [(''id'', dec_raw)] payload [])))
                    (Some (plain_error ErrParse ''Parse error'')) h
              | (req, False) \<Rightarrow> dispatch_request env err_text hc now rpcID (if_SessionID frame) req h)"

section \<open>Executing an admitted request\<close>

definition failTransactionWithCode :: "instant \<Rightarrow> transaction \<Rightarrow> int \<Rightarrow> bytes \<Rightarrow> manager \<Rightarrow> manager" where
  "failTransactionWithCode now tx appCode message m =
     snd (Fail now (tx_RPCID tx)
       (Response_Marshal \<lparr>rs_JSONRPC = JSONRPCVersion, rs_Result = [], rs_Error = internal_error appCode message,
          rs_ID = tx_CloudRPCID tx\<rparr>) m)"

definition failTransaction :: "(go_error \<Rightarrow> bytes) \<Rightarrow> instant \<Rightarrow> transaction \<Rightarrow> go_error \<Rightarrow> manager \<Rightarrow> manager" where
  "failTransaction err_text now tx e m = failTransactionWithCode now tx ErrAppFailure (err_text e) m"

text \<open>The call of the NATS client for a job, with what it hands to the agent.\<close>

definition dispatch_job ::
  "contracts_env \<Rightarrow> ('h \<Rightarrow> configure_command \<Rightarrow> go_error option) \<Rightarrow> ('h \<Rightarrow> action_command \<Rightarrow> go_error option)
     \<Rightarrow> handler_config \<Rightarrow> context_arg \<Rightarrow> instant \<Rightarrow> 'h nats_client \<Rightarrow> job
     \<Rightarrow> go_error option \<times> configure_command list \<times> action_command list" where
  "dispatch_job env agent_c agent_a hc dctx now nClient j =
     (if jb_command j = CommandConfigure then
        (case SubmitConfigure env agent_c nClient dctx
                (Some \<lparr>cm_Version = EnvelopeVersion, cm_RPCID = tx_RPCID (jb_tx j), cm_Target = hc_target hc,
                       cm_UUID = jb_uuid j, cm_Payload = jb_params j, cm_Timestamp = now\<rparr>) of
           (e, cs) \<Rightarrow> (e, cs, []))
      else
        (case ExecuteAction env agent_a nClient dctx
                (Some \<lparr>ac_Version = EnvelopeVersion, ac_RPCID = tx_RPCID (jb_tx j), ac_Target = hc_target hc,
                       ac_CommandType = jb_command j, ac_Action = jb_action j, ac_Payload = jb_params j,
                       ac_Timestamp = now\<rparr>) of
           (e, cs) \<Rightarrow> (e, [], cs)))"

text \<open>The dispatch buffer is a channel that is only counted: a place is taken without blocking, and given
  back by receiving.\<close>

definition acquire_slot :: "handler_config \<Rightarrow> 'h frame_handler \<Rightarrow> 'h frame_handler option" where
  "acquire_slot hc h =
     (if fh_dispatchBuffer h < hc_dispatchCapacity hc then Some (h\<lparr>fh_dispatchBuffer := fh_dispatchBuffer h + 1\<rparr>) else None)"

definition release_slot :: "'h frame_handler \<Rightarrow> 'h frame_handler" where
  "release_slot h = h\<lparr>fh_dispatchBuffer := fh_dispatchBuffer h - 1\<rparr>"

text \<open>\<open>executeTransaction\<close> with a place in the buffer, run without other calls in between. The last
  components are what was handed to the agent.\<close>

definition run_dispatch ::
  "contracts_env \<Rightarrow> (go_error \<Rightarrow> bytes) \<Rightarrow> ('h \<Rightarrow> configure_command \<Rightarrow> go_error option) \<Rightarrow> ('h \<Rightarrow> action_command \<Rightarrow> go_error option)
     \<Rightarrow> handler_config \<Rightarrow> context_arg \<Rightarrow> instant \<Rightarrow> job \<Rightarrow> 'h frame_handler
     \<Rightarrow> 'h frame_handler \<times> configure_command list \<times> action_command list" where
  "run_dispatch env err_text agent_c agent_a hc dctx now j h =
     (let tx = jb_tx j; m = fh_reqMgr h
      in case MarkPreparingDispatch (tx_RPCID tx) m of
           (Some e, m1) \<Rightarrow> (h\<lparr>fh_reqMgr := failTransaction err_text now tx (EWrap ''failed to enter preparing dispatch'' e) m1\<rparr>, [], [])
         | (None, m1) \<Rightarrow>
             (case MarkPendingPublish (tx_RPCID tx) m1 of
                (Some e, m2) \<Rightarrow> (h\<lparr>fh_reqMgr := failTransaction err_text now tx (EWrap ''failed to enter pending publish'' e) m2\<rparr>, [], [])
              | (None, m2) \<Rightarrow>
                  (case GetNATSClient h of
                     None \<Rightarrow> (h\<lparr>fh_reqMgr := failTransactionWithCode now tx ErrServiceUnavailable ''Local NATS service is unavailable'' m2\<rparr>, [], [])
                   | Some nClient \<Rightarrow>
                       (case dispatch_job env agent_c agent_a hc dctx now nClient j of
                          (Some e, cs, as) \<Rightarrow>
                            (h\<lparr>fh_reqMgr :=
                                if errors_Is e ErrDeadlineExceeded
                                then failTransactionWithCode now tx ErrServiceUnavailable ''Local NATS dispatch timed out (service unavailable)'' m2
                                else failTransactionWithCode now tx ErrAppFailure (''NATS dispatch failed: '' @ err_text e) m2\<rparr>, cs, as)
                        | (None, cs, as) \<Rightarrow> (h\<lparr>fh_reqMgr := snd (MarkInFlight now (tx_RPCID tx) m2)\<rparr>, cs, as)))))"

text \<open>The whole call: the place is given back when the body returns, on whichever path.\<close>

definition executeTransaction ::
  "contracts_env \<Rightarrow> (go_error \<Rightarrow> bytes) \<Rightarrow> ('h \<Rightarrow> configure_command \<Rightarrow> go_error option) \<Rightarrow> ('h \<Rightarrow> action_command \<Rightarrow> go_error option)
     \<Rightarrow> handler_config \<Rightarrow> context_arg \<Rightarrow> instant \<Rightarrow> job \<Rightarrow> 'h frame_handler
     \<Rightarrow> 'h frame_handler \<times> configure_command list \<times> action_command list" where
  "executeTransaction env err_text agent_c agent_a hc dctx now j h =
     (case acquire_slot hc h of
        None \<Rightarrow>
          (h\<lparr>fh_reqMgr := failTransactionWithCode now (jb_tx j) ErrServiceUnavailable ''Local NATS service is unavailable'' (fh_reqMgr h)\<rparr>, [], [])
      | Some h0 \<Rightarrow>
          (case run_dispatch env err_text agent_c agent_a hc dctx now j h0 of (h1, cs, as) \<Rightarrow> (release_slot h1, cs, as)))"

end
