(* ===== verification/Handler_Props.thy ===== *)
theory Handler_Props
  imports Handler
begin

text \<open>
  The properties of the handler of cloud frames: what \<open>HandleFrame\<close> does with any frame, what a
  notification can cause, and what becomes of an admitted request in \<open>executeTransaction\<close>.
\<close>

section \<open>Replies\<close>

lemma internal_error_Some [simp]:
  "internal_error ErrAppFailure msg = Some \<lparr>je_Code = ErrInternal, je_Message = msg,
     je_Data = ''{'' @ quoted ''application_code'' @ '':'' @ show_int ErrAppFailure @ ''}''\<rparr>"
  "internal_error ErrServiceUnavailable msg = Some \<lparr>je_Code = ErrInternal, je_Message = msg,
     je_Data = ''{'' @ quoted ''application_code'' @ '':'' @ show_int ErrServiceUnavailable @ ''}''\<rparr>"
  "internal_error ErrValidationFailed msg = Some \<lparr>je_Code = ErrInternal, je_Message = msg,
     je_Data = ''{'' @ quoted ''application_code'' @ '':'' @ show_int ErrValidationFailed @ ''}''\<rparr>"
  by (simp_all add: internal_error_def NewInternalJSONRPCError_def)

text \<open>The state of the handler after at most one reply to the session.\<close>

definition answered :: "string \<Rightarrow> 'h frame_handler \<Rightarrow> 'h frame_handler \<Rightarrow> bool" where
  "answered sess h h' \<longleftrightarrow> h' = h \<or> (\<exists>p. h' = h\<lparr>fh_reqMgr := push_highest sess p (fh_reqMgr h)\<rparr>)"

lemma answered_refl [simp]: "answered sess h h"
  by (simp add: answered_def)

lemma reject_with_answers:
  "\<exists>h'. reject_with sess rid (Some e) h = Ret (FrameRejectedKeepConnection, [], h') \<and> answered sess h h'"
  by (auto simp: reject_with_def rejected_def pushResponse_def answered_def split: option.splits)

lemma reject_unless_answers:
  "\<exists>h'. reject_unless n sess rid (Some e) h = Ret (FrameRejectedKeepConnection, [], h') \<and> answered sess h h'
     \<and> (n \<longrightarrow> h' = h)"
  using reject_with_answers [of sess rid e h] by (auto simp: reject_unless_def rejected_def)

section \<open>Commands\<close>

lemma valid_pairs:
  "ValidCommandAction CommandConfigure ''''" "ValidCommandAction CommandReboot ActionReboot"
  "ValidCommandAction CommandAction ActionFactory" "ValidCommandAction CommandAction ActionLeds"
  "ValidCommandAction CommandUpgrade ActionUpgrade" "ValidCommandAction CommandAction ActionCertupdate"
  "ValidCommandAction CommandAction ActionReenroll" "ValidCommandAction CommandScript ActionExecute"
  "ValidCommandAction CommandAction ActionPing" "ValidCommandAction CommandAction ActionTrace"
  "ValidCommandAction CommandAction ActionTelemetry" "ValidCommandAction CommandAction ActionRTTY"
  by code_simp+

lemma getCommandAction_valid:
  assumes "getCommandAction meth = (command, action, sc)" and "command \<noteq> ''''"
  shows "ValidCommandAction command action"
proof -
  have "fst (getCommandAction meth) = '''' \<or> ValidCommandAction (fst (getCommandAction meth)) (fst (snd (getCommandAction meth)))"
    unfolding getCommandAction_def by (simp only: fst_conv snd_conv valid_pairs simp_thms split: if_split)
  with assms show ?thesis by simp
qed

lemma getCommandAction_upgrade: "getCommandAction ''upgrade'' = (CommandUpgrade, ActionUpgrade, True)"
  by (simp add: getCommandAction_def)

section \<open>The bounded parse\<close>

text \<open>The parse for the size limits reads the same method and identifier as the full parse.\<close>

lemma folded_names:
  "fold_key ''id'' = ''ID''" "fold_key ''method'' = ''METHOD''" "fold_key ''params'' = ''PARAMS''"
  "fold_key ''jsonrpc'' = ''JSONRPC''"
  by code_simp+

lemma request_keys:
  "find_field request_fields k = Some d \<Longrightarrow>
     (if fold_key k = ''ID'' then d = on_field rq_ID rq_ID_update dec_raw else \<forall>s raw. rq_ID (fst (d s raw)) = rq_ID s)
     \<and> (if fold_key k = ''METHOD'' then d = on_field rq_Method rq_Method_update dec_string
         else \<forall>s raw. rq_Method (fst (d s raw)) = rq_Method s)"
  by (auto simp: find_field_def request_fields_def on_field_def folded_names simp del: fold_key.simps split: if_splits prod.splits)

lemma meta_keys:
  "find_field meta_fields k = Some d \<Longrightarrow>
     (if fold_key k = ''ID'' then d = on_field me_ID me_ID_update dec_raw else \<forall>s raw. me_ID (fst (d s raw)) = me_ID s)
     \<and> (if fold_key k = ''METHOD'' then d = on_field me_Method me_Method_update dec_string
         else \<forall>s raw. me_Method (fst (d s raw)) = me_Method s)"
  by (auto simp: find_field_def meta_fields_def on_field_def folded_names simp del: fold_key.simps split: if_splits prod.splits)

lemma common_keys:
  "fold_key k = ''ID'' \<or> fold_key k = ''METHOD'' \<Longrightarrow> find_field request_fields k \<noteq> None \<and> find_field meta_fields k \<noteq> None"
  by (auto simp: find_field_def meta_fields_def request_fields_def folded_names simp del: fold_key.simps)

lemma meta_id:
  "me_ID (fst (json_Unmarshal meta_fields data \<lparr>me_Method = [], me_ID = []\<rparr>)) =
   rq_ID (fst (json_Unmarshal request_fields data zero_request))"
proof (rule json_Unmarshal_agree)
  fix k raw and s :: meta_extractor and t :: jsonrpc_request
  assume eq: "me_ID s = rq_ID t"
  show "me_ID (case find_field meta_fields k of None \<Rightarrow> s | Some d \<Rightarrow> fst (d s raw)) =
     rq_ID (case find_field request_fields k of None \<Rightarrow> t | Some d \<Rightarrow> fst (d t raw))"
    using eq common_keys [of k] meta_keys [of k] request_keys [of k]
    by (cases "fold_key k = ''ID''") (auto simp: on_field_def dec_raw_def split: option.splits)
qed (simp add: zero_request_def)

lemma meta_method:
  "me_Method (fst (json_Unmarshal meta_fields data \<lparr>me_Method = [], me_ID = []\<rparr>)) =
   rq_Method (fst (json_Unmarshal request_fields data zero_request))"
proof (rule json_Unmarshal_agree)
  fix k raw and s :: meta_extractor and t :: jsonrpc_request
  assume eq: "me_Method s = rq_Method t"
  show "me_Method (case find_field meta_fields k of None \<Rightarrow> s | Some d \<Rightarrow> fst (d s raw)) =
     rq_Method (case find_field request_fields k of None \<Rightarrow> t | Some d \<Rightarrow> fst (d t raw))"
    using eq common_keys [of k] meta_keys [of k] request_keys [of k]
    by (cases "fold_key k = ''METHOD''") (auto simp: on_field_def split: option.splits prod.splits)
qed (simp add: zero_request_def)

section \<open>Every frame is handled\<close>

text \<open>What an admitted request has passed: it is within the absolute size limit and the one of its method,
  is valid, has a known method and valid parameters, is not a notification of a state-changing
  command, and the request manager registered it.\<close>

definition admitted ::
  "contracts_env \<Rightarrow> handler_config \<Rightarrow> instant \<Rightarrow> string \<Rightarrow> inbound_frame \<Rightarrow> 'h frame_handler \<Rightarrow> job \<Rightarrow> 'h frame_handler \<Rightarrow> bool" where
  "admitted env hc now rpcID frame h j h' \<longleftrightarrow>
     (\<exists>req sc m. json_Unmarshal request_fields (if_Payload frame) zero_request = (req, False)
        \<and> Request_Validate req = None
        \<and> int (length (if_Payload frame)) \<le> hc_payloadLimitAbsolute hc
        \<and> int (length (if_Payload frame)) \<le> getMethodPayloadLimit hc (rq_Method req)
        \<and> getCommandAction (rq_Method req) = (jb_command j, jb_action j, sc) \<and> jb_command j \<noteq> ''''
        \<and> jb_params j = rq_Params req
        \<and> validate_params env (jb_command j) (jb_action j) (jb_params j) = Inr (jb_uuid j)
        \<and> (is_notification_id (rq_ID req) \<longrightarrow> \<not> sc \<and> rq_Method req \<noteq> ActionRTTY)
        \<and> GetSystemState (fh_stateMgr h) \<noteq> StateNATSDegraded
        \<and> CreateTransaction now rpcID (if_SessionID frame) (rq_ID req) (\<not> is_notification_id (rq_ID req)) (rq_Method req)
            (getTransactionTimeout hc (rq_Method req) (rq_Params req)) sc (fh_reqMgr h) = (Inr (jb_tx j), m)
        \<and> h' = h\<lparr>fh_reqMgr := m\<rparr>)"

definition handled_ok ::
  "(job \<Rightarrow> 'h frame_handler \<Rightarrow> bool) \<Rightarrow> string \<Rightarrow> 'h frame_handler \<Rightarrow> 'h handled \<Rightarrow> bool" where
  "handled_ok adm sess h r \<longleftrightarrow>
     (\<exists>d jobs h'. r = Ret (d, jobs, h') \<and> d \<noteq> FrameFatalCloseConnection
        \<and> (jobs = [] \<and> answered sess h h' \<or> (\<exists>j. jobs = [j] \<and> d = FrameAccepted \<and> adm j h')))"

lemma handled_ok_rejected [simp]: "handled_ok adm sess h (rejected h)"
  by (simp add: handled_ok_def rejected_def)

lemma handled_ok_reject_with [simp]: "handled_ok adm sess h (reject_with sess rid (Some e) h)"
  using reject_with_answers [of sess rid e h] by (auto simp: handled_ok_def)

lemma handled_ok_reject_unless [simp]: "handled_ok adm sess h (reject_unless n sess rid (Some e) h)"
  using reject_unless_answers [of n sess rid e h] by (auto simp: handled_ok_def)

lemma admit_refused:
  assumes "CreateTransaction now rpcID sess (rq_ID req) (\<not> is_notification_id (rq_ID req)) (rq_Method req)
      (getTransactionTimeout hc (rq_Method req) (rq_Params req)) sc (fh_reqMgr h) = (Inl e, m)"
  shows "admit err_text hc now rpcID sess req command action sc u h =
     (case e of
        CachedResponseError payload \<Rightarrow>
          Ret (FrameAccepted, [], h\<lparr>fh_reqMgr := push_highest sess payload (fh_reqMgr h)\<rparr>)
      | _ \<Rightarrow> reject_unless (is_notification_id (rq_ID req)) sess (rq_ID req)
               (if errors_Is e ErrCapacityExceeded \<or> errors_Is e ErrStateLockBusy \<or> errors_Is e ErrDuplicateRequest
                then Some (plain_error ErrInternal ''Device is busy'')
                else internal_error ErrAppFailure (''Transaction creation failed: '' @ err_text e)) h)"
  using assms CreateTransaction_refused [OF assms] unfolding admit_def Let_def
  by (cases e) simp_all

lemma admit_handled:
  assumes "\<And>tx m. CreateTransaction now rpcID sess (rq_ID req) (\<not> is_notification_id (rq_ID req)) (rq_Method req)
      (getTransactionTimeout hc (rq_Method req) (rq_Params req)) sc (fh_reqMgr h) = (Inr tx, m) \<Longrightarrow>
      adm \<lparr>jb_tx = tx, jb_command = command, jb_action = action, jb_params = rq_Params req, jb_uuid = u\<rparr> (h\<lparr>fh_reqMgr := m\<rparr>)"
  shows "handled_ok adm sess h (admit err_text hc now rpcID sess req command action sc u h)"
proof (cases "CreateTransaction now rpcID sess (rq_ID req) (\<not> is_notification_id (rq_ID req)) (rq_Method req)
      (getTransactionTimeout hc (rq_Method req) (rq_Params req)) sc (fh_reqMgr h)")
  case (Pair r m)
  show ?thesis
  proof (cases r)
    case (Inl e)
    have cached: "handled_ok adm sess h (Ret (FrameAccepted, [], h\<lparr>fh_reqMgr := push_highest sess p (fh_reqMgr h)\<rparr>))" for p
      by (auto simp: handled_ok_def answered_def)
    show ?thesis unfolding admit_refused [OF Pair [unfolded Inl]]
      by (cases e) (simp_all add: cached)
  next
    case (Inr tx)
    with assms Pair show ?thesis by (simp add: admit_def handled_ok_def)
  qed
qed

lemma HandleFrame_handled:
  "handled_ok (admitted env hc now rpcID frame h) (if_SessionID frame) h (HandleFrame env err_text hc now rpcID frame h)"
proof -
  let ?ok = "handled_ok (admitted env hc now rpcID frame h) (if_SessionID frame) h"
  have dispatch: "?ok (dispatch_request env err_text hc now rpcID (if_SessionID frame) req h)"
    if size: "int (length (if_Payload frame)) \<le> hc_payloadLimitAbsolute hc"
        "int (length (if_Payload frame)) \<le> getMethodPayloadLimit hc (rq_Method req)"
      and req: "json_Unmarshal request_fields (if_Payload frame) zero_request = (req, False)" for req
  proof (cases "getCommandAction (rq_Method req)")
    case (fields command action sc)
    show ?thesis unfolding dispatch_request_def Let_def fields
      using size req fields
      by (auto split: option.splits sum.splits intro!: admit_handled) (auto simp: admitted_def)
  qed
  show "?ok (HandleFrame env err_text hc now rpcID frame h)"
    unfolding HandleFrame_def Let_def using dispatch meta_method [of "if_Payload frame"]
    by (auto split: prod.splits bool.splits)
qed

text \<open>And whatever passes all of it is admitted.\<close>

lemma admitted_is_handled:
  assumes "admitted env hc now rpcID frame h j h'"
  shows "HandleFrame env err_text hc now rpcID frame h = Ret (FrameAccepted, [j], h')"
proof -
  from assms obtain req :: jsonrpc_request and sc m where
    p: "json_Unmarshal request_fields (if_Payload frame) zero_request = (req, False)" "Request_Validate req = None"
      "int (length (if_Payload frame)) \<le> hc_payloadLimitAbsolute hc"
      "int (length (if_Payload frame)) \<le> getMethodPayloadLimit hc (rq_Method req)"
      "getCommandAction (rq_Method req) = (jb_command j, jb_action j, sc)" "jb_command j \<noteq> ''''" "jb_params j = rq_Params req"
      "validate_params env (jb_command j) (jb_action j) (jb_params j) = Inr (jb_uuid j)"
      "is_notification_id (rq_ID req) \<longrightarrow> \<not> sc \<and> rq_Method req \<noteq> ActionRTTY"
      "GetSystemState (fh_stateMgr h) \<noteq> StateNATSDegraded"
    and ct: "CreateTransaction now rpcID (if_SessionID frame) (rq_ID req) (\<not> is_notification_id (rq_ID req)) (rq_Method req)
            (getTransactionTimeout hc (rq_Method req) (rq_Params req)) sc (fh_reqMgr h) = (Inr (jb_tx j), m)"
      "h' = h\<lparr>fh_reqMgr := m\<rparr>"
    unfolding admitted_def by blast
  have "HandleFrame env err_text hc now rpcID frame h = dispatch_request env err_text hc now rpcID (if_SessionID frame) req h"
    using p(1,3,4) meta_method [of "if_Payload frame"] by (simp add: HandleFrame_def Let_def)
  also have "\<dots> = admit err_text hc now rpcID (if_SessionID frame) req (jb_command j) (jb_action j) sc (jb_uuid j) h"
    using p by (auto simp: dispatch_request_def Let_def)
  also have "\<dots> = Ret (FrameAccepted, [j], h')"
    using ct p(7) by (simp add: admit_def Let_def)
  finally show ?thesis .
qed

lemma HandleFrame_admitted:
  "HandleFrame env err_text hc now rpcID frame h = Ret (d, [j], h') \<Longrightarrow> admitted env hc now rpcID frame h j h'"
  using HandleFrame_handled [of env hc now rpcID frame h err_text] by (auto simp: handled_ok_def)

text \<open>C6: every frame is handled: \<open>HandleFrame\<close> returns without a panic and never asks to close the
  connection. Exactly one job is started when the request is within the absolute size limit and
  that of its method, syntactically valid, of a known method and with validated parameters, is not
  a notification of a state-changing or security-sensitive command, NATS is not degraded, and the
  request manager registers its transaction, which is the transaction of the job. When one of
  these fails no work is started, and nothing changes but at most one reply pushed at the highest
  priority to the session of the frame.\<close>

theorem every_frame_is_handled:
  "\<exists>d jobs h'. HandleFrame env err_text hc now rpcID frame h = Ret (d, jobs, h') \<and> d \<noteq> FrameFatalCloseConnection
     \<and> (if \<exists>j h1. admitted env hc now rpcID frame h j h1
         then d = FrameAccepted \<and> (\<exists>j. jobs = [j] \<and> admitted env hc now rpcID frame h j h')
         else jobs = [] \<and> answered (if_SessionID frame) h h')"
proof (cases "\<exists>j h1. admitted env hc now rpcID frame h j h1")
  case True
  then obtain j h1 where a: "admitted env hc now rpcID frame h j h1" by blast
  from admitted_is_handled [OF a] True a show ?thesis by simp
next
  case False
  with HandleFrame_handled [of env hc now rpcID frame h err_text] show ?thesis by (auto simp: handled_ok_def)
qed

section \<open>Notifications\<close>

lemma notification_id: "is_notification_id rid \<Longrightarrow> CanonicalRequestKey sess rid = Inr ''''"
  by (auto simp: is_notification_id_def CanonicalRequestKey_def)

lemma notification_not_cached:
  assumes "table_inv m" and "is_notification_id rid"
  shows "CreateTransaction now rpcID sess rid respond meth timeout sc m \<noteq> (Inl (CachedResponseError p), m')"
proof -
  have "cache_Get now '''' (mg_cache m) = None"
    using assms(1) by (simp add: table_inv_def cache_Get_def)
  with notification_id [OF assms(2), of sess] show ?thesis
    by (auto simp: CreateTransaction_def Let_def split: if_splits prod.splits bool.splits)
qed

lemma harmless_methods:
  assumes "getCommandAction meth = (command, action, False)" and "command \<noteq> ''''" and "meth \<noteq> ActionRTTY"
  shows "meth \<in> {''ping'', ''trace'', ''telemetry''}"
proof (rule ccontr)
  assume "meth \<notin> {''ping'', ''trace'', ''telemetry''}"
  then have "snd (snd (getCommandAction meth)) \<or> fst (getCommandAction meth) = ''''"
    using assms(3) unfolding getCommandAction_def by simp
  with assms show False by simp
qed

text \<open>A notification that is refused leaves no trace.\<close>

lemma admit_notification:
  assumes "table_inv (fh_reqMgr h)" and n: "is_notification_id (rq_ID req)"
    and "admit err_text hc now rpcID sess req command action sc u h = Ret (d, [], h')"
  shows "h' = h"
proof (cases "CreateTransaction now rpcID sess (rq_ID req) (\<not> is_notification_id (rq_ID req)) (rq_Method req)
      (getTransactionTimeout hc (rq_Method req) (rq_Params req)) sc (fh_reqMgr h)")
  case (Pair r m)
  show ?thesis
  proof (cases r)
    case (Inl e)
    have "\<And>p. e \<noteq> CachedResponseError p"
      using Pair Inl notification_not_cached [OF assms(1) n] by blast
    with assms(3) n show ?thesis unfolding admit_refused [OF Pair [unfolded Inl]]
      by (cases e) (auto simp: reject_unless_def rejected_def)
  next
    case (Inr tx)
    with Pair assms(3) show ?thesis by (simp add: admit_def)
  qed
qed

text \<open>C10: a valid notification has no effect but its own execution: whatever its method, nothing is
  replied, cached or locked. Either the state is unchanged and no work is started, or one job for
  a ping, trace or telemetry command is started, whose transaction, the only new entry of the
  request manager, is marked as not to be answered.\<close>

theorem notifications_are_silent:
  assumes inv: "table_inv (fh_reqMgr h)"
    and parse: "json_Unmarshal request_fields (if_Payload frame) zero_request = (req, False)"
    and valid: "Request_Validate req = None" and notif: "is_notification_id (rq_ID req)"
    and run: "HandleFrame env err_text hc now rpcID frame h = Ret (d, jobs, h')"
  shows "jobs = [] \<and> h' = h
     \<or> (\<exists>j. jobs = [j] \<and> rq_Method req \<in> {''ping'', ''trace'', ''telemetry''} \<and> \<not> tx_RespondToCloud (jb_tx j)
          \<and> h' = h\<lparr>fh_reqMgr := set_tx rpcID (jb_tx j) (fh_reqMgr h)\<rparr>)"
proof (cases jobs)
  case Nil
  have size: "is_notification_id (me_ID (fst (json_Unmarshal meta_fields (if_Payload frame) \<lparr>me_Method = [], me_ID = []\<rparr>)))"
    using meta_id [of "if_Payload frame"] parse notif by simp
  obtain command action sc where c: "getCommandAction (rq_Method req) = (command, action, sc)"
    by (cases "getCommandAction (rq_Method req)")
  have "h' = h"
    using run size parse valid notif admit_notification [OF inv notif] Nil
    unfolding HandleFrame_def Let_def dispatch_request_def
    by (auto simp: c rejected_def reject_unless_def split: if_splits sum.splits)
  with Nil show ?thesis by simp
next
  case (Cons j js)
  then have jobs: "jobs = [j]"
    using HandleFrame_handled [of env hc now rpcID frame h err_text] run by (auto simp: handled_ok_def)
  from HandleFrame_admitted [OF run [unfolded jobs]] parse notif obtain m where
    g: "getCommandAction (rq_Method req) = (jb_command j, jb_action j, False)" "jb_command j \<noteq> ''''"
      "rq_Method req \<noteq> ActionRTTY"
    and ct: "CreateTransaction now rpcID (if_SessionID frame) (rq_ID req) False (rq_Method req)
            (getTransactionTimeout hc (rq_Method req) (rq_Params req)) False (fh_reqMgr h) = (Inr (jb_tx j), m)"
    and h': "h' = h\<lparr>fh_reqMgr := m\<rparr>"
    by (auto simp: admitted_def)
  from CreateTransaction_admitted [OF ct] notification_id [OF notif, of "if_SessionID frame"]
  have "m = register rpcID (jb_tx j) (fh_reqMgr h)" "tx_RequestKey (jb_tx j) = ''''" "\<not> tx_RespondToCloud (jb_tx j)"
    by (auto simp: new_tx_def)
  with jobs h' harmless_methods [OF g] show ?thesis by (simp add: register_def)
qed

definition demo_ping :: bytes where
  "demo_ping = ''{'' @ quoted ''jsonrpc'' @ '':'' @ quoted ''2.0'' @ '','' @ quoted ''method'' @ '':'' @ quoted ''ping'' @ '',''
     @ quoted ''params'' @ '':{'' @ quoted ''serial'' @ '':'' @ quoted ''s'' @ ''}}''"

definition ping_request_rpc :: jsonrpc_request where
  "ping_request_rpc = \<lparr>rq_JSONRPC = ''2.0'', rq_Method = ''ping'', rq_Params = ''{'' @ quoted ''serial'' @ '':'' @ quoted ''s'' @ ''}'', rq_ID = []\<rparr>"

lemma demo_ping_parsed: "json_Unmarshal request_fields demo_ping zero_request = (ping_request_rpc, False)"
  by (simp add: demo_ping_def json_eval request_fields_def zero_request_def ping_request_rpc_def upper_char_def del: dec_scan.simps(2))

lemma ping_request_valid: "Request_Validate ping_request_rpc = None"
  by code_simp

definition demo_hc :: handler_config where
  "demo_hc = \<lparr>hc_serial = ''s'', hc_target = ''vyos'', hc_dispatchCapacity = 4, hc_timeoutDispatch = 5 * Second,
     hc_timeoutConfigure = 30 * Second, hc_timeoutActionDefault = 60 * Second, hc_timeoutActionExtended = 120 * Second,
     hc_payloadLimitAbsolute = 1024, hc_payloadLimitConfigure = 1024, hc_payloadLimitScript = 1024,
     hc_payloadLimitCertUpdate = 1024, hc_payloadLimitDefault = 1024\<rparr>"

definition demo_handler :: "unit frame_handler" where
  "demo_handler = \<lparr>fh_reqMgr = boot_mgr, fh_stateMgr = \<lparr>st_natsLink = LinkConnected, st_wsLink = LinkConnected\<rparr>,
     fh_natsClient = Some demo_client, fh_dispatchBuffer = 0\<rparr>"

definition demo_frame :: inbound_frame where
  "demo_frame = \<lparr>if_SessionID = ''sess-1'', if_Type = 1, if_Payload = demo_ping\<rparr>"

lemma boot_inv: "mgr_inv boot_mgr"
  by (rule NewRequestManager_inv [OF boot_new]) (simp_all add: NewTransactionCache_def)

theorem notifications_are_silent_witness:
  "\<exists>d jobs h'. HandleFrame demo_env (\<lambda>_. []) demo_hc 0 ''r1'' demo_frame demo_handler = Ret (d, jobs, h')
     \<and> (jobs = [] \<and> h' = demo_handler
        \<or> (\<exists>j. jobs = [j] \<and> rq_Method ping_request_rpc \<in> {''ping'', ''trace'', ''telemetry''} \<and> \<not> tx_RespondToCloud (jb_tx j)
             \<and> h' = demo_handler\<lparr>fh_reqMgr := set_tx ''r1'' (jb_tx j) boot_mgr\<rparr>))"
proof -
  obtain d jobs h' where r: "HandleFrame demo_env (\<lambda>_. []) demo_hc 0 ''r1'' demo_frame demo_handler = Ret (d, jobs, h')"
    using HandleFrame_handled [of demo_env demo_hc 0 "''r1''" demo_frame demo_handler "\<lambda>_. []"] by (auto simp: handled_ok_def)
  have "table_inv (fh_reqMgr demo_handler)" using mgr_invD(1) [OF boot_inv] by (simp add: demo_handler_def)
  moreover have "json_Unmarshal request_fields (if_Payload demo_frame) zero_request = (ping_request_rpc, False)"
    using demo_ping_parsed by (simp add: demo_frame_def)
  moreover have "is_notification_id (rq_ID ping_request_rpc)" by (simp add: ping_request_rpc_def is_notification_id_def)
  moreover have "fh_reqMgr demo_handler = boot_mgr" by (simp add: demo_handler_def)
  ultimately show ?thesis
    using notifications_are_silent [OF _ _ ping_request_valid _ r] r by metis
qed

section \<open>Execution of an admitted request\<close>

text \<open>The parameters that the handler accepted pass the checks of the NATS client.\<close>

lemma ValidateCommandPayload_nonempty:
  "ValidCommandAction command action \<Longrightarrow> ValidateCommandPayload env command action params = None \<Longrightarrow> params \<noteq> []"
  by (auto simp: ValidCommandAction_def ActionType_Valid_def ValidateCommandPayload_def check_payload_def split: if_splits)

lemma configure_params_accepted:
  assumes "validate_params env CommandConfigure action params = Inr u" and "ValidateNATSTarget target = None"
    and "cm_Version c = EnvelopeVersion" "cm_UUID c = u" "cm_Payload c = params" "cm_Target c = target"
  shows "configure_command_check env (Some None) (Some c) = None"
proof -
  from assms(1) obtain req v where p: "json_Unmarshal configure_fields params zero_configure = (req, False)"
      "ValidateAndGetUUID env req = Inr v" and u: "u = (if 0 < v then show_int v else ''0'')"
    by (auto simp: validate_params_def split: prod.splits bool.splits sum.splits)
  have "in_int64 (cq_UUID req)" using configure_decoded_range [of params] p(1) by simp
  from ValidateAndGetUUID_range [OF p(2) this] have v: "0 < v" "ParseInt64 u = Some v"
    using u ParseInt64_show_int by (auto simp: in_int64_def)
  have "\<not> json_Valid []" by code_simp
  then have "params \<noteq> []" using p(1) by (auto simp: json_Unmarshal_def)
  with p v assms(2-) show ?thesis by (simp add: configure_command_check_def)
qed

lemma action_params_accepted:
  assumes "validate_params env command action params = Inr u" and "command \<noteq> CommandConfigure"
    and "ValidCommandAction command action" and "ValidateNATSTarget target = None"
    and "ac_Version c = EnvelopeVersion" "ac_CommandType c = command" "ac_Action c = action" "ac_Payload c = params"
      "ac_Target c = target"
  shows "action_command_check env (Some None) (Some c) = None"
proof -
  have v: "ValidateCommandPayload env command action params = None"
    using assms(1,2) by (simp add: validate_params_def split: option.splits)
  from v ValidateCommandPayload_nonempty [OF assms(3) v] assms(3-) show ?thesis
    by (simp add: action_command_check_def)
qed

lemma admittedE:
  assumes "admitted env hc now rpcID frame h j h1"
  obtains req :: jsonrpc_request and sc m where "getCommandAction (rq_Method req) = (jb_command j, jb_action j, sc)" "jb_command j \<noteq> ''''"
    "CreateTransaction now rpcID (if_SessionID frame) (rq_ID req) (\<not> is_notification_id (rq_ID req)) (rq_Method req)
       (getTransactionTimeout hc (rq_Method req) (rq_Params req)) sc (fh_reqMgr h) = (Inr (jb_tx j), m)"
    "h1 = h\<lparr>fh_reqMgr := m\<rparr>" "validate_params env (jb_command j) (jb_action j) (jb_params j) = Inr (jb_uuid j)"
  using assms unfolding admitted_def by blast

text \<open>The transaction of an admitted request is registered, with no reply buffered for it.\<close>

lemma admitted_live:
  assumes adm: "admitted env hc now rpcID frame h j h1" and inv: "mgr_inv (fh_reqMgr h)" and fresh: "fresh_id (fh_reqMgr h) rpcID"
  shows "live (fh_reqMgr h1) rpcID = Some (jb_tx j)" and "tx_RPCID (jb_tx j) = rpcID" and "tx_State (jb_tx j) = TxCreated"
    and "tx_DispatchTimer (jb_tx j) = None" and "\<not> tx_HandoffInProgress (jb_tx j)"
    and "fmlookup (mg_pendingReplies (fh_reqMgr h1)) rpcID = None" and "mgr_inv (fh_reqMgr h1)"
    and "ValidCommandAction (jb_command j) (jb_action j)"
    and "validate_params env (jb_command j) (jb_action j) (jb_params j) = Inr (jb_uuid j)"
    and "fh_natsClient h1 = fh_natsClient h" and "fh_dispatchBuffer h1 = fh_dispatchBuffer h"
proof -
  from adm obtain req :: jsonrpc_request and sc m where g: "getCommandAction (rq_Method req) = (jb_command j, jb_action j, sc)" "jb_command j \<noteq> ''''"
    and ct: "CreateTransaction now rpcID (if_SessionID frame) (rq_ID req) (\<not> is_notification_id (rq_ID req)) (rq_Method req)
            (getTransactionTimeout hc (rq_Method req) (rq_Params req)) sc (fh_reqMgr h) = (Inr (jb_tx j), m)"
    and h1: "h1 = h\<lparr>fh_reqMgr := m\<rparr>" and v: "validate_params env (jb_command j) (jb_action j) (jb_params j) = Inr (jb_uuid j)"
    by (rule admittedE)
  note ad = CreateTransaction_admitted [OF ct]
  show "live (fh_reqMgr h1) rpcID = Some (jb_tx j)" using ad h1 by (auto split: if_splits)
  show "tx_RPCID (jb_tx j) = rpcID" "tx_State (jb_tx j) = TxCreated" "tx_DispatchTimer (jb_tx j) = None"
    "\<not> tx_HandoffInProgress (jb_tx j)" using ad by (auto simp: new_tx_def)
  have "fmlookup (mg_pendingReplies (fh_reqMgr h)) rpcID = None"
  proof (cases "fmlookup (mg_pendingReplies (fh_reqMgr h)) rpcID")
    case (Some p)
    from table_inv_pending [OF mgr_invD(1) [OF inv] Some] fresh show ?thesis by (simp add: fresh_id_def)
  qed
  then show "fmlookup (mg_pendingReplies (fh_reqMgr h1)) rpcID = None" using ad h1 by (auto split: if_splits)
  show "mgr_inv (fh_reqMgr h1)" using CreateTransaction_keeps [OF inv fresh] ct h1 by (metis frame_handler.select_convs(1) frame_handler.surjective frame_handler.update_convs(1) snd_conv)
  show "ValidCommandAction (jb_command j) (jb_action j)" by (rule getCommandAction_valid [OF g])
  show "validate_params env (jb_command j) (jb_action j) (jb_params j) = Inr (jb_uuid j)" by (rule v)
  show "fh_natsClient h1 = fh_natsClient h" "fh_dispatchBuffer h1 = fh_dispatchBuffer h" using h1 by simp_all
qed

text \<open>The state in which the command is handed to the NATS client, and the two ways it can end.\<close>

definition publishing :: "string \<Rightarrow> transaction \<Rightarrow> manager \<Rightarrow> manager" where
  "publishing r tx m = set_tx r (tx\<lparr>tx_State := TxPendingPublish\<rparr>) m"

definition in_flight :: "instant \<Rightarrow> transaction \<Rightarrow> transaction" where
  "in_flight now tx = tx\<lparr>tx_State := TxInFlight, tx_ResponseDeadline := Some (now + tx_TimeoutDuration tx),
     tx_ResponseTimer := Some (Armed (now + tx_TimeoutDuration tx))\<rparr>"

lemma set_tx_set_tx [simp]: "set_tx r t (set_tx r t' m) = set_tx r t m"
  by (simp add: set_tx_def)

lemma marks:
  assumes "live m r = Some tx" and "tx_State tx = TxCreated"
  shows "MarkPreparingDispatch r m = (None, set_tx r (tx\<lparr>tx_State := TxPreparingDispatch\<rparr>) m)"
    and "MarkPendingPublish r (set_tx r (tx\<lparr>tx_State := TxPreparingDispatch\<rparr>) m) = (None, publishing r tx m)"
  using assms by (simp_all add: MarkPreparingDispatch_def MarkPendingPublish_def mark_def publishing_def validateTransition_def)

lemma published:
  assumes "live m r = Some tx" and "tx_DispatchTimer tx = None" and "fmlookup (mg_pendingReplies m) r = None"
  shows "MarkInFlight now r (publishing r tx m) = (None, set_tx r (in_flight now tx) m)"
  using assms by (cases tx) (simp add: MarkInFlight_def publishing_def in_flight_def validateTransition_def stop_timer_def)

definition error_reply :: "transaction \<Rightarrow> int \<Rightarrow> bytes \<Rightarrow> bytes option" where
  "error_reply tx appCode msg =
     Response_Marshal \<lparr>rs_JSONRPC = JSONRPCVersion, rs_Result = [], rs_Error = internal_error appCode msg, rs_ID = tx_CloudRPCID tx\<rparr>"

lemma tt_pushes:
  "accepts m r st \<Longrightarrow> live m r = Some tx \<Longrightarrow> mg_scheduler (tt now r st p m) = mg_scheduler (push_response tx p m)"
  by (auto simp: terminalTransition_def accepts_def Let_def push_response_def split: option.splits sum.splits if_splits)

text \<open>What \<open>failTransactionWithCode\<close> does to a transaction before its dispatch: it is gone, the state lock
  it held is free, and the error is replied.\<close>

lemma failed_before_flight:
  assumes live: "live m r = Some tx" and st: "tx_State tx \<in> {TxCreated, TxPreparingDispatch, TxPendingPublish}"
    and "\<not> tx_HandoffInProgress tx" and "fmlookup (mg_pendingReplies m) r = None" and "tx_RPCID t = r"
  shows "failTransactionWithCode now t appCode msg m = tt now r TxFailed (error_reply t appCode msg) m" and "accepts m r TxFailed"
proof -
  show "accepts m r TxFailed" using live st by (auto simp: accepts_def is_terminal_def validateTransition_None)
  show "failTransactionWithCode now t appCode msg m = tt now r TxFailed (error_reply t appCode msg) m"
    using assms by (simp add: failTransactionWithCode_def Fail_def fail_or_timeout_def error_reply_def)
qed

lemma admitted_published:
  assumes run: "HandleFrame env err_text hc now rpcID frame h = Ret (d, [j], h1)"
    and inv: "mgr_inv (fh_reqMgr h)" and fresh: "fresh_id (fh_reqMgr h) rpcID"
    and slot: "fh_dispatchBuffer h < hc_dispatchCapacity hc"
    and client: "fh_natsClient h = Some nc" "nt_agentClient nc = Some a"
    and target: "ValidateNATSTarget (hc_target hc) = None"
    and agent: "\<forall>c. agent_c a c = None" "\<forall>c. agent_a a c = None"
  shows "executeTransaction env err_text agent_c agent_a hc (Some None) now' j h1 =
     (h1\<lparr>fh_reqMgr := set_tx rpcID (in_flight now' (jb_tx j)) (fh_reqMgr h1)\<rparr>,
      (if jb_command j = CommandConfigure
       then [\<lparr>cm_Version = EnvelopeVersion, cm_RPCID = rpcID, cm_Target = hc_target hc, cm_UUID = jb_uuid j,
              cm_Payload = jb_params j, cm_Timestamp = now'\<rparr>] else []),
      (if jb_command j = CommandConfigure then []
       else [\<lparr>ac_Version = EnvelopeVersion, ac_RPCID = rpcID, ac_Target = hc_target hc, ac_CommandType = jb_command j,
              ac_Action = jb_action j, ac_Payload = jb_params j, ac_Timestamp = now'\<rparr>]))"
proof -
  note l = admitted_live [OF HandleFrame_admitted [OF run] inv fresh]
  have cc: "jb_command j = CommandConfigure \<Longrightarrow> configure_command_check env (Some None)
      (Some \<lparr>cm_Version = EnvelopeVersion, cm_RPCID = rpcID, cm_Target = hc_target hc, cm_UUID = jb_uuid j,
              cm_Payload = jb_params j, cm_Timestamp = now'\<rparr>) = None"
    by (rule configure_params_accepted [OF _ target]) (use l(9) in simp_all)
  have ca: "jb_command j \<noteq> CommandConfigure \<Longrightarrow> action_command_check env (Some None)
      (Some \<lparr>ac_Version = EnvelopeVersion, ac_RPCID = rpcID, ac_Target = hc_target hc, ac_CommandType = jb_command j,
              ac_Action = jb_action j, ac_Payload = jb_params j, ac_Timestamp = now'\<rparr>) = None"
    by (rule action_params_accepted [OF l(9) _ l(8) target]) simp_all
  note m = marks [OF l(1,3)]
  have f: "MarkInFlight now' rpcID (publishing rpcID (jb_tx j) (fh_reqMgr h1)) =
      (None, set_tx rpcID (in_flight now' (jb_tx j)) (fh_reqMgr h1))"
    by (rule published [OF l(1,4,6)])
  show ?thesis
    using slot client agent cc ca l(2,10,11) unfolding executeTransaction_def run_dispatch_def Let_def
    by (simp add: m f acquire_slot_def release_slot_def GetNATSClient_def dispatch_job_def SubmitConfigure_def ExecuteAction_def submit_def)
qed

text \<open>C9: an admitted request is published: with a free place in the dispatch buffer, a running NATS
  client, a valid target and an agent library that takes the command, executing the job hands
  exactly one command to the library, for the fresh identifier, the configured target and the
  parameters of the request unchanged, and the transaction is in flight with its timer running to
  the timeout of its method. In particular no check of the NATS client rejects what the handler
  has accepted.\<close>

theorem admitted_request_is_published:
  assumes run: "HandleFrame env err_text hc now rpcID frame h = Ret (d, [j], h1)"
    and inv: "mgr_inv (fh_reqMgr h)" and fresh: "fresh_id (fh_reqMgr h) rpcID"
    and slot: "fh_dispatchBuffer h < hc_dispatchCapacity hc"
    and client: "fh_natsClient h = Some nc" "nt_agentClient nc = Some a"
    and target: "ValidateNATSTarget (hc_target hc) = None"
    and agent: "\<forall>c. agent_c a c = None" "\<forall>c. agent_a a c = None"
  shows "executeTransaction env err_text agent_c agent_a hc (Some None) now' j h1 =
     (h1\<lparr>fh_reqMgr := set_tx rpcID (in_flight now' (jb_tx j)) (fh_reqMgr h1)\<rparr>,
      (if jb_command j = CommandConfigure
       then [\<lparr>cm_Version = EnvelopeVersion, cm_RPCID = rpcID, cm_Target = hc_target hc, cm_UUID = jb_uuid j,
              cm_Payload = jb_params j, cm_Timestamp = now'\<rparr>] else []),
      (if jb_command j = CommandConfigure then []
       else [\<lparr>ac_Version = EnvelopeVersion, ac_RPCID = rpcID, ac_Target = hc_target hc, ac_CommandType = jb_command j,
              ac_Action = jb_action j, ac_Payload = jb_params j, ac_Timestamp = now'\<rparr>]))"
  using assms by (rule admitted_published)

lemma fmdrop_fmupd_fresh: "fmlookup M r = None \<Longrightarrow> fmdrop r (fmupd r x M) = M"
  by (rule fmap_ext) simp

text \<open>The request manager without the trace of a transaction: its tables and its lock are as in the other;
  when the transaction never ran, so is the cache.\<close>

definition released :: "manager \<Rightarrow> manager \<Rightarrow> bool" where
  "released m m' \<longleftrightarrow> txs m' = txs m \<and> mg_activeCloudRequests m' = mg_activeCloudRequests m
     \<and> mg_stateLock m' = mg_stateLock m \<and> mg_activeStateTx m' = mg_activeStateTx m
     \<and> mg_activeStateOwner m' = mg_activeStateOwner m \<and> mg_pendingReplies m' = mg_pendingReplies m"

definition undone :: "manager \<Rightarrow> manager \<Rightarrow> bool" where
  "undone m m' \<longleftrightarrow> released m m' \<and> mg_cache m' = mg_cache m"

lemma ended_admission_released:
  assumes adm: "admitted env hc now rpcID frame h j h1" and inv: "mgr_inv (fh_reqMgr h)" and fresh: "fresh_id (fh_reqMgr h) rpcID"
    and same: "same_identity (jb_tx j) t" and acc: "accepts (set_tx rpcID t (fh_reqMgr h1)) rpcID st"
  shows "released (fh_reqMgr h) (tt now' rpcID st resp (set_tx rpcID t (fh_reqMgr h1)))" and "mg_cache (fh_reqMgr h1) = mg_cache (fh_reqMgr h)"
    and "mg_cacheTTLConfig (fh_reqMgr h1) = mg_cacheTTLConfig (fh_reqMgr h)"
proof -
  let ?m = "fh_reqMgr h"
  from adm obtain req :: jsonrpc_request and sc m where ct: "CreateTransaction now rpcID (if_SessionID frame) (rq_ID req) (\<not> is_notification_id (rq_ID req)) (rq_Method req)
       (getTransactionTimeout hc (rq_Method req) (rq_Params req)) sc (fh_reqMgr h) = (Inr (jb_tx j), m)"
    and h1: "h1 = h\<lparr>fh_reqMgr := m\<rparr>" by (rule admittedE)
  from CreateTransaction_admitted [OF ct] obtain key where key: "fmlookup (mg_activeCloudRequests ?m) key = None"
    "tx_RequestKey (jb_tx j) = key"
    and m: "if sc then mg_stateLock ?m = MUnlocked \<and> m = register rpcID (jb_tx j) (?m\<lparr>mg_stateLock := MLocked, mg_activeStateTx := rpcID, mg_activeStateOwner := LockOwnedByRPC\<rparr>)
       else m = register rpcID (jb_tx j) ?m"
    by (auto simp: new_tx_def split: if_splits)
  have lock: "mg_stateLock ?m = MUnlocked \<Longrightarrow> mg_activeStateTx ?m = '''' \<and> mg_activeStateOwner ?m = LockNone"
    using mgr_invD(2) [OF inv] by (auto simp: lock_inv_def split: lock_owner.splits)
  have pend: "fmlookup (mg_pendingReplies ?m) rpcID = None"
    using table_inv_pending [OF mgr_invD(1) [OF inv], of rpcID] fresh
    by (cases "fmlookup (mg_pendingReplies ?m) rpcID") (auto simp: fresh_id_def)
  have drop: "fmdrop rpcID (mg_pendingReplies ?m) = mg_pendingReplies ?m"
    using pend by (intro fmap_ext) auto
  have tkey: "tx_RequestKey t = key" using same key by (simp add: same_identity_def)
  have lt: "live (set_tx rpcID t (fh_reqMgr h1)) rpcID = Some t" by simp
  have f: "fmlookup (txs ?m) rpcID = None" "mg_activeStateTx ?m \<noteq> rpcID" using fresh by (simp_all add: fresh_id_def)
  have keys: "mg_activeCloudRequests (tt now' rpcID st resp (set_tx rpcID t (fh_reqMgr h1))) = mg_activeCloudRequests ?m"
    using m key acc tkey h1 unfolding tt_keys [OF lt]
    by (cases sc) (auto simp: register_def fmdrop_fmupd_fresh)
  have tab: "fmdrop rpcID (txs (set_tx rpcID t (fh_reqMgr h1))) = txs ?m"
    using m h1 f by (cases sc) (auto simp: register_def set_tx_def fmdrop_fmupd_fresh)
  show "released ?m (tt now' rpcID st resp (set_tx rpcID t (fh_reqMgr h1)))"
    unfolding released_def keys using tab acc m f lock drop h1 by (cases sc) auto
  show "mg_cache (fh_reqMgr h1) = mg_cache ?m" "mg_cacheTTLConfig (fh_reqMgr h1) = mg_cacheTTLConfig ?m"
    using m h1 by (cases sc; simp add: register_def set_tx_def)+
qed

lemma failed_admission_undone:
  assumes "admitted env hc now rpcID frame h j h1" and "mgr_inv (fh_reqMgr h)" and "fresh_id (fh_reqMgr h) rpcID"
    and "same_identity (jb_tx j) t" and "accepts (set_tx rpcID t (fh_reqMgr h1)) rpcID TxFailed"
  shows "undone (fh_reqMgr h) (tt now' rpcID TxFailed resp (set_tx rpcID t (fh_reqMgr h1)))"
proof -
  have lt: "live (set_tx rpcID t (fh_reqMgr h1)) rpcID = Some t" by simp
  show ?thesis
    using ended_admission_released(1) [OF assms, of now' resp] ended_admission_released(2) [OF assms] by (simp add: undone_def tt_cache [OF lt])
qed

text \<open>A transaction that fails on the way to its dispatch: the admission is undone and the error replied.\<close>

lemma fails_undone:
  assumes adm: "admitted env hc now rpcID frame h j h1" and inv: "mgr_inv (fh_reqMgr h)" and fresh: "fresh_id (fh_reqMgr h) rpcID"
    and m: "m = fh_reqMgr h1 \<or> m = publishing rpcID (jb_tx j) (fh_reqMgr h1)"
  shows "undone (fh_reqMgr h) (failTransactionWithCode now' (jb_tx j) appCode msg m)
     \<and> mg_scheduler (failTransactionWithCode now' (jb_tx j) appCode msg m) =
         mg_scheduler (push_response (jb_tx j) (error_reply (jb_tx j) appCode msg) (fh_reqMgr h1))"
proof -
  note l = admitted_live [OF adm inv fresh]
  have "fmupd rpcID (jb_tx j) (txs (fh_reqMgr h1)) = txs (fh_reqMgr h1)"
    by (rule fmap_ext) (use l(1) in auto)
  then have self: "set_tx rpcID (jb_tx j) (fh_reqMgr h1) = fh_reqMgr h1"
    by (simp add: set_tx_def)
  obtain t where t: "m = set_tx rpcID t (fh_reqMgr h1)" "t = jb_tx j \<or> t = (jb_tx j)\<lparr>tx_State := TxPendingPublish\<rparr>"
    using m self [symmetric] unfolding publishing_def by blast
  have st: "tx_State t \<in> {TxCreated, TxPreparingDispatch, TxPendingPublish}" "\<not> tx_HandoffInProgress t"
    "same_identity (jb_tx j) t" "tx_RespondToCloud t = tx_RespondToCloud (jb_tx j)" "tx_CloudSessionID t = tx_CloudSessionID (jb_tx j)"
    using t l(3,5) by (auto simp: same_identity_def is_terminal_def)
  have lt: "live m rpcID = Some t" "fmlookup (mg_pendingReplies m) rpcID = None" using t l(6) by simp_all
  note f = failed_before_flight [OF lt(1) st(1,2) lt(2) l(2)]
  have "undone (fh_reqMgr h) (tt now' rpcID TxFailed resp m)" for resp
    using failed_admission_undone [OF adm inv fresh st(3)] f(2) t by simp
  moreover have "mg_scheduler (push_response t p m) = mg_scheduler (push_response (jb_tx j) p (fh_reqMgr h1))" for p
    using st t(1) by (auto simp: push_response_def set_tx_def split: option.splits sum.splits)
  ultimately show ?thesis using tt_pushes [OF f(2) lt(1)] by (simp add: f(1))
qed

text \<open>A place that was taken and is given back leaves no trace.\<close>

lemma slot_released:
  "release_slot (h\<lparr>fh_dispatchBuffer := fh_dispatchBuffer h + 1, fh_reqMgr := x\<rparr>) = h\<lparr>fh_reqMgr := x\<rparr>"
  "release_slot (h\<lparr>fh_reqMgr := x, fh_dispatchBuffer := fh_dispatchBuffer h + 1\<rparr>) = h\<lparr>fh_reqMgr := x\<rparr>"
  by (cases h; simp add: release_slot_def)+

lemma execute_settles:
  assumes run: "HandleFrame env err_text hc now rpcID frame h = Ret (d, [j], h1)"
    and inv: "mgr_inv (fh_reqMgr h)" and fresh: "fresh_id (fh_reqMgr h) rpcID"
    and exec: "executeTransaction env err_text agent_c agent_a hc dctx now' j h1 = (h2, cs, as)"
  shows "fh_dispatchBuffer h2 = fh_dispatchBuffer h \<and> length cs + length as \<le> 1
     \<and> (length cs + length as = 1 \<longrightarrow> fh_dispatchBuffer h < hc_dispatchCapacity hc)
     \<and> (h2 = h1\<lparr>fh_reqMgr := set_tx rpcID (in_flight now' (jb_tx j)) (fh_reqMgr h1)\<rparr> \<and> length cs + length as = 1
        \<or> (\<exists>appCode msg. undone (fh_reqMgr h) (fh_reqMgr h2)
             \<and> mg_scheduler (fh_reqMgr h2) =
                 mg_scheduler (push_response (jb_tx j) (error_reply (jb_tx j) appCode msg) (fh_reqMgr h1))))"
proof -
  note adm = HandleFrame_admitted [OF run]
  note l = admitted_live [OF adm inv fresh] and fails = fails_undone [OF adm inv fresh]
  note m = marks [OF l(1,3)]
  have f: "MarkInFlight now' rpcID (publishing rpcID (jb_tx j) (fh_reqMgr h1)) =
      (None, set_tx rpcID (in_flight now' (jb_tx j)) (fh_reqMgr h1))"
    by (rule published [OF l(1,4,6)])
  let ?n = "fh_dispatchBuffer h1 < hc_dispatchCapacity hc"
  consider (early) appCode msg where "h2 = h1\<lparr>fh_reqMgr := failTransactionWithCode now' (jb_tx j) appCode msg (fh_reqMgr h1)\<rparr>" "cs = []" "as = []"
    | (late) appCode msg where "h2 = h1\<lparr>fh_reqMgr := failTransactionWithCode now' (jb_tx j) appCode msg (publishing rpcID (jb_tx j) (fh_reqMgr h1))\<rparr>"
        "length cs + length as \<le> 1" "?n"
    | (sent) "h2 = h1\<lparr>fh_reqMgr := set_tx rpcID (in_flight now' (jb_tx j)) (fh_reqMgr h1)\<rparr>" "length cs + length as = 1" "?n"
    using exec l(2) unfolding executeTransaction_def run_dispatch_def Let_def
    by (auto simp: m f acquire_slot_def slot_released dispatch_job_def SubmitConfigure_def ExecuteAction_def submit_def
        split: if_splits option.splits prod.splits)
  then show ?thesis
  proof cases
    case early
    then show ?thesis using fails [of "fh_reqMgr h1"] l(11) by auto
  next
    case late
    then show ?thesis using fails [of "publishing rpcID (jb_tx j) (fh_reqMgr h1)"] l(11) by auto
  next
    case sent
    then show ?thesis using l(11) by simp
  qed
qed

text \<open>C7: executing an admitted request settles it, whatever the dispatch buffer, the NATS client, the
  context and the agent library do: either one command was handed to the library and the
  transaction is in flight with its timer armed, or the admission is undone completely (the
  transaction, its request key and the state lock are as before) and the only effect is the error
  reply to the request, if it wants one. A command is handed over only with a place in the
  dispatch buffer, which is taken before and given back on every path.\<close>

theorem executed_request_settles:
  assumes run: "HandleFrame env err_text hc now rpcID frame h = Ret (d, [j], h1)"
    and inv: "mgr_inv (fh_reqMgr h)" and fresh: "fresh_id (fh_reqMgr h) rpcID"
    and exec: "executeTransaction env err_text agent_c agent_a hc dctx now' j h1 = (h2, cs, as)"
  shows "fh_dispatchBuffer h2 = fh_dispatchBuffer h \<and> length cs + length as \<le> 1
     \<and> (length cs + length as = 1 \<longrightarrow> fh_dispatchBuffer h < hc_dispatchCapacity hc)
     \<and> (h2 = h1\<lparr>fh_reqMgr := set_tx rpcID (in_flight now' (jb_tx j)) (fh_reqMgr h1)\<rparr> \<and> length cs + length as = 1
        \<or> (\<exists>appCode msg. undone (fh_reqMgr h) (fh_reqMgr h2)
             \<and> mg_scheduler (fh_reqMgr h2) =
                 mg_scheduler (push_response (jb_tx j) (error_reply (jb_tx j) appCode msg) (fh_reqMgr h1))))"
  using assms by (rule execute_settles)

text \<open>A reboot request that is admitted.\<close>

definition demo_reboot :: bytes where
  "demo_reboot = ''{'' @ quoted ''jsonrpc'' @ '':'' @ quoted ''2.0'' @ '','' @ quoted ''method'' @ '':'' @ quoted ''reboot'' @ '',''
     @ quoted ''params'' @ '':{'' @ quoted ''serial'' @ '':'' @ quoted ''s'' @ ''},'' @ quoted ''id'' @ '':'' @ quoted ''a'' @ ''}''"

definition reboot_rpc :: jsonrpc_request where
  "reboot_rpc = \<lparr>rq_JSONRPC = ''2.0'', rq_Method = ''reboot'', rq_Params = ''{'' @ quoted ''serial'' @ '':'' @ quoted ''s'' @ ''}'', rq_ID = quoted ''a''\<rparr>"

definition reboot_frame :: inbound_frame where
  "reboot_frame = \<lparr>if_SessionID = ''s'', if_Type = 1, if_Payload = demo_reboot\<rparr>"

definition reboot_tx :: transaction where
  "reboot_tx = new_tx 0 ''r1'' ''s'' (quoted ''a'') ''s:s:a'' True ''reboot'' (60 * Second) (5 * Second)"

definition reboot_job :: job where
  "reboot_job = \<lparr>jb_tx = reboot_tx, jb_command = CommandReboot, jb_action = ActionReboot, jb_params = rq_Params reboot_rpc, jb_uuid = ''0''\<rparr>"

definition reboot_mgr :: manager where
  "reboot_mgr = boot_mgr\<lparr>mg_stateLock := MLocked, mg_activeStateTx := ''r1'', mg_activeStateOwner := LockOwnedByRPC,
     mg_activeCloudRequests := fmupd ''s:s:a'' ''r1'' fmempty, mg_transactionsByRPCID := fmupd ''r1'' reboot_tx fmempty\<rparr>"

lemma demo_reboot_parsed: "json_Unmarshal request_fields demo_reboot zero_request = (reboot_rpc, False)"
  by (simp add: demo_reboot_def json_eval request_fields_def zero_request_def reboot_rpc_def upper_char_def del: dec_scan.simps(2))

lemma demo_reboot_meta: "fst (json_Unmarshal meta_fields demo_reboot \<lparr>me_Method = [], me_ID = []\<rparr>) = \<lparr>me_Method = ''reboot'', me_ID = quoted ''a''\<rparr>"
  by (simp add: demo_reboot_def json_eval meta_fields_def upper_char_def del: dec_scan.simps(2))

lemma reboot_params: "validate_params demo_env CommandReboot ActionReboot (rq_Params reboot_rpc) = Inr ''0''"
proof -
  have "decode_exactly (lenient reboot_request_fields zero_reboot_request) (rq_Params reboot_rpc) =
      Decoded (zero_reboot_request\<lparr>bq_Serial := ''s''\<rparr>)"
    by (simp add: decode_exactly_def reboot_rpc_def json_eval reboot_request_fields_def zero_reboot_request_def upper_char_def del: dec_scan.simps(2))
  moreover have "reboot_Validate (zero_reboot_request\<lparr>bq_Serial := ''s''\<rparr>) = None" by code_simp
  ultimately show ?thesis
    by (simp add: validate_params_def ValidateCommandPayload_def check_payload_def) (simp add: reboot_rpc_def)
qed

lemma reboot_created:
  "CreateTransaction 0 ''r1'' ''s'' (quoted ''a'') True ''reboot'' (60 * Second) True boot_mgr = (Inr reboot_tx, reboot_mgr)"
proof -
  have "CanonicalRequestKey ''s'' (quoted ''a'') = Inr ''s:s:a''" by code_simp
  moreover have "quoted ''a'' \<noteq> []" "quoted ''a'' \<noteq> ''null''" by (simp_all add: quoted_def)
  ultimately show ?thesis
    by (simp add: CreateTransaction_def boot_mgr_def cache_Get_def reboot_tx_def reboot_mgr_def set_tx_def Let_def fcard.rep_eq)
qed

lemma reboot_handled:
  "HandleFrame demo_env (\<lambda>_. []) demo_hc 0 ''r1'' reboot_frame demo_handler =
     Ret (FrameAccepted, [reboot_job], demo_handler\<lparr>fh_reqMgr := reboot_mgr\<rparr>)"
proof -
  have len: "length demo_reboot \<le> 1024" by (simp add: demo_reboot_def quoted_def)
  have v: "Request_Validate reboot_rpc = None" by code_simp
  have "GetSystemState \<lparr>st_natsLink = LinkConnected, st_wsLink = LinkConnected\<rparr> \<noteq> StateNATSDegraded" by code_simp
  then have s: "GetSystemState (fh_stateMgr demo_handler) \<noteq> StateNATSDegraded" by (simp add: demo_handler_def)
  have c: "getCommandAction ''reboot'' = (CommandReboot, ActionReboot, True)" "is_notification_id (quoted ''a'') = False"
    by (simp_all add: getCommandAction_def is_notification_id_def quoted_def)
  have r: "rq_Method reboot_rpc = ''reboot''" "rq_ID reboot_rpc = quoted ''a''" by (simp_all add: reboot_rpc_def)
  have "getTransactionTimeout demo_hc ''reboot'' (rq_Params reboot_rpc) = 60 * Second"
    by (simp add: getTransactionTimeout_def demo_hc_def)
  then have "admit (\<lambda>_. []) demo_hc 0 ''r1'' ''s'' reboot_rpc CommandReboot ActionReboot True ''0'' demo_handler =
      Ret (FrameAccepted, [reboot_job], demo_handler\<lparr>fh_reqMgr := reboot_mgr\<rparr>)"
    using reboot_created by (simp add: admit_def Let_def r c(2) demo_handler_def reboot_job_def)
  then have "dispatch_request demo_env (\<lambda>_. []) demo_hc 0 ''r1'' ''s'' reboot_rpc demo_handler =
      Ret (FrameAccepted, [reboot_job], demo_handler\<lparr>fh_reqMgr := reboot_mgr\<rparr>)"
    using v s c r reboot_params by (simp add: dispatch_request_def)
  then show ?thesis
    using len demo_reboot_meta demo_reboot_parsed
    by (simp add: HandleFrame_def Let_def reboot_frame_def demo_hc_def getMethodPayloadLimit_def)
qed

lemma reboot_fresh: "mgr_inv (fh_reqMgr demo_handler)" "fresh_id (fh_reqMgr demo_handler) ''r1''"
  using boot_inv by (simp_all add: demo_handler_def) (simp add: fresh_id_def boot_mgr_def)

theorem admitted_request_is_published_witness:
  "snd (executeTransaction demo_env (\<lambda>_. []) (\<lambda>_ _. None) (\<lambda>_ _. None) demo_hc (Some None) (2 * Second) reboot_job
      (demo_handler\<lparr>fh_reqMgr := reboot_mgr\<rparr>)) =
     ([], [\<lparr>ac_Version = ''1.0'', ac_RPCID = ''r1'', ac_Target = ''vyos'', ac_CommandType = CommandReboot, ac_Action = ActionReboot,
            ac_Payload = rq_Params reboot_rpc, ac_Timestamp = 2 * Second\<rparr>])"
proof -
  have "ValidateNATSTarget ''vyos'' = None" by code_simp
  then show ?thesis
    using admitted_request_is_published [OF reboot_handled reboot_fresh, of demo_client "()" "\<lambda>_ _. None" "\<lambda>_ _. None" "2 * Second"]
    by (simp add: demo_hc_def demo_handler_def demo_client_def reboot_job_def)
qed

theorem executed_request_settles_witness:
  "\<exists>h2 cs as. executeTransaction demo_env (\<lambda>_. []) (\<lambda>_ _. None) (\<lambda>_ _. Some ErrDeadlineExceeded) demo_hc (Some None) (2 * Second)
      reboot_job (demo_handler\<lparr>fh_reqMgr := reboot_mgr\<rparr>) = (h2, cs, as) \<and> fh_dispatchBuffer h2 = 0 \<and> length cs + length as \<le> 1"
proof -
  obtain h2 cs as where e: "executeTransaction demo_env (\<lambda>_. []) (\<lambda>_ _. None) (\<lambda>_ _. Some ErrDeadlineExceeded) demo_hc (Some None)
      (2 * Second) reboot_job (demo_handler\<lparr>fh_reqMgr := reboot_mgr\<rparr>) = (h2, cs, as)"
    by (metis prod_cases3)
  from executed_request_settles [OF reboot_handled reboot_fresh e] e show ?thesis by (simp add: demo_handler_def)
qed

end
