(* ===== verification/Ws_Client.thy ===== *)
theory Ws_Client
  imports Handler_Props
begin

text \<open>
  The WebSocket client of the cloud connection, \<open>src/pkg/websocket/client.go\<close>: construction, the
  reconnect loop with its back-off, the connect handshake, and the reader loop that feeds the
  handler of frames. The socket and the dialer are a third-party library: what they return is an
  argument of the definitions. The writer loop is in \<open>Ws_Writer\<close>.
\<close>

section \<open>The client\<close>

datatype handshake_result = HandshakeAccepted | HandshakeRetryableFailure | HandshakeRejected

abbreviation defaultCompressionThresholdBytes :: int where "defaultCompressionThresholdBytes \<equiv> 2048"
abbreviation defaultMaxFrameSize :: int where "defaultMaxFrameSize \<equiv> 11 * 1024 * 1024"
abbreviation initialBackoff :: duration where "initialBackoff \<equiv> 2 * Second"
abbreviation maxBackoff :: duration where "maxBackoff \<equiv> 60 * Second"
abbreviation defaultStableSessionThreshold :: duration where "defaultStableSessionThreshold \<equiv> 60 * Second"

text \<open>A connection is named by the generation it was dialled for.\<close>

record ws_client =
  ws_running :: bool
  ws_conn :: "64 word option"
  ws_generation :: "64 word"
  ws_cancel :: "64 word option"
  ws_config :: cloud_config
  ws_pendingMsg :: "outbound_message option"

definition NewWSClient :: "cloud_config \<Rightarrow> bool \<Rightarrow> bool \<Rightarrow> ws_client result" where
  "NewWSClient cfg scheduler_present metaProvider_present =
     (if \<not> scheduler_present then Inl (EMsg ''scheduler cannot be nil'')
      else if \<not> metaProvider_present then Inl (EMsg ''metadata provider cannot be nil'')
      else Inr \<lparr>ws_running = False, ws_conn = None, ws_generation = 0, ws_cancel = None,
        ws_config = (if cc_CompressionThresholdBytes cfg = 0
                     then cfg\<lparr>cc_CompressionThresholdBytes := defaultCompressionThresholdBytes\<rparr> else cfg),
        ws_pendingMsg = None\<rparr>)"

definition sess_id :: "64 word \<Rightarrow> string" where
  "sess_id gen = ''sess-'' @ show_nat (unat gen)"

text \<open>\<open>Close\<close>; \<open>close_err\<close> is what closing the socket returns.\<close>

definition ws_Close :: "go_error option \<Rightarrow> ws_client \<Rightarrow> go_error option \<times> ws_client" where
  "ws_Close close_err c =
     (if ws_conn c \<noteq> None then close_err else None, c\<lparr>ws_cancel := None, ws_conn := None\<rparr>)"

text \<open>A setting in seconds, with its default; the product wraps as an \<open>int64\<close>.\<close>

definition seconds_or :: "duration \<Rightarrow> int \<Rightarrow> duration" where
  "seconds_or dflt n = (if 0 < n then wrap64 (n * Second) else dflt)"

definition stable_threshold :: "cloud_config \<Rightarrow> duration" where
  "stable_threshold cfg =
     (let threshold = wrap64 (cc_StableSessionThresholdSeconds cfg * Second)
      in if threshold \<le> 0 then defaultStableSessionThreshold else threshold)"

definition max_frame_size :: "cloud_config \<Rightarrow> int" where
  "max_frame_size cfg = (if 0 < cc_MaxFrameSizeBytes cfg then cc_MaxFrameSizeBytes cfg else defaultMaxFrameSize)"

section \<open>The handshake\<close>

definition compressed :: "cloud_config \<Rightarrow> bytes \<Rightarrow> bool" where
  "compressed cfg payload \<longleftrightarrow> cc_CompressionThresholdBytes cfg \<le> int (length payload)"

text \<open>The connect request as it is marshalled: the members of the struct in order, those of the map
  of parameters sorted.\<close>

definition connect_request :: "connect_params \<Rightarrow> bytes" where
  "connect_request p =
     ''{'' @ quoted ''jsonrpc'' @ '':'' @ quoted ''2.0'' @ '','' @ quoted ''method'' @ '':'' @ quoted ''connect'' @ '','' @ quoted ''params'' @ '':''
     @ json_Marshal_map [(''serial'', JStr (cn_Serial p)), (''uuid'', JInt (int (cn_UUID p))), (''firmware'', JStr (cn_Firmware p)),
         (''capabilities'', JObj (case cn_Capabilities p of None \<Rightarrow> [] | Some c \<Rightarrow> c))] @ ''}''"

text \<open>The outcome and the frame written with its compression flag, if one was written. The branch of a
  failing \<open>json.Marshal\<close> (client.go:399-403) has no counterpart: the request holds strings, an unsigned
  integer and the capabilities, which are themselves decoded from JSON, and marshalling those
  never fails.\<close>

definition performConnectHandshake ::
  "cloud_config \<Rightarrow> connect_params result \<Rightarrow> go_error option \<Rightarrow> go_error option
     \<Rightarrow> handshake_result \<times> (bytes \<times> bool) option" where
  "performConnectHandshake cfg params setDeadline writeMessage =
     (case params of
        Inl e \<Rightarrow> (HandshakeRetryableFailure, None)
      | Inr p0 \<Rightarrow>
          let p = p0\<lparr>cn_Serial := TrimSpace (cn_Serial p0)\<rparr>
          in if cn_Serial p = [] then (HandshakeRejected, None)
             else if setDeadline \<noteq> None then (HandshakeRetryableFailure, None)
             else
               let payload = connect_request p
               in if writeMessage \<noteq> None then (HandshakeRetryableFailure, None)
                  else (HandshakeAccepted, Some (payload, compressed cfg payload)))"

section \<open>The reconnect loop\<close>

text \<open>The TLS settings for one dial: usable, a file that may be readable later, or a fatal error.\<close>

datatype tls_setup = TlsReady | TlsRetry | TlsFatal go_error

definition dial_tls :: "files_env \<Rightarrow> tls_config \<Rightarrow> tls_setup" where
  "dial_tls fe t =
     (let hasCA = tc_CAFile t \<noteq> []; hasCert = tc_ClientCertFile t \<noteq> [] \<or> tc_ClientKeyFile t \<noteq> [];
          certs = (if hasCert then
                     (if tc_ClientCertFile t = [] \<or> tc_ClientKeyFile t = []
                      then TlsFatal (EMsg ''ws: fatal: incomplete client certificate configuration'')
                      else case fe_KeyPair fe (tc_ClientCertFile t) (tc_ClientKeyFile t) of Inl e \<Rightarrow> TlsRetry | Inr _ \<Rightarrow> TlsReady)
                   else TlsReady)
      in if hasCA \<or> hasCert \<or> tc_ServerName t \<noteq> [] then
           (if hasCA then
              (case fe_ReadFile fe (tc_CAFile t) of
                 Inl e \<Rightarrow> TlsRetry
               | Inr caCert \<Rightarrow>
                   if \<not> fe_PEM fe caCert
                   then TlsFatal (EMsg ''ws: fatal: failed to parse any valid certificates from CA file'')
                   else certs)
            else certs)
         else TlsReady)"

text \<open>What the environment does in one turn of the loop. \<open>wa_jitter\<close> is the random share of the
  back-off, \<open>wa_duration\<close> the time the session lasted.\<close>

record attempt =
  wa_ctxDone :: bool
  wa_files :: files_env
  wa_dial :: "go_error option"
  wa_params :: "connect_params result"
  wa_setDeadline :: "go_error option"
  wa_writeMessage :: "go_error option"
  wa_duration :: duration
  wa_jitter :: "duration \<Rightarrow> duration"
  wa_waitCanceled :: bool

datatype ws_event = WsState LinkState | WsSession string | WsWait duration

datatype loop_end = Running | Returned "go_error option"

record ws_loop =
  wl_backoff :: duration
  wl_client :: ws_client
  wl_log :: "ws_event list"

definition wl_note :: "ws_event \<Rightarrow> ws_loop \<Rightarrow> ws_loop" where
  "wl_note e l = l\<lparr>wl_log := wl_log l @ [e]\<rparr>"

definition waitForRetry :: "attempt \<Rightarrow> ws_loop \<Rightarrow> loop_end \<times> ws_loop" where
  "waitForRetry a l =
     (let jitteredBackoff = min (initialBackoff + wa_jitter a (wl_backoff l)) maxBackoff;
          l1 = wl_note (WsWait jitteredBackoff) l
      in if wa_waitCanceled a then (Returned None, l1)
         else (Running, l1\<lparr>wl_backoff := min (2 * wl_backoff l) maxBackoff\<rparr>))"

text \<open>The session proper: the link is reported connected, both loops run, and it is reported
  connecting again when they have ended; the watcher has forgotten the socket by then.\<close>

definition run_session :: "attempt \<Rightarrow> ws_loop \<Rightarrow> loop_end \<times> ws_loop" where
  "run_session a l =
     (let c = wl_client l;
          l1 = wl_note (WsState LinkConnecting) (wl_note (WsSession (sess_id (ws_generation c))) (wl_note (WsState LinkConnected) l));
          l2 = l1\<lparr>wl_client := c\<lparr>ws_conn := None\<rparr>\<rparr>
      in if wa_duration a > stable_threshold (ws_config c) then (Running, l2\<lparr>wl_backoff := initialBackoff\<rparr>)
         else waitForRetry a l2)"

definition reconnect_step :: "attempt \<Rightarrow> ws_loop \<Rightarrow> loop_end \<times> ws_loop" where
  "reconnect_step a l =
     (if wa_ctxDone a then (Returned None, l)
      else
        let c = wl_client l
        in case dial_tls (wa_files a) (cc_TLS (ws_config c)) of
             TlsFatal e \<Rightarrow> (Returned (Some e), l)
           | TlsRetry \<Rightarrow> waitForRetry a l
           | TlsReady \<Rightarrow>
               if wa_dial a \<noteq> None then waitForRetry a l
               else
                 let gen = ws_generation c + 1;
                     l1 = l\<lparr>wl_client := c\<lparr>ws_conn := Some gen, ws_generation := gen, ws_cancel := Some gen\<rparr>\<rparr>
                 in case fst (performConnectHandshake (ws_config c) (wa_params a) (wa_setDeadline a) (wa_writeMessage a)) of
                      HandshakeRejected \<Rightarrow>
                        (Returned (Some (EMsg ''ws: fatal: handshake rejected'')), l1\<lparr>wl_client := snd (ws_Close None (wl_client l1))\<rparr>)
                    | HandshakeRetryableFailure \<Rightarrow>
                        waitForRetry a (l1\<lparr>wl_client := snd (ws_Close None (wl_client l1))\<rparr>)
                    | HandshakeAccepted \<Rightarrow> run_session a l1)"

fun reconnect_loop :: "attempt list \<Rightarrow> ws_loop \<Rightarrow> loop_end \<times> ws_loop" where
  "reconnect_loop [] l = (Running, l)"
| "reconnect_loop (a # as) l =
     (case reconnect_step a l of (Returned r, l') \<Rightarrow> (Returned r, l') | (Running, l') \<Rightarrow> reconnect_loop as l')"

definition ReconnectLoop :: "bool \<Rightarrow> attempt list \<Rightarrow> ws_client \<Rightarrow> loop_end \<times> ws_client \<times> ws_event list" where
  "ReconnectLoop handler_present as c =
     (if ws_running c then (Returned (Some (EMsg ''ws: ReconnectLoop is already running'')), c, [])
      else if \<not> handler_present then (Returned (Some (EMsg ''ws: frame handler cannot be nil'')), c, [])
      else case reconnect_loop as \<lparr>wl_backoff = initialBackoff, wl_client = c\<lparr>ws_running := True\<rparr>, wl_log = [WsState LinkConnecting]\<rparr> of
        (Running, l) \<Rightarrow> (Running, wl_client l, wl_log l)
      | (Returned r, l) \<Rightarrow> (Returned r, (wl_client l)\<lparr>ws_running := False\<rparr>, wl_log l))"

section \<open>The reader loop\<close>

text \<open>The read deadline leaves room for a ping and its pong.\<close>

definition read_deadline :: "cloud_config \<Rightarrow> duration" where
  "read_deadline cfg =
     wrap64 (seconds_or (30 * Second) (cc_PingIntervalSeconds cfg) + seconds_or (60 * Second) (cc_PongTimeoutSeconds cfg))"

text \<open>The ping handler: what writing the pong returns, \<open>close_sent\<close> being \<open>gws.ErrCloseSent\<close>.\<close>

definition ping_handler :: "go_error \<Rightarrow> go_error option \<Rightarrow> go_error option" where
  "ping_handler close_sent writeControl = (if writeControl = Some close_sent then None else writeControl)"

text \<open>One read of the socket: an error of \<open>NextReader\<close>, or a message with the stream of its
  decompressed content.\<close>

datatype socket_read = SockError go_error | SockMessage int reader

definition read_frame :: "cloud_config \<Rightarrow> reader \<Rightarrow> bytes result" where
  "read_frame cfg r =
     (case ReadAll (LimitReader r (wrap64 (max_frame_size cfg + 1))) of
        Inl e \<Rightarrow> Inl (EWrap ''failed to read decompressed frame'' e)
      | Inr payload \<Rightarrow>
          if max_frame_size cfg < int (length payload) then Inl (EMsg ''decompressed websocket message exceeds limit'')
          else Inr payload)"

definition max_errors :: "cloud_config \<Rightarrow> int" where
  "max_errors cfg = (if 0 < cc_MaxConsecutiveFrameErrors cfg then cc_MaxConsecutiveFrameErrors cfg else 20)"

text \<open>The loop over the reads of a session, each with whether the context is done; the error that ended
  it, or \<open>None\<close> while it is still running. A panic of the handler ends the process.\<close>

fun reader_loop ::
  "cloud_config \<Rightarrow> string \<Rightarrow> (inbound_frame \<Rightarrow> 's \<Rightarrow> ((frame_disposition \<times> go_error option) \<times> 's) go)
     \<Rightarrow> int \<Rightarrow> (go_error option \<times> socket_read) list \<Rightarrow> 's \<Rightarrow> (go_error option \<times> 's) go" where
  "reader_loop cfg sessID handler consecutiveErrors [] s = Ret (None, s)"
| "reader_loop cfg sessID handler consecutiveErrors ((ctxErr, rd) # rds) s =
     (case ctxErr of Some e \<Rightarrow> Ret (Some e, s) | None \<Rightarrow>
     (case rd of SockError e \<Rightarrow> Ret (Some e, s) | SockMessage msgType r \<Rightarrow>
     (case read_frame cfg r of Inl e \<Rightarrow> Ret (Some e, s) | Inr payload \<Rightarrow>
     (case handler \<lparr>if_SessionID = sessID, if_Type = msgType, if_Payload = payload\<rparr> s of
        Panic \<Rightarrow> Panic
      | Ret ((disp, err), s') \<Rightarrow>
          if disp = FrameFatalCloseConnection then Ret (Some (EMsg ''handler requested fatal socket termination''), s')
          else if err \<noteq> None then
            (if max_errors cfg \<le> consecutiveErrors + 1
             then Ret (Some (EMsg ''ws: fatal: exceeded maximum consecutive frame handler errors''), s')
             else reader_loop cfg sessID handler (consecutiveErrors + 1) rds s')
          else reader_loop cfg sessID handler 0 rds s'))))"

definition startReaderLoop ::
  "(inbound_frame \<Rightarrow> 's \<Rightarrow> ((frame_disposition \<times> go_error option) \<times> 's) go) \<Rightarrow> (go_error option \<times> socket_read) list
     \<Rightarrow> ws_client \<Rightarrow> 's \<Rightarrow> (go_error option \<times> 's) go" where
  "startReaderLoop handler rds c s = reader_loop (ws_config c) (sess_id (ws_generation c)) handler 0 rds s"

section \<open>What the reconnect loop promises\<close>

text \<open>The TLS files of a dial: the CA file is absent or readable, what it holds is a certificate, and
  certificate and key are both absent or load together.\<close>

definition ca_readable :: "files_env \<Rightarrow> tls_config \<Rightarrow> bool" where
  "ca_readable fe t \<longleftrightarrow> tc_CAFile t = '''' \<or> \<not> isl (fe_ReadFile fe (tc_CAFile t))"

definition ca_invalid :: "files_env \<Rightarrow> tls_config \<Rightarrow> bool" where
  "ca_invalid fe t \<longleftrightarrow> tc_CAFile t \<noteq> '''' \<and> (case fe_ReadFile fe (tc_CAFile t) of Inl _ \<Rightarrow> False | Inr pem \<Rightarrow> \<not> fe_PEM fe pem)"

definition half_a_pair :: "tls_config \<Rightarrow> bool" where
  "half_a_pair t \<longleftrightarrow> (tc_ClientCertFile t = '''') \<noteq> (tc_ClientKeyFile t = '''')"

definition tls_usable :: "files_env \<Rightarrow> tls_config \<Rightarrow> bool" where
  "tls_usable fe t \<longleftrightarrow> ca_readable fe t \<and> \<not> ca_invalid fe t \<and> \<not> half_a_pair t
     \<and> (tc_ClientCertFile t = '''' \<or> \<not> isl (fe_KeyPair fe (tc_ClientCertFile t) (tc_ClientKeyFile t)))"

definition blank_serial :: "connect_params result \<Rightarrow> bool" where
  "blank_serial params \<longleftrightarrow> (case params of Inl _ \<Rightarrow> False | Inr p \<Rightarrow> TrimSpace (cn_Serial p) = '''')"

text \<open>The faults on which the loop gives up, and the attempts that become a session; every other attempt
  has failed for now.\<close>

definition fatal_fault :: "cloud_config \<Rightarrow> attempt \<Rightarrow> go_error option" where
  "fatal_fault cfg a =
     (let fe = wa_files a; t = cc_TLS cfg
      in if ca_invalid fe t then Some (EMsg ''ws: fatal: failed to parse any valid certificates from CA file'')
         else if ca_readable fe t \<and> half_a_pair t then Some (EMsg ''ws: fatal: incomplete client certificate configuration'')
         else if tls_usable fe t \<and> wa_dial a = None \<and> blank_serial (wa_params a) then Some (EMsg ''ws: fatal: handshake rejected'')
         else None)"

definition becomes_session :: "cloud_config \<Rightarrow> attempt \<Rightarrow> bool" where
  "becomes_session cfg a \<longleftrightarrow> tls_usable (wa_files a) (cc_TLS cfg) \<and> wa_dial a = None
     \<and> \<not> isl (wa_params a) \<and> \<not> blank_serial (wa_params a) \<and> wa_setDeadline a = None \<and> wa_writeMessage a = None"

text \<open>The pause after \<open>k\<close> earlier pauses in a row: at least 2 seconds, at most \<open>2 + 2 * 2 ^ k\<close> and never more
  than 60.\<close>

definition pause_ok :: "nat \<Rightarrow> duration \<Rightarrow> bool" where
  "pause_ok k d \<longleftrightarrow> 2 * Second \<le> d \<and> d \<le> 60 * Second \<and> d \<le> 2 * Second + 2 * Second * 2 ^ k"

text \<open>The events of the loop over a list of attempts and how it stands afterwards, \<open>k\<close> pauses after the
  start or the last stable session: \<open>paced\<close> at the head of the loop, \<open>pausing\<close> where it has to wait
  before the next attempt.\<close>

inductive paced :: "cloud_config \<Rightarrow> nat \<Rightarrow> attempt list \<Rightarrow> ws_event list \<Rightarrow> loop_end \<Rightarrow> bool"
  and pausing :: "cloud_config \<Rightarrow> nat \<Rightarrow> attempt \<Rightarrow> attempt list \<Rightarrow> ws_event list \<Rightarrow> loop_end \<Rightarrow> bool"
  for cfg :: cloud_config where
  paced_open: "paced cfg k [] [] Running"
| paced_cancelled: "wa_ctxDone a \<Longrightarrow> paced cfg k (a # as) [] (Returned None)"
| paced_fatal: "\<not> wa_ctxDone a \<Longrightarrow> fatal_fault cfg a = Some e \<Longrightarrow> paced cfg k (a # as) [] (Returned (Some e))"
| paced_failed: "\<not> wa_ctxDone a \<Longrightarrow> fatal_fault cfg a = None \<Longrightarrow> \<not> becomes_session cfg a \<Longrightarrow>
    pausing cfg k a as evs r \<Longrightarrow> paced cfg k (a # as) evs r"
| paced_stable: "\<not> wa_ctxDone a \<Longrightarrow> becomes_session cfg a \<Longrightarrow> stable_threshold cfg < wa_duration a \<Longrightarrow>
    paced cfg 0 as evs r \<Longrightarrow>
    paced cfg k (a # as) (WsState LinkConnected # WsSession sid # WsState LinkConnecting # evs) r"
| paced_unstable: "\<not> wa_ctxDone a \<Longrightarrow> becomes_session cfg a \<Longrightarrow> wa_duration a \<le> stable_threshold cfg \<Longrightarrow>
    pausing cfg k a as evs r \<Longrightarrow>
    paced cfg k (a # as) (WsState LinkConnected # WsSession sid # WsState LinkConnecting # evs) r"
| pause_cancelled: "wa_waitCanceled a \<Longrightarrow> pause_ok k d \<Longrightarrow> pausing cfg k a as [WsWait d] (Returned None)"
| pause_over: "\<not> wa_waitCanceled a \<Longrightarrow> pause_ok k d \<Longrightarrow> paced cfg (Suc k) as evs r \<Longrightarrow>
    pausing cfg k a as (WsWait d # evs) r"

section \<open>Properties of the reconnect loop\<close>

definition sessions :: "ws_event list \<Rightarrow> string list" where
  "sessions evs = concat (map (\<lambda>e. case e of WsSession s \<Rightarrow> [s] | _ \<Rightarrow> []) evs)"

lemma sessions_append [simp]: "sessions (xs @ ys) = sessions xs @ sessions ys"
  by (simp add: sessions_def)

lemma sessions_simps [simp]:
  "sessions [] = []" "sessions (WsSession s # es) = s # sessions es" "sessions (WsWait d # es) = sessions es"
  "sessions (WsState st # es) = sessions es"
  by (simp_all add: sessions_def)

text \<open>Between two turns the sessions so far are numbered upwards from the generation \<open>g\<close>.\<close>

definition loop_inv :: "nat \<Rightarrow> nat \<Rightarrow> ws_loop \<Rightarrow> bool" where
  "loop_inv g n l \<longleftrightarrow> g \<le> unat (ws_generation (wl_client l)) \<and> unat (ws_generation (wl_client l)) \<le> g + n
     \<and> (\<exists>gs. sessions (wl_log l) = map (\<lambda>k. ''sess-'' @ show_nat k) gs \<and> sorted gs \<and> distinct gs
          \<and> (\<forall>k \<in> set gs. g < k \<and> k \<le> unat (ws_generation (wl_client l))))"

definition jitter_ok :: "attempt \<Rightarrow> bool" where
  "jitter_ok a \<longleftrightarrow> (\<forall>b. 0 \<le> b \<longrightarrow> 0 \<le> wa_jitter a b \<and> wa_jitter a b \<le> b)"

lemma wait_inv: "loop_inv g n l \<Longrightarrow> loop_inv g n (snd (waitForRetry a l))"
  by (auto simp: loop_inv_def waitForRetry_def wl_note_def Let_def)

lemma client_inv:
  "loop_inv g n l \<Longrightarrow> ws_generation c = ws_generation (wl_client l) \<Longrightarrow> loop_inv g n (l\<lparr>wl_client := c\<rparr>)"
  by (simp add: loop_inv_def)

lemma dial_inv:
  assumes inv: "loop_inv g n l" and room: "g + Suc n < 2 ^ 64" and c: "ws_generation c = ws_generation (wl_client l) + 1"
  shows "loop_inv g (Suc n) (l\<lparr>wl_client := c\<rparr>)" "unat (ws_generation c) = Suc (unat (ws_generation (wl_client l)))"
proof -
  have "unat (ws_generation (wl_client l)) + 1 < 2 ^ 64" using inv room by (simp add: loop_inv_def)
  then show u: "unat (ws_generation c) = Suc (unat (ws_generation (wl_client l)))"
    using c by (simp add: unat_word_ariths)
  from inv obtain gs where gs: "sessions (wl_log l) = map (\<lambda>k. ''sess-'' @ show_nat k) gs" "sorted gs" "distinct gs"
    "\<forall>k \<in> set gs. g < k \<and> k \<le> unat (ws_generation (wl_client l))" by (auto simp: loop_inv_def)
  with inv u show "loop_inv g (Suc n) (l\<lparr>wl_client := c\<rparr>)"
    by (auto simp: loop_inv_def intro!: exI [of _ gs])
qed

lemma session_inv:
  assumes inv: "loop_inv g n l" and room: "g + Suc n < 2 ^ 64" and c: "ws_generation c = ws_generation (wl_client l) + 1"
  shows "loop_inv g (Suc n) (snd (run_session a (l\<lparr>wl_client := c\<rparr>)))"
proof -
  let ?k = "unat (ws_generation c)"
  note d = dial_inv [OF inv room c]
  let ?l = "wl_note (WsState LinkConnecting) (wl_note (WsSession (sess_id (ws_generation c))) (wl_note (WsState LinkConnected) (l\<lparr>wl_client := c\<rparr>)))"
  from inv obtain gs where gs: "sessions (wl_log l) = map (\<lambda>k. ''sess-'' @ show_nat k) gs" "sorted gs" "distinct gs"
    "\<forall>k \<in> set gs. g < k \<and> k \<le> unat (ws_generation (wl_client l))" by (auto simp: loop_inv_def)
  have b: "g \<le> unat (ws_generation (wl_client l))" "unat (ws_generation (wl_client l)) \<le> g + n"
    using inv by (simp_all add: loop_inv_def)
  have "sorted (gs @ [?k])" "distinct (gs @ [?k])" "\<forall>k \<in> set (gs @ [?k]). g < k \<and> k \<le> ?k"
    "sessions (wl_log ?l) = map (\<lambda>k. ''sess-'' @ show_nat k) (gs @ [?k])"
    using gs d(2) b by (auto simp: sorted_append wl_note_def sess_id_def)
  then have "loop_inv g (Suc n) ?l"
    unfolding loop_inv_def using b d(2) by (intro conjI exI [of _ "gs @ [?k]"]) (auto simp: wl_note_def)
  then have l2: "loop_inv g (Suc n) (?l\<lparr>wl_client := c\<lparr>ws_conn := None\<rparr>\<rparr>)"
    by (rule client_inv) (simp add: wl_note_def)
  then have "loop_inv g (Suc n) (?l\<lparr>wl_client := c\<lparr>ws_conn := None\<rparr>, wl_backoff := initialBackoff\<rparr>)"
    by (simp add: loop_inv_def)
  with wait_inv [OF l2] show ?thesis by (simp add: run_session_def Let_def)
qed

lemma step_inv:
  assumes inv: "loop_inv g n l" and room: "g + Suc n < 2 ^ 64"
  shows "loop_inv g (Suc n) (snd (reconnect_step a l))"
proof -
  have up: "loop_inv g n l' \<Longrightarrow> loop_inv g (Suc n) l'" for l' by (auto simp: loop_inv_def)
  let ?c = "(wl_client l)\<lparr>ws_conn := Some (ws_generation (wl_client l) + 1), ws_generation := ws_generation (wl_client l) + 1,
      ws_cancel := Some (ws_generation (wl_client l) + 1)\<rparr>"
  have d: "loop_inv g (Suc n) (l\<lparr>wl_client := snd (ws_Close None ?c)\<rparr>)"
    using dial_inv(1) [OF inv room, of "snd (ws_Close None ?c)"] by (simp add: ws_Close_def)
  have s: "loop_inv g (Suc n) (snd (run_session a (l\<lparr>wl_client := ?c\<rparr>)))"
    by (rule session_inv [OF inv room]) simp
  show ?thesis
    using up [OF inv] up [OF wait_inv [OF inv]] wait_inv [OF d] d s
    by (auto simp: reconnect_step_def Let_def split: tls_setup.splits handshake_result.splits)
qed

lemma loop_keeps:
  "loop_inv g n l \<Longrightarrow> g + n + length as < 2 ^ 64 \<Longrightarrow> loop_inv g (n + length as) (snd (reconnect_loop as l))"
proof (induction as arbitrary: n l)
  case (Cons a as)
  obtain r l' where s: "reconnect_step a l = (r, l')" by (cases "reconnect_step a l")
  have inv: "loop_inv g (Suc n) l'" using step_inv [of g n l a] Cons.prems s by simp
  show ?case
  proof (cases r)
    case Running
    with Cons.IH [OF inv] Cons.prems s show ?thesis by simp
  next
    case (Returned e)
    with inv s show ?thesis by (auto simp: loop_inv_def)
  qed
qed simp

text \<open>One attempt is fatal, fails for now, or becomes a session; the configuration stays.\<close>

lemma dial_tls_spec:
  "dial_tls fe t =
     (if ca_invalid fe t then TlsFatal (EMsg ''ws: fatal: failed to parse any valid certificates from CA file'')
      else if ca_readable fe t \<and> half_a_pair t then TlsFatal (EMsg ''ws: fatal: incomplete client certificate configuration'')
      else if tls_usable fe t then TlsReady else TlsRetry)"
  by (auto simp: dial_tls_def ca_invalid_def ca_readable_def half_a_pair_def tls_usable_def Let_def split: sum.splits)

lemma handshake_spec:
  "fst (performConnectHandshake cfg params sd wm) =
     (if blank_serial params then HandshakeRejected
      else if \<not> isl params \<and> sd = None \<and> wm = None then HandshakeAccepted else HandshakeRetryableFailure)"
  by (auto simp: performConnectHandshake_def blank_serial_def Let_def split: sum.splits)

lemma ws_Close_config: "ws_config (snd (ws_Close e c)) = ws_config c"
  by (simp add: ws_Close_def)

lemma reconnect_step_cases:
  assumes "\<not> wa_ctxDone a"
  shows "fatal_fault (ws_config (wl_client l)) a = Some e \<Longrightarrow>
           fst (reconnect_step a l) = Returned (Some e) \<and> wl_log (snd (reconnect_step a l)) = wl_log l"
    and "fatal_fault (ws_config (wl_client l)) a = None \<Longrightarrow> \<not> becomes_session (ws_config (wl_client l)) a \<Longrightarrow>
           \<exists>c. ws_config c = ws_config (wl_client l) \<and> reconnect_step a l = waitForRetry a (l\<lparr>wl_client := c\<rparr>)"
    and "becomes_session (ws_config (wl_client l)) a \<Longrightarrow>
           \<exists>c. ws_config c = ws_config (wl_client l) \<and> reconnect_step a l = run_session a (l\<lparr>wl_client := c\<rparr>)"
proof -
  note defs = reconnect_step_def dial_tls_spec handshake_spec fatal_fault_def becomes_session_def Let_def
  show "fatal_fault (ws_config (wl_client l)) a = Some e \<Longrightarrow>
      fst (reconnect_step a l) = Returned (Some e) \<and> wl_log (snd (reconnect_step a l)) = wl_log l"
    using assms by (auto simp: defs split: if_splits)
  show "\<exists>c. ws_config c = ws_config (wl_client l) \<and> reconnect_step a l = waitForRetry a (l\<lparr>wl_client := c\<rparr>)"
    if "fatal_fault (ws_config (wl_client l)) a = None" "\<not> becomes_session (ws_config (wl_client l)) a"
  proof (cases "tls_usable (wa_files a) (cc_TLS (ws_config (wl_client l))) \<and> wa_dial a = None")
    case False
    with that assms show ?thesis by (intro exI [of _ "wl_client l"]) (auto simp: defs split: if_splits)
  next
    case True
    let ?g = "ws_generation (wl_client l) + 1"
    from True that assms show ?thesis
      by (intro exI [of _ "snd (ws_Close None ((wl_client l)\<lparr>ws_conn := Some ?g, ws_generation := ?g, ws_cancel := Some ?g\<rparr>))"])
        (auto simp: defs ws_Close_config split: if_splits)
  qed
  show "\<exists>c. ws_config c = ws_config (wl_client l) \<and> reconnect_step a l = run_session a (l\<lparr>wl_client := c\<rparr>)"
    if "becomes_session (ws_config (wl_client l)) a"
    using that assms
    by (auto simp: defs tls_usable_def intro!: exI [of _ "(wl_client l)\<lparr>ws_conn := Some (ws_generation (wl_client l) + 1),
        ws_generation := ws_generation (wl_client l) + 1, ws_cancel := Some (ws_generation (wl_client l) + 1)\<rparr>"])
qed

text \<open>The back-off after \<open>k\<close> pauses in a row.\<close>

definition backoff_after :: "nat \<Rightarrow> duration" where
  "backoff_after k = min (2 * Second * 2 ^ k) maxBackoff"

lemma backoff_after_simps: "backoff_after 0 = initialBackoff" "backoff_after (Suc k) = min (2 * backoff_after k) maxBackoff"
  by (auto simp: backoff_after_def min_def)

lemma pause_in_range:
  "jitter_ok a \<Longrightarrow> pause_ok k (min (initialBackoff + wa_jitter a (backoff_after k)) maxBackoff)"
proof -
  assume "jitter_ok a"
  moreover have "0 \<le> backoff_after k" "backoff_after k \<le> 2 * Second * 2 ^ k" by (simp_all add: backoff_after_def)
  ultimately have "0 \<le> wa_jitter a (backoff_after k)" "wa_jitter a (backoff_after k) \<le> 2 * Second * 2 ^ k"
    by (auto simp: jitter_ok_def intro: order_trans)
  then show ?thesis by (auto simp: pause_ok_def min_def)
qed

text \<open>What the loop does with the attempts \<open>as\<close>, from any state with \<open>k\<close> pauses in a row.\<close>

definition loop_paced :: "attempt list \<Rightarrow> bool" where
  "loop_paced as \<longleftrightarrow> (\<forall>k l r l'. wl_backoff l = backoff_after k \<longrightarrow> reconnect_loop as l = (r, l') \<longrightarrow>
     (\<exists>evs. wl_log l' = wl_log l @ evs \<and> paced (ws_config (wl_client l)) k as evs r))"

lemma loop_pacedD:
  "loop_paced as \<Longrightarrow> reconnect_loop as l = (r, l') \<Longrightarrow> wl_backoff l = backoff_after k \<Longrightarrow>
     \<exists>evs. wl_log l' = wl_log l @ evs \<and> paced (ws_config (wl_client l)) k as evs r"
  unfolding loop_paced_def by blast

lemma pause_then_loop:
  assumes "loop_paced as" and k: "wl_backoff l = backoff_after k" and j: "jitter_ok a"
    and run: "(case waitForRetry a l of (Returned x, l1) \<Rightarrow> (Returned x, l1) | (Running, l1) \<Rightarrow> reconnect_loop as l1) = (r, l')"
  shows "\<exists>evs. wl_log l' = wl_log l @ evs \<and> pausing (ws_config (wl_client l)) k a as evs r"
proof (cases "wa_waitCanceled a")
  case True
  with run k pause_cancelled [OF True pause_in_range [OF j]] show ?thesis
    by (auto simp: waitForRetry_def wl_note_def Let_def)
next
  case False
  let ?d = "min (initialBackoff + wa_jitter a (backoff_after k)) maxBackoff"
  let ?l = "(wl_note (WsWait ?d) l)\<lparr>wl_backoff := backoff_after (Suc k)\<rparr>"
  from run False k have "reconnect_loop as ?l = (r, l')"
    by (simp add: waitForRetry_def Let_def backoff_after_simps(2) wl_note_def)
  from loop_pacedD [OF assms(1) this, of "Suc k"] obtain evs where
    "wl_log l' = wl_log ?l @ evs" "paced (ws_config (wl_client ?l)) (Suc k) as evs r" by auto
  with pause_over [OF False pause_in_range [OF j]] show ?thesis by (auto simp: wl_note_def)
qed

lemma session_then_loop:
  assumes lp: "loop_paced as" and k: "wl_backoff l = backoff_after k" and j: "jitter_ok a"
    and b: "\<not> wa_ctxDone a" "becomes_session (ws_config (wl_client l)) a"
    and run: "(case run_session a l of (Returned x, l1) \<Rightarrow> (Returned x, l1) | (Running, l1) \<Rightarrow> reconnect_loop as l1) = (r, l')"
  shows "\<exists>evs. wl_log l' = wl_log l @ evs \<and> paced (ws_config (wl_client l)) k (a # as) evs r"
proof -
  let ?sid = "sess_id (ws_generation (wl_client l))"
  let ?l = "l\<lparr>wl_log := wl_log l @ [WsState LinkConnected, WsSession ?sid, WsState LinkConnecting],
      wl_client := (wl_client l)\<lparr>ws_conn := None\<rparr>\<rparr>"
  have l: "wl_backoff ?l = backoff_after k" "ws_config (wl_client ?l) = ws_config (wl_client l)" using k by simp_all
  show ?thesis
  proof (cases "stable_threshold (ws_config (wl_client l)) < wa_duration a")
    case True
    with run have "reconnect_loop as (?l\<lparr>wl_backoff := initialBackoff\<rparr>) = (r, l')"
      by (simp add: run_session_def wl_note_def Let_def)
    from loop_pacedD [OF lp this, of 0] obtain evs where
      "wl_log l' = wl_log ?l @ evs" "paced (ws_config (wl_client l)) 0 as evs r" by (auto simp: backoff_after_simps(1))
    with paced_stable [OF b True] show ?thesis by auto
  next
    case False
    with run have "(case waitForRetry a ?l of (Returned x, l1) \<Rightarrow> (Returned x, l1) | (Running, l1) \<Rightarrow> reconnect_loop as l1) = (r, l')"
      by (simp add: run_session_def wl_note_def Let_def)
    from pause_then_loop [OF lp l(1) j this] l(2) obtain evs where
      "wl_log l' = wl_log ?l @ evs" "pausing (ws_config (wl_client l)) k a as evs r" by auto
    with paced_unstable [OF b _ this(2)] False show ?thesis by auto
  qed
qed

lemma loop_is_paced: "list_all jitter_ok as \<Longrightarrow> loop_paced as"
proof (induction as)
  case Nil
  then show ?case by (auto simp: loop_paced_def intro: paced_open)
next
  case (Cons a as)
  then have lp: "loop_paced as" and j: "jitter_ok a" by simp_all
  have "\<exists>evs. wl_log l' = wl_log l @ evs \<and> paced (ws_config (wl_client l)) k (a # as) evs r"
    if k: "wl_backoff l = backoff_after k" and run: "reconnect_loop (a # as) l = (r, l')" for k l r l'
  proof (cases "wa_ctxDone a")
    case True
    with run paced_cancelled [OF True] show ?thesis by (auto simp: reconnect_step_def)
  next
    case nd: False
    let ?cfg = "ws_config (wl_client l)"
    consider (fatal) e where "fatal_fault ?cfg a = Some e" | (session) "becomes_session ?cfg a"
      | (failed) "fatal_fault ?cfg a = None" "\<not> becomes_session ?cfg a" by (cases "fatal_fault ?cfg a") auto
    then show ?thesis
    proof cases
      case fatal
      with run reconnect_step_cases(1) [OF nd fatal] paced_fatal [OF nd fatal] show ?thesis
        by (cases "reconnect_step a l") auto
    next
      case session
      from reconnect_step_cases(3) [OF nd session] obtain c where
        c: "ws_config c = ?cfg" "reconnect_step a l = run_session a (l\<lparr>wl_client := c\<rparr>)" by blast
      from session_then_loop [OF lp _ j nd, of "l\<lparr>wl_client := c\<rparr>" k r l'] c session k run show ?thesis by simp
    next
      case failed
      from reconnect_step_cases(2) [OF nd failed] obtain c where
        c: "ws_config c = ?cfg" "reconnect_step a l = waitForRetry a (l\<lparr>wl_client := c\<rparr>)" by blast
      from pause_then_loop [OF lp _ j, of "l\<lparr>wl_client := c\<rparr>" k r l'] c k run
      have "\<exists>evs. wl_log l' = wl_log l @ evs \<and> pausing ?cfg k a as evs r" by simp
      with paced_failed [OF nd failed] show ?thesis by blast
    qed
  qed
  then show ?case unfolding loop_paced_def by blast
qed

text \<open>C18: the connection is retried forever at a bounded pace. Over any number of attempts and whatever
  the files, the network and the cloud do, the loop first reports the link as connecting and then
  does exactly what \<open>paced\<close> allows. After every failed attempt (an unreadable file, a failed dial, a
  handshake that could not be sent) and after every session that was not stable it waits before it
  dials again, at least 2 and at most 60 seconds, and at most \<open>2 + 2 * 2 ^ k\<close> seconds after \<open>k\<close> waits in
  a row. After a session longer than the threshold it dials again without a wait and the back-off
  starts over. Once the connect request is written the link is reported connected, and connecting
  when the session has ended. The loop gives up only when it is cancelled, on an unusable TLS
  configuration and on an empty serial, and then may be started again. Every session gets a new
  identifier.\<close>

theorem reconnect_is_paced:
  assumes run: "ReconnectLoop True as c = (r, c', evs)" and idle: "\<not> ws_running c"
    and jitter: "list_all jitter_ok as" and room: "unat (ws_generation c) + length as < 2 ^ 64"
  shows "(\<exists>evs'. evs = WsState LinkConnecting # evs' \<and> paced (ws_config c) 0 as evs' r)
     \<and> distinct (sessions evs) \<and> (r \<noteq> Running \<longrightarrow> \<not> ws_running c')"
proof -
  let ?l = "\<lparr>wl_backoff = initialBackoff, wl_client = c\<lparr>ws_running := True\<rparr>, wl_log = [WsState LinkConnecting]\<rparr>"
  obtain r' l where l: "reconnect_loop as ?l = (r', l)" by (cases "reconnect_loop as ?l")
  have "loop_inv (unat (ws_generation c)) 0 ?l"
    by (auto simp: loop_inv_def sessions_simps intro!: exI [of _ "[]"])
  from loop_keeps [OF this, of as] room l have inv: "loop_inv (unat (ws_generation c)) (length as) l" by simp
  have ev: "evs = wl_log l" "r = r'" "r \<noteq> Running \<longrightarrow> \<not> ws_running c'"
    using run idle l by (auto simp: ReconnectLoop_def split: loop_end.splits)
  have "distinct (sessions (wl_log l))"
    using inv by (auto simp: loop_inv_def distinct_map inj_on_def)
  moreover obtain evs' where "wl_log l = WsState LinkConnecting # evs'" "paced (ws_config c) 0 as evs' r'"
    using loop_pacedD [OF loop_is_paced [OF jitter] l, of 0] by (auto simp: backoff_after_simps(1))
  ultimately show ?thesis using ev by blast
qed

definition demo_attempt :: attempt where
  "demo_attempt = \<lparr>wa_ctxDone = False, wa_files = demo_files, wa_dial = None,
     wa_params = Inr \<lparr>cn_Serial = ''s'', cn_UUID = 0, cn_Firmware = ''1.0.0'', cn_Capabilities = None\<rparr>,
     wa_setDeadline = None, wa_writeMessage = None, wa_duration = Second, wa_jitter = (\<lambda>b. b), wa_waitCanceled = False\<rparr>"

definition demo_ws :: ws_client where
  "demo_ws = \<lparr>ws_running = False, ws_conn = None, ws_generation = 0, ws_cancel = None,
     ws_config = (cf_Cloud demo_config)\<lparr>cc_TLS := \<lparr>tc_CAFile = [], tc_ClientCertFile = [], tc_ClientKeyFile = [], tc_ServerName = []\<rparr>\<rparr>,
     ws_pendingMsg = None\<rparr>"

theorem reconnect_is_paced_witness:
  "let as = [demo_attempt, demo_attempt\<lparr>wa_dial := Some (EMsg ''refused'')\<rparr>, demo_attempt\<lparr>wa_duration := 61 * Second\<rparr>];
       evs = snd (snd (ReconnectLoop True as demo_ws))
   in sessions evs = [''sess-1'', ''sess-2''] \<and> distinct (sessions evs)
     \<and> (\<exists>evs'. evs = WsState LinkConnecting # evs' \<and> paced (ws_config demo_ws) 0 as evs' Running)"
proof -
  let ?as = "[demo_attempt, demo_attempt\<lparr>wa_dial := Some (EMsg ''refused'')\<rparr>, demo_attempt\<lparr>wa_duration := 61 * Second\<rparr>]"
  obtain r c' evs where e: "ReconnectLoop True ?as demo_ws = (r, c', evs)" by (metis prod_cases3)
  have "list_all jitter_ok ?as" by (simp add: jitter_ok_def demo_attempt_def)
  from reconnect_is_paced [OF e _ this] have p: "distinct (sessions evs)"
    "\<exists>evs'. evs = WsState LinkConnecting # evs' \<and> paced (ws_config demo_ws) 0 ?as evs' r" by (simp_all add: demo_ws_def)
  have "fst (ReconnectLoop True ?as demo_ws) = Running" by code_simp
  moreover have "sessions (snd (snd (ReconnectLoop True ?as demo_ws))) = [''sess-1'', ''sess-2'']" by code_simp
  ultimately have "r = Running" "sessions evs = [''sess-1'', ''sess-2'']" using e by simp_all
  with p e show ?thesis by (simp add: Let_def)
qed

section \<open>Properties of the reader loop\<close>

text \<open>The reader loop with the command handler; the state keeps the jobs started so far and counts the
  frames, \<open>clk\<close> gives the clock and the fresh identifier for each.\<close>

definition cloud_handler ::
  "contracts_env \<Rightarrow> (go_error \<Rightarrow> bytes) \<Rightarrow> handler_config \<Rightarrow> (nat \<Rightarrow> instant \<times> string) \<Rightarrow> inbound_frame
     \<Rightarrow> 'h frame_handler \<times> job list \<times> nat
     \<Rightarrow> ((frame_disposition \<times> go_error option) \<times> 'h frame_handler \<times> job list \<times> nat) go" where
  "cloud_handler env err_text hc clk fr st =
     (case st of (h, jobs, n) \<Rightarrow>
      case HandleFrame env err_text hc (fst (clk n)) (snd (clk n)) fr h of
        Panic \<Rightarrow> Panic
      | Ret (d, js, h') \<Rightarrow> Ret ((d, None), (h', jobs @ js, Suc n)))"

definition job_ok :: "contracts_env \<Rightarrow> job \<Rightarrow> bool" where
  "job_ok env j \<longleftrightarrow> ValidCommandAction (jb_command j) (jb_action j)
     \<and> validate_params env (jb_command j) (jb_action j) (jb_params j) = Inr (jb_uuid j)"

lemma admitted_job_ok: "admitted env hc now rpcID frame h j h1 \<Longrightarrow> job_ok env j"
  by (erule admittedE) (simp add: job_ok_def getCommandAction_valid)

lemma cloud_handler_steps:
  "\<exists>d h' js. cloud_handler env err_text hc clk fr (h, jobs, n) = Ret ((d, None), (h', jobs @ js, Suc n))
     \<and> d \<noteq> FrameFatalCloseConnection \<and> length js \<le> 1 \<and> list_all (job_ok env) js"
  using HandleFrame_handled [of env hc "fst (clk n)" "snd (clk n)" fr h err_text] admitted_job_ok
  by (fastforce simp: handled_ok_def cloud_handler_def)

text \<open>What ends a session, for one read and the limit on the size of a message: a done context, an error of
  the socket, a message longer than the limit, or a message whose content cannot be read to its
  end.\<close>

definition session_end :: "int \<Rightarrow> go_error option \<times> socket_read \<Rightarrow> go_error option" where
  "session_end limit rd =
     (case rd of (Some e, _) \<Rightarrow> Some e
      | (None, SockError e) \<Rightarrow> Some e
      | (None, SockMessage t (data, e)) \<Rightarrow>
          if limit < int (length data) then Some (EMsg ''decompressed websocket message exceeds limit'')
          else map_option (EWrap ''failed to read decompressed frame'') e)"

lemma max_frame_size_pos: "0 < max_frame_size cfg"
  by (simp add: max_frame_size_def)

lemma read_frame_spec:
  assumes "max_frame_size cfg < 2 ^ 63 - 1"
  shows "read_frame cfg r = (case session_end (max_frame_size cfg) (None, SockMessage t r) of Some e \<Rightarrow> Inl e | None \<Rightarrow> Inr (fst r))"
proof -
  have "wrap64 (max_frame_size cfg + 1) = max_frame_size cfg + 1"
    using assms max_frame_size_pos [of cfg] by (simp add: wrap64_def)
  then show ?thesis using max_frame_size_pos [of cfg]
    by (cases r) (auto simp: read_frame_def session_end_def ReadAll_def LimitReader_def split: option.splits)
qed

lemma reader_runs:
  assumes "max_frame_size cfg < 2 ^ 63 - 1"
  shows "\<exists>h' js m. reader_loop cfg sess (cloud_handler env err_text hc clk) 0 rds (h, jobs, n) =
       Ret (case find (\<lambda>rd. session_end (max_frame_size cfg) rd \<noteq> None) rds of None \<Rightarrow> None | Some rd \<Rightarrow> session_end (max_frame_size cfg) rd,
            (h', jobs @ js, n + m))
     \<and> m = length (takeWhile (\<lambda>rd. session_end (max_frame_size cfg) rd = None) rds) \<and> length js \<le> m \<and> list_all (job_ok env) js"
proof (induction rds arbitrary: h jobs n)
  case (Cons rd rds)
  note rf = read_frame_spec [OF assms]
  obtain x y where rd: "rd = (x, y)" by fastforce
  show ?case
  proof (cases "session_end (max_frame_size cfg) rd")
    case (Some e)
    with rd rf show ?thesis
      by (cases x; cases y) (auto simp: session_end_def)
  next
    case None
    then obtain t r where r: "rd = (None, SockMessage t r)"
      by (cases x; cases y) (auto simp: rd session_end_def)
    with None rf [of r t] have p: "read_frame cfg r = Inr (fst r)" by simp
    obtain d h1 js1 where c: "cloud_handler env err_text hc clk \<lparr>if_SessionID = sess, if_Type = t, if_Payload = fst r\<rparr> (h, jobs, n) =
        Ret ((d, None), (h1, jobs @ js1, Suc n))" "d \<noteq> FrameFatalCloseConnection" "length js1 \<le> 1" "list_all (job_ok env) js1"
      using cloud_handler_steps by blast
    from Cons.IH [of h1 "jobs @ js1" "Suc n"] c r p None show ?thesis by fastforce
  qed
qed simp

text \<open>C19: nothing the cloud writes into its messages ends a session or crashes the client. The reader
  loop with the command handler processes every frame up to the first read that meets a done
  context, an error of the socket, a message longer than the frame limit or one that cannot be read
  to its end; it ends with that error, or is still running. Frames within the limit, valid or
  garbage, never end it. The jobs it started, at most one per frame processed, all carry a
  permitted command with validated parameters.\<close>

theorem frame_content_never_ends_session:
  assumes "cc_MaxFrameSizeBytes (ws_config c) < 2 ^ 63 - 1"
  shows "\<exists>h' js m. startReaderLoop (cloud_handler env err_text hc clk) rds c (h, [], 0) =
       Ret (case find (\<lambda>rd. session_end (max_frame_size (ws_config c)) rd \<noteq> None) rds of
              None \<Rightarrow> None | Some rd \<Rightarrow> session_end (max_frame_size (ws_config c)) rd, (h', js, m))
     \<and> m = length (takeWhile (\<lambda>rd. session_end (max_frame_size (ws_config c)) rd = None) rds)
     \<and> length js \<le> m \<and> list_all (job_ok env) js"
proof -
  have "max_frame_size (ws_config c) < 2 ^ 63 - 1" using assms by (simp add: max_frame_size_def)
  from reader_runs [OF this, of "sess_id (ws_generation c)" env err_text hc clk rds h "[]" 0] show ?thesis
    unfolding startReaderLoop_def by (simp only: append_Nil add_0)
qed

theorem frame_content_never_ends_session_witness:
  "\<exists>h' js. startReaderLoop (cloud_handler demo_env (\<lambda>_. []) demo_hc (\<lambda>n. (int n, show_nat n)))
       [(None, SockMessage 1 (''{garbage'', None)), (None, SockMessage 1 (demo_ping, None)), (None, SockError (EMsg ''EOF''))]
       demo_ws (demo_handler, [], 0) =
     Ret (Some (EMsg ''EOF''), (h', js, 2)) \<and> length js \<le> 2"
proof -
  let ?rds = "[(None, SockMessage 1 (''{garbage'', None)), (None, SockMessage 1 (demo_ping, None)), (None, SockError (EMsg ''EOF''))]"
  have c: "cc_MaxFrameSizeBytes (ws_config demo_ws) = 0" by (simp add: demo_ws_def demo_config_def)
  then have l: "cc_MaxFrameSizeBytes (ws_config demo_ws) < 2 ^ 63 - 1" by simp
  have f: "map (session_end (max_frame_size (ws_config demo_ws))) ?rds = [None, None, Some (EMsg ''EOF'')]"
    using c by (simp add: session_end_def max_frame_size_def demo_ping_def quoted_def)
  then show ?thesis
    using frame_content_never_ends_session [OF l, of demo_env "\<lambda>_. []" demo_hc "\<lambda>n. (int n, show_nat n)" ?rds demo_handler]
    by (force simp: numeral_2_eq_2)
qed

end
