(* ===== verification/Ws_Writer.thy ===== *)
theory Ws_Writer
  imports Ws_Client
begin

text \<open>
  The writer loop of \<open>src/pkg/websocket/client.go\<close>: the goroutine that fetches messages from the
  scheduler and hands them to the writer over an unbuffered channel, the acknowledgement channel
  back, and the message that is retained across sessions in \<open>pendingMsg\<close>. Fetcher and writer are
  interleaved with each other, with the loss of the connection and with the next session, whose
  start does not wait for the fetcher of the last one.
\<close>

section \<open>The pieces of the code\<close>

text \<open>Where a fetcher is: before it looks at \<open>pendingMsg\<close>, offering the retained message, waiting for the
  acknowledgement, in \<open>scheduler.Next\<close>, offering a message or an error of it, ended.\<close>

datatype fetch_pc = FStart | FOfferPending outbound_message | FAck | FNext | FOffer outbound_message | FOfferErr go_error | FEnd

datatype writer_pc = WSelect | WGot outbound_message | WAck | WEnd

definition take_pending :: "outbound_message option \<Rightarrow> fetch_pc \<times> outbound_message option" where
  "take_pending p = (case p of None \<Rightarrow> (FNext, None) | Some msg \<Rightarrow> (FOfferPending msg, None))"

definition put_back :: "outbound_message \<Rightarrow> outbound_message option \<Rightarrow> outbound_message option" where
  "put_back msg p = (if p = None then Some msg else p)"

definition retain_message :: "outbound_message \<Rightarrow> outbound_message option \<Rightarrow> outbound_message option" where
  "retain_message msg p = (if om_Priority msg \<noteq> PriorityHighest then put_back msg p else p)"

text \<open>The call of \<open>scheduler.Next\<close>, when it does not wait.\<close>

definition fetch_next :: "bool \<Rightarrow> priority_scheduler \<Rightarrow> (fetch_pc \<times> priority_scheduler) option" where
  "fetch_next ctxDone s =
     (case sched_Next (if ctxDone then Some ErrCanceled else None) s of
        (Blocked, s') \<Rightarrow> None
      | (Done (Inr msg), s') \<Rightarrow> Some (FOffer msg, s')
      | (Done (Inl e), s') \<Rightarrow> Some (FOfferErr e, s'))"

definition stale :: "string \<Rightarrow> outbound_message \<Rightarrow> bool" where
  "stale sessID msg \<longleftrightarrow> om_Priority msg = PriorityHighest \<and> om_SessionID msg \<noteq> sessID"

text \<open>The writer on a message: a response of an earlier session is discarded, otherwise the result of the
  write decides. The outcome is the next state, the retained message and what was written.\<close>

definition write_message ::
  "string \<Rightarrow> outbound_message \<Rightarrow> go_error option \<Rightarrow> outbound_message option
     \<Rightarrow> writer_pc \<times> outbound_message option \<times> outbound_message list" where
  "write_message sessID msg writeErr p =
     (if stale sessID msg then (WAck, p, [])
      else case writeErr of
        None \<Rightarrow> (WAck, p, [msg])
      | Some e \<Rightarrow> (WEnd, retain_message msg p, []))"

section \<open>The interleaved system\<close>

record ws_session =
  se_id :: string
  se_done :: bool
  se_fetch :: fetch_pc

text \<open>The current session is the last. The last three fields only record: the messages that left the
  scheduler, those written with the session that wrote them, and those that could not be retained
  because another message was.\<close>

record writer_sys =
  wr_sched :: priority_scheduler
  wr_pending :: "outbound_message option"
  wr_old :: "ws_session list"
  wr_cur :: ws_session
  wr_writer :: writer_pc
  wr_taken :: "outbound_message list"
  wr_written :: "(string \<times> outbound_message) list"
  wr_lost :: "outbound_message list"

definition collide :: "outbound_message \<Rightarrow> outbound_message option \<Rightarrow> outbound_message list" where
  "collide msg p = (if p \<noteq> None \<and> om_Priority msg \<noteq> PriorityHighest then [msg] else [])"

text \<open>What one fetcher does alone, in the current session or in an earlier one.\<close>

inductive fetch_step :: "writer_sys \<Rightarrow> ws_session \<Rightarrow> writer_sys \<Rightarrow> ws_session \<Rightarrow> bool" where
  start: "se_fetch f = FStart \<Longrightarrow> take_pending (wr_pending s) = (pc, p) \<Longrightarrow>
     fetch_step s f (s\<lparr>wr_pending := p\<rparr>) (f\<lparr>se_fetch := pc\<rparr>)"
| putback: "se_fetch f = FOfferPending msg \<Longrightarrow> se_done f \<Longrightarrow>
     fetch_step s f (s\<lparr>wr_pending := put_back msg (wr_pending s), wr_lost := wr_lost s @ collide msg (wr_pending s)\<rparr>)
       (f\<lparr>se_fetch := FEnd\<rparr>)"
| next_msg: "se_fetch f = FNext \<Longrightarrow> fetch_next (se_done f) (wr_sched s) = Some (pc, sch) \<Longrightarrow>
     fetch_step s f (s\<lparr>wr_sched := sch, wr_taken := wr_taken s @ (case pc of FOffer msg \<Rightarrow> [msg] | _ \<Rightarrow> [])\<rparr>) (f\<lparr>se_fetch := pc\<rparr>)"
| retain: "se_fetch f = FOffer msg \<Longrightarrow> se_done f \<Longrightarrow>
     fetch_step s f (s\<lparr>wr_pending := retain_message msg (wr_pending s), wr_lost := wr_lost s @ collide msg (wr_pending s)\<rparr>)
       (f\<lparr>se_fetch := FEnd\<rparr>)"
| ack_done: "se_fetch f = FAck \<Longrightarrow> se_done f \<Longrightarrow> fetch_step s f s (f\<lparr>se_fetch := FEnd\<rparr>)"
| err_done: "se_fetch f = FOfferErr e \<Longrightarrow> se_done f \<Longrightarrow> fetch_step s f s (f\<lparr>se_fetch := FEnd\<rparr>)"

text \<open>The steps of the system. With \<open>overlap\<close> a new session can start while a fetcher of an earlier one has
  not ended yet, as the code allows.\<close>

inductive writer_step :: "bool \<Rightarrow> writer_sys \<Rightarrow> writer_sys \<Rightarrow> bool" for overlap where
  push: "sched_Push msg (wr_sched s) = Inr sch \<Longrightarrow> writer_step overlap s (s\<lparr>wr_sched := sch\<rparr>)"
| cancel: "writer_step overlap s (s\<lparr>wr_cur := (wr_cur s)\<lparr>se_done := True\<rparr>\<rparr>)"
| fetch: "fetch_step s (wr_cur s) s' f \<Longrightarrow> writer_step overlap s (s'\<lparr>wr_cur := f\<rparr>)"
| fetch_old: "i < length (wr_old s) \<Longrightarrow> fetch_step s (wr_old s ! i) s' f \<Longrightarrow>
     writer_step overlap s (s'\<lparr>wr_old := (wr_old s)[i := f]\<rparr>)"
| hand_over: "se_fetch (wr_cur s) = FOfferPending msg \<or> se_fetch (wr_cur s) = FOffer msg \<Longrightarrow> wr_writer s = WSelect \<Longrightarrow>
     writer_step overlap s (s\<lparr>wr_cur := (wr_cur s)\<lparr>se_fetch := FAck\<rparr>, wr_writer := WGot msg\<rparr>)"
| hand_error: "se_fetch (wr_cur s) = FOfferErr e \<Longrightarrow> wr_writer s = WSelect \<Longrightarrow>
     writer_step overlap s (s\<lparr>wr_cur := (wr_cur s)\<lparr>se_fetch := FEnd, se_done := True\<rparr>, wr_writer := WEnd\<rparr>)"
| ack: "se_fetch (wr_cur s) = FAck \<Longrightarrow> wr_writer s = WAck \<Longrightarrow>
     writer_step overlap s (s\<lparr>wr_cur := (wr_cur s)\<lparr>se_fetch := FNext\<rparr>, wr_writer := WSelect\<rparr>)"
| write_msg: "wr_writer s = WGot msg \<Longrightarrow> write_message (se_id (wr_cur s)) msg writeErr (wr_pending s) = (pc, p, ms) \<Longrightarrow>
     writer_step overlap s (s\<lparr>wr_writer := pc, wr_pending := p, wr_written := wr_written s @ map (Pair (se_id (wr_cur s))) ms,
       wr_lost := wr_lost s @ (if pc = WEnd then collide msg (wr_pending s) else []),
       wr_cur := (wr_cur s)\<lparr>se_done := se_done (wr_cur s) \<or> pc = WEnd\<rparr>\<rparr>)"
| ping_failed: "wr_writer s = WSelect \<Longrightarrow>
     writer_step overlap s (s\<lparr>wr_cur := (wr_cur s)\<lparr>se_done := True\<rparr>, wr_writer := WEnd\<rparr>)"
| writer_done: "wr_writer s = WSelect \<or> wr_writer s = WAck \<Longrightarrow> se_done (wr_cur s) \<Longrightarrow>
     writer_step overlap s (s\<lparr>wr_writer := WEnd\<rparr>)"
| new_session: "wr_writer s = WEnd \<Longrightarrow> se_done (wr_cur s) \<Longrightarrow>
     overlap \<or> (\<forall>f \<in> set (wr_cur s # wr_old s). se_fetch f = FEnd) \<Longrightarrow>
     writer_step overlap s (s\<lparr>wr_old := wr_old s @ [wr_cur s], wr_cur := \<lparr>se_id = sid, se_done = False, se_fetch = FStart\<rparr>, wr_writer := WSelect\<rparr>)"

definition writer_init :: "priority_scheduler \<Rightarrow> string \<Rightarrow> writer_sys" where
  "writer_init sch sid = \<lparr>wr_sched = sch, wr_pending = None, wr_old = [], wr_cur = \<lparr>se_id = sid, se_done = False, se_fetch = FStart\<rparr>,
     wr_writer = WSelect, wr_taken = [], wr_written = [], wr_lost = []\<rparr>"

inductive writer_reach :: "bool \<Rightarrow> writer_sys \<Rightarrow> bool" for overlap where
  init: "writer_reach overlap (writer_init sch sid)"
| step: "writer_reach overlap s \<Longrightarrow> writer_step overlap s s' \<Longrightarrow> writer_reach overlap s'"

inductive_cases fetch_stepE: "fetch_step s f s' f'"
inductive_cases writer_stepE: "writer_step overlap s s'"

section \<open>Exactly-once delivery\<close>

abbreviation lower :: "outbound_message list \<Rightarrow> outbound_message list" where
  "lower ms \<equiv> filter (\<lambda>m. om_Priority m \<noteq> PriorityHighest) ms"

definition plist :: "outbound_message option \<Rightarrow> outbound_message list" where
  "plist p = (case p of None \<Rightarrow> [] | Some m \<Rightarrow> [m])"

text \<open>The message that is on its way, and where the others are then.\<close>

definition on_way :: "fetch_pc \<Rightarrow> writer_pc \<Rightarrow> outbound_message option \<Rightarrow> outbound_message list" where
  "on_way f w p =
     (case (f, w) of
        (FOfferPending m, _) \<Rightarrow> [m]
      | (FOffer m, _) \<Rightarrow> [m]
      | (_, WGot m) \<Rightarrow> [m]
      | _ \<Rightarrow> plist p)"

definition slot_ok :: "fetch_pc \<Rightarrow> writer_pc \<Rightarrow> outbound_message option \<Rightarrow> bool" where
  "slot_ok f w p =
     (case f of
        FStart \<Rightarrow> w = WSelect \<or> w = WEnd
      | FOfferPending m \<Rightarrow> p = None \<and> (w = WSelect \<or> w = WEnd)
      | FOffer m \<Rightarrow> p = None \<and> (w = WSelect \<or> w = WEnd)
      | FNext \<Rightarrow> p = None \<and> (w = WSelect \<or> w = WEnd)
      | FOfferErr e \<Rightarrow> p = None \<and> (w = WSelect \<or> w = WEnd)
      | FAck \<Rightarrow> w \<noteq> WSelect \<and> (w = WEnd \<or> p = None)
      | FEnd \<Rightarrow> (\<forall>m. w = WGot m \<longrightarrow> p = None))"

definition quiet_inv :: "writer_sys \<Rightarrow> bool" where
  "quiet_inv s \<longleftrightarrow> (\<forall>f \<in> set (wr_old s). se_fetch f = FEnd) \<and> wr_lost s = []
     \<and> slot_ok (se_fetch (wr_cur s)) (wr_writer s) (wr_pending s)
     \<and> lower (wr_taken s) = lower (map snd (wr_written s)) @ lower (on_way (se_fetch (wr_cur s)) (wr_writer s) (wr_pending s))
     \<and> lower (plist (wr_pending s)) = plist (wr_pending s)
     \<and> (\<forall>m. se_fetch (wr_cur s) = FOfferPending m \<longrightarrow> om_Priority m \<noteq> PriorityHighest)"

lemma quiet_init: "quiet_inv (writer_init sch sid)"
  by (simp add: quiet_inv_def writer_init_def slot_ok_def on_way_def plist_def)

lemma fetch_ended: "fetch_step s f s' f' \<Longrightarrow> se_fetch f \<noteq> FEnd"
  by (auto elim: fetch_stepE)

lemmas slot_defs = slot_ok_def on_way_def plist_def put_back_def retain_message_def collide_def take_pending_def

lemma quiet_fetch:
  assumes "fetch_step s (wr_cur s) s' f" and "quiet_inv s"
  shows "quiet_inv (s'\<lparr>wr_cur := f\<rparr>)"
  using assms(1)
proof (cases rule: fetch_step.cases)
  case (start pc p)
  then show ?thesis using assms(2)
    by (cases "wr_pending s"; cases "wr_writer s") (auto simp: quiet_inv_def slot_defs split: if_splits)
next
  case (putback msg)
  then show ?thesis using assms(2) by (auto simp: quiet_inv_def slot_defs split: writer_pc.splits)
next
  case (next_msg pc sch)
  then show ?thesis using assms(2)
    by (auto simp: quiet_inv_def slot_defs fetch_next_def split: blocking.splits sum.splits prod.splits)
next
  case (retain msg)
  then show ?thesis using assms(2) by (auto simp: quiet_inv_def slot_defs split: writer_pc.splits if_splits)
next
  case ack_done
  then show ?thesis using assms(2) by (auto simp: quiet_inv_def slot_defs split: writer_pc.splits)
next
  case (err_done e)
  then show ?thesis using assms(2) by (auto simp: quiet_inv_def slot_defs split: writer_pc.splits)
qed

lemma quiet_write:
  assumes "wr_writer s = WGot msg" and "write_message (se_id (wr_cur s)) msg writeErr (wr_pending s) = (pc, p, ms)" and "quiet_inv s"
  shows "quiet_inv (s\<lparr>wr_writer := pc, wr_pending := p, wr_written := wr_written s @ map (Pair (se_id (wr_cur s))) ms,
       wr_lost := wr_lost s @ (if pc = WEnd then collide msg (wr_pending s) else []),
       wr_cur := (wr_cur s)\<lparr>se_done := se_done (wr_cur s) \<or> pc = WEnd\<rparr>\<rparr>)"
proof -
  have f: "se_fetch (wr_cur s) = FAck \<or> se_fetch (wr_cur s) = FEnd" and p: "wr_pending s = None"
    using assms(1,3) by (auto simp: quiet_inv_def slot_ok_def split: fetch_pc.splits)
  with assms show ?thesis
    by (auto simp: quiet_inv_def slot_defs write_message_def stale_def split: if_splits option.splits)
qed

lemma quiet_step: "writer_step False s s' \<Longrightarrow> quiet_inv s \<Longrightarrow> quiet_inv s'"
proof (induction rule: writer_step.induct)
  case (push msg s sch)
  then show ?case by (simp add: quiet_inv_def)
next
  case (cancel s)
  then show ?case by (simp add: quiet_inv_def)
next
  case (fetch s s' f)
  then show ?case by (rule quiet_fetch)
next
  case (fetch_old i s s' f)
  then have "se_fetch (wr_old s ! i) = FEnd" by (simp add: quiet_inv_def)
  with fetch_ended [OF fetch_old(2)] show ?case by simp
next
  case (hand_over s msg)
  then show ?case by (auto simp: quiet_inv_def slot_ok_def on_way_def)
next
  case (hand_error s e)
  then show ?case by (auto simp: quiet_inv_def slot_defs)
next
  case (ack s)
  then show ?case by (auto simp: quiet_inv_def slot_defs)
next
  case (write_msg s msg writeErr pc p ms)
  then show ?case by (rule quiet_write)
next
  case (ping_failed s)
  then show ?case by (auto simp: quiet_inv_def slot_defs split: fetch_pc.splits)
next
  case (writer_done s)
  then show ?case by (auto simp: quiet_inv_def slot_defs split: fetch_pc.splits)
next
  case (new_session s sid)
  then show ?case by (auto simp: quiet_inv_def slot_defs)
qed

lemma quiet_reach: "writer_reach False s \<Longrightarrow> quiet_inv s"
  by (induction rule: writer_reach.induct) (auto intro: quiet_init quiet_step)

text \<open>A response is only written in the session its request came from.\<close>

lemma reach_not_stale:
  "writer_reach overlap s \<Longrightarrow> \<forall>(sid, m) \<in> set (wr_written s). om_Priority m = PriorityHighest \<longrightarrow> om_SessionID m = sid"
proof (induction rule: writer_reach.induct)
  case (init sch sid)
  then show ?case by (simp add: writer_init_def)
next
  case (step s s')
  from step.hyps(2) step.IH show ?case
    by (induction rule: writer_step.induct)
      (auto simp: write_message_def stale_def elim!: fetch_stepE split: if_splits option.splits)
qed

lemma on_way_short: "length (lower (on_way f w p)) \<le> 1"
  by (simp add: on_way_def plist_def split: fetch_pc.splits writer_pc.splits option.splits)

text \<open>C17: messages below the highest priority are delivered exactly once and in the order in which they
  left the scheduler, across any number of lost connections, failed writes and reconnects: at every
  moment those taken from the scheduler are those written, in order, followed by at most one that
  is on its way or retained for the next session. This holds when a session starts after the
  fetcher of the previous one has ended. Responses, in any interleaving, are never written in another session than the one their
  request came from.\<close>

theorem lower_messages_delivered_once:
  "(writer_reach False s \<longrightarrow>
     (\<exists>way. length way \<le> 1 \<and> lower (wr_taken s) = lower (map snd (wr_written s)) @ way) \<and> wr_lost s = [])
   \<and> (writer_reach overlap s \<longrightarrow>
     (\<forall>(sid, m) \<in> set (wr_written s). om_Priority m = PriorityHighest \<longrightarrow> om_SessionID m = sid))"
proof (intro conjI impI)
  assume "writer_reach False s"
  from quiet_reach [OF this] show "wr_lost s = []"
    "\<exists>way. length way \<le> 1 \<and> lower (wr_taken s) = lower (map snd (wr_written s)) @ way"
    using on_way_short [of "se_fetch (wr_cur s)" "wr_writer s" "wr_pending s"] by (auto simp: quiet_inv_def)
next
  assume "writer_reach overlap s"
  then show "\<forall>(sid, m) \<in> set (wr_written s). om_Priority m = PriorityHighest \<longrightarrow> om_SessionID m = sid"
    by (rule reach_not_stale)
qed

text \<open>Two messages of priority 1 and the first moves of a session that serves them.\<close>

definition msg_a :: outbound_message where "msg_a = \<lparr>om_SessionID = [], om_Priority = 1, om_Payload = ''a''\<rparr>"
definition msg_b :: outbound_message where "msg_b = \<lparr>om_SessionID = [], om_Priority = 1, om_Payload = ''b''\<rparr>"

definition sched_of :: "outbound_message list \<Rightarrow> priority_scheduler" where
  "sched_of ms = \<lparr>ps_queues = [[], ms, [], []], ps_capacity = 4, ps_emergencyCap = 4, ps_consecutiveP0 = 0, ps_lastYield = 0\<rparr>"

lemma fetch_next_sched_of: "fetch_next False (sched_of (m # ms)) = Some (FOffer m, sched_of ms)"
  by (simp add: fetch_next_def sched_Next_def tryDequeue_def sched_of_def)

lemma offer_reached:
  assumes r: "writer_reach ov s" and c: "wr_cur s = \<lparr>se_id = sid, se_done = False, se_fetch = FStart\<rparr>" and p: "wr_pending s = None"
    and q: "wr_sched s = sched_of (m # ms)"
  shows "writer_reach ov (s\<lparr>wr_sched := sched_of ms, wr_taken := wr_taken s @ [m],
     wr_cur := \<lparr>se_id = sid, se_done = False, se_fetch = FOffer m\<rparr>\<rparr>)"
proof -
  let ?f = "\<lparr>se_id = sid, se_done = False, se_fetch = FNext\<rparr>"
  have "fetch_step s (wr_cur s) (s\<lparr>wr_pending := None\<rparr>) ((wr_cur s)\<lparr>se_fetch := FNext\<rparr>)"
    by (rule fetch_step.start) (simp_all add: c p take_pending_def)
  from writer_reach.step [OF r writer_step.fetch [OF this]]
  have r1: "writer_reach ov (s\<lparr>wr_cur := ?f\<rparr>)" using c p by (cases s) simp
  have "fetch_step (s\<lparr>wr_cur := ?f\<rparr>) ?f ((s\<lparr>wr_cur := ?f\<rparr>)\<lparr>wr_sched := sched_of ms,
      wr_taken := wr_taken (s\<lparr>wr_cur := ?f\<rparr>) @ (case FOffer m of FOffer msg \<Rightarrow> [msg] | _ \<Rightarrow> [])\<rparr>) (?f\<lparr>se_fetch := FOffer m\<rparr>)"
    by (rule fetch_step.next_msg) (simp_all add: q fetch_next_sched_of)
  from writer_reach.step [OF r1 writer_step.fetch [of "s\<lparr>wr_cur := ?f\<rparr>", simplified, OF this]]
  show ?thesis by simp
qed

definition written_sys :: writer_sys where
  "written_sys = (writer_init (sched_of [msg_b]) ''sess-1'')\<lparr>wr_taken := [msg_a], wr_written := [(''sess-1'', msg_a)],
     wr_writer := WAck, wr_cur := \<lparr>se_id = ''sess-1'', se_done = False, se_fetch = FAck\<rparr>\<rparr>"

lemma written_reached: "writer_reach False written_sys"
proof -
  let ?s = "(writer_init (sched_of [msg_b]) ''sess-1'')\<lparr>wr_taken := [msg_a],
     wr_cur := \<lparr>se_id = ''sess-1'', se_done = False, se_fetch = FOffer msg_a\<rparr>\<rparr>"
  have r: "writer_reach False ?s"
    using offer_reached [OF writer_reach.init [of False "sched_of [msg_a, msg_b]" "''sess-1''"], of "''sess-1''" msg_a "[msg_b]"]
    by (simp add: writer_init_def)
  let ?t = "?s\<lparr>wr_cur := (wr_cur ?s)\<lparr>se_fetch := FAck\<rparr>, wr_writer := WGot msg_a\<rparr>"
  have t: "writer_reach False ?t"
    by (rule writer_reach.step [OF r], rule writer_step.hand_over) (simp_all add: writer_init_def)
  have "writer_step False ?t (?t\<lparr>wr_writer := WAck, wr_pending := wr_pending ?t,
       wr_written := wr_written ?t @ map (Pair (se_id (wr_cur ?t))) [msg_a],
       wr_lost := wr_lost ?t @ (if WAck = WEnd then collide msg_a (wr_pending ?t) else []),
       wr_cur := (wr_cur ?t)\<lparr>se_done := se_done (wr_cur ?t) \<or> WAck = WEnd\<rparr>\<rparr>)"
    by (rule writer_step.write_msg [where writeErr = None]) (simp_all add: write_message_def stale_def msg_a_def)
  from writer_reach.step [OF t this] show ?thesis by (simp add: written_sys_def writer_init_def)
qed

theorem lower_messages_delivered_once_witness:
  "\<exists>way. length way \<le> 1 \<and> lower (wr_taken written_sys) = lower (map snd (wr_written written_sys)) @ way
     \<and> wr_taken written_sys = [msg_a] \<and> map snd (wr_written written_sys) = [msg_a]"
proof -
  have "wr_taken written_sys = [msg_a]" "map snd (wr_written written_sys) = [msg_a]"
    by (simp_all add: written_sys_def)
  then show ?thesis
    using lower_messages_delivered_once [of written_sys False] written_reached by auto
qed

section \<open>Overlapping sessions\<close>

text \<open>The start of a session does not wait for the fetcher of the previous one. A fetcher that was
  delayed between \<open>scheduler.Next\<close> and its \<open>select\<close> finds \<open>pendingMsg\<close> occupied by a message of the next
  session, and its own message is dropped.\<close>

definition overlap_sys :: writer_sys where
  "overlap_sys = \<lparr>wr_sched = sched_of [], wr_pending = Some msg_b,
     wr_old = [\<lparr>se_id = ''sess-1'', se_done = True, se_fetch = FOffer msg_a\<rparr>],
     wr_cur = \<lparr>se_id = ''sess-2'', se_done = True, se_fetch = FEnd\<rparr>, wr_writer = WSelect,
     wr_taken = [msg_a, msg_b], wr_written = [], wr_lost = []\<rparr>"

lemma overlap_reached: "writer_reach True overlap_sys"
proof -
  let ?s1 = "(writer_init (sched_of [msg_b]) ''sess-1'')\<lparr>wr_taken := [msg_a],
     wr_cur := \<lparr>se_id = ''sess-1'', se_done = False, se_fetch = FOffer msg_a\<rparr>\<rparr>"
  have r1: "writer_reach True ?s1"
    using offer_reached [OF writer_reach.init [of True "sched_of [msg_a, msg_b]" "''sess-1''"], of "''sess-1''" msg_a "[msg_b]"]
    by (simp add: writer_init_def)
  let ?s2 = "?s1\<lparr>wr_cur := (wr_cur ?s1)\<lparr>se_done := True\<rparr>, wr_writer := WEnd\<rparr>"
  have r2: "writer_reach True ?s2"
    by (rule writer_reach.step [OF r1], rule writer_step.ping_failed) (simp add: writer_init_def)
  let ?s3 = "?s2\<lparr>wr_old := wr_old ?s2 @ [wr_cur ?s2], wr_cur := \<lparr>se_id = ''sess-2'', se_done = False, se_fetch = FStart\<rparr>, wr_writer := WSelect\<rparr>"
  have r3: "writer_reach True ?s3"
    by (rule writer_reach.step [OF r2], rule writer_step.new_session) simp_all
  let ?s4 = "?s3\<lparr>wr_sched := sched_of [], wr_taken := [msg_a, msg_b],
     wr_cur := \<lparr>se_id = ''sess-2'', se_done = False, se_fetch = FOffer msg_b\<rparr>\<rparr>"
  have r4: "writer_reach True ?s4"
    using offer_reached [OF r3, of "''sess-2''" msg_b "[]"] by (simp add: writer_init_def)
  let ?s5 = "?s4\<lparr>wr_cur := (wr_cur ?s4)\<lparr>se_done := True\<rparr>\<rparr>"
  have r5: "writer_reach True ?s5" by (rule writer_reach.step [OF r4], rule writer_step.cancel)
  have "fetch_step ?s5 (wr_cur ?s5) (?s5\<lparr>wr_pending := retain_message msg_b (wr_pending ?s5),
      wr_lost := wr_lost ?s5 @ collide msg_b (wr_pending ?s5)\<rparr>) ((wr_cur ?s5)\<lparr>se_fetch := FEnd\<rparr>)"
    by (rule fetch_step.retain) simp_all
  from writer_reach.step [OF r5 writer_step.fetch [OF this]] show ?thesis
    by (simp add: writer_init_def overlap_sys_def retain_message_def put_back_def collide_def msg_b_def)
qed

theorem overlapping_session_drops_message:
  "\<exists>s s'. writer_reach True s \<and> writer_step True s s' \<and> writer_reach True s' \<and> wr_lost s' = [msg_a]
     \<and> msg_a \<notin> set (map snd (wr_written s')) \<and> wr_pending s' = Some msg_b \<and> om_Priority msg_a \<noteq> PriorityHighest"
proof -
  let ?f = "wr_old overlap_sys ! 0"
  have "fetch_step overlap_sys ?f (overlap_sys\<lparr>wr_pending := retain_message msg_a (wr_pending overlap_sys),
      wr_lost := wr_lost overlap_sys @ collide msg_a (wr_pending overlap_sys)\<rparr>) (?f\<lparr>se_fetch := FEnd\<rparr>)"
    by (rule fetch_step.retain) (simp_all add: overlap_sys_def)
  from writer_step.fetch_old [OF _ this, where overlap = True] have st: "writer_step True overlap_sys
      (overlap_sys\<lparr>wr_pending := retain_message msg_a (wr_pending overlap_sys),
      wr_lost := wr_lost overlap_sys @ collide msg_a (wr_pending overlap_sys), wr_old := (wr_old overlap_sys)[0 := ?f\<lparr>se_fetch := FEnd\<rparr>]\<rparr>)"
    by (simp add: overlap_sys_def)
  show ?thesis
    by (intro exI conjI, rule overlap_reached, rule st, rule writer_reach.step [OF overlap_reached st])
      (simp_all add: overlap_sys_def retain_message_def put_back_def collide_def msg_a_def)
qed

end
