(* ===== verification/Wiring.thy ===== *)
theory Wiring
  imports Ws_Writer
begin

text \<open>
  The process, \<open>src/cmd/ucentral-client/main.go\<close>: reading the environment, building and connecting the
  components, the subscription to the results of the device with its retry, and the path of a
  result from the NATS client to the request manager. Signals, logging and the goroutines that
  only call the functions modelled here are left out.
\<close>

section \<open>Environment variables\<close>

definition result_bind :: "'a result \<Rightarrow> ('a \<Rightarrow> 'b result) \<Rightarrow> 'b result" where
  "result_bind r k = (case r of Inl e \<Rightarrow> Inl e | Inr x \<Rightarrow> k x)"

definition parseTimeoutEnv :: "(string \<Rightarrow> bytes) \<Rightarrow> string \<Rightarrow> duration \<Rightarrow> duration result" where
  "parseTimeoutEnv getenv envKey defaultVal =
     (let val = getenv envKey
      in if val = [] then Inr defaultVal
         else case ParseDuration val of
           None \<Rightarrow> Inl (EWrap (''failed to parse environment variable '' @ envKey) (EMsg ''time: invalid duration''))
         | Some d \<Rightarrow>
             if d \<le> 0 then Inl (EFmt (''environment variable '' @ envKey @ '' must represent a positive duration'') val)
             else Inr d)"

text \<open>\<open>strconv.Atoi\<close> on a 64-bit platform.\<close>

definition parseLimitEnv :: "(string \<Rightarrow> bytes) \<Rightarrow> string \<Rightarrow> int \<Rightarrow> int result" where
  "parseLimitEnv getenv envName defaultVal =
     (let valStr = getenv envName
      in if valStr = [] then Inr defaultVal
         else case ParseInt64 (TrimSpace valStr) of
           None \<Rightarrow> Inl (EMsg (''invalid limit for '' @ envName @ '': must be a positive integer''))
         | Some val \<Rightarrow>
             if val \<le> 0 then Inl (EMsg (''invalid limit for '' @ envName @ '': must be a positive integer''))
             else Inr val)"

record app_timeouts =
  at_Dispatch :: duration
  at_Configure :: duration
  at_ActionDefault :: duration
  at_ActionExtended :: duration
  at_SweeperTTL :: duration

definition parse_timeouts :: "(string \<Rightarrow> bytes) \<Rightarrow> app_timeouts result" where
  "parse_timeouts getenv =
     result_bind (parseTimeoutEnv getenv ''OLG_TIMEOUT_DISPATCH'' (5 * Second)) (\<lambda>dispatchTimeout.
     result_bind (parseTimeoutEnv getenv ''OLG_TIMEOUT_CONFIGURE'' (30 * Second)) (\<lambda>timeoutConfigure.
     result_bind (parseTimeoutEnv getenv ''OLG_TIMEOUT_ACTION_DEFAULT'' (60 * Second)) (\<lambda>timeoutActionDefault.
     result_bind (parseTimeoutEnv getenv ''OLG_TIMEOUT_ACTION_EXTENDED'' (120 * Second)) (\<lambda>timeoutActionExtended.
     result_bind (parseTimeoutEnv getenv ''OLG_OPERATION_SWEEPER_TTL'' (15 * Minute)) (\<lambda>operationSweeperTTL.
       Inr \<lparr>at_Dispatch = dispatchTimeout, at_Configure = timeoutConfigure, at_ActionDefault = timeoutActionDefault,
            at_ActionExtended = timeoutActionExtended, at_SweeperTTL = operationSweeperTTL\<rparr>)))))"

record payload_limits =
  pl_Absolute :: int
  pl_Configure :: int
  pl_Script :: int
  pl_CertUpdate :: int
  pl_Default :: int

definition parse_limits :: "(string \<Rightarrow> bytes) \<Rightarrow> payload_limits result" where
  "parse_limits getenv =
     result_bind (parseLimitEnv getenv ''OLG_PAYLOAD_LIMIT_ABSOLUTE'' (12 * 1024 * 1024)) (\<lambda>payloadLimitAbsolute.
     result_bind (parseLimitEnv getenv ''OLG_PAYLOAD_LIMIT_CONFIGURE'' (10 * 1024 * 1024)) (\<lambda>payloadLimitConfigure.
     result_bind (parseLimitEnv getenv ''OLG_PAYLOAD_LIMIT_SCRIPT'' (1 * 1024 * 1024)) (\<lambda>payloadLimitScript.
     result_bind (parseLimitEnv getenv ''OLG_PAYLOAD_LIMIT_CERTUPDATE'' (2 * 1024 * 1024)) (\<lambda>payloadLimitCertUpdate.
     result_bind (parseLimitEnv getenv ''OLG_PAYLOAD_LIMIT_DEFAULT'' (11 * 1024 * 1024)) (\<lambda>payloadLimitDefault.
       Inr \<lparr>pl_Absolute = payloadLimitAbsolute, pl_Configure = payloadLimitConfigure, pl_Script = payloadLimitScript,
            pl_CertUpdate = payloadLimitCertUpdate, pl_Default = payloadLimitDefault\<rparr>)))))"

definition clamp_to :: "int \<Rightarrow> int \<Rightarrow> int" where
  "clamp_to absolute n = (if n > absolute then absolute else n)"

definition clamp_methods :: "payload_limits \<Rightarrow> payload_limits" where
  "clamp_methods l = l\<lparr>pl_Configure := clamp_to (pl_Absolute l) (pl_Configure l), pl_Script := clamp_to (pl_Absolute l) (pl_Script l),
     pl_CertUpdate := clamp_to (pl_Absolute l) (pl_CertUpdate l), pl_Default := clamp_to (pl_Absolute l) (pl_Default l)\<rparr>"

definition clamp_limits :: "int \<Rightarrow> payload_limits \<Rightarrow> payload_limits" where
  "clamp_limits wsMaxFrame l =
     (let l1 = clamp_methods l
      in if wsMaxFrame > 0 \<and> pl_Absolute l1 > wsMaxFrame then clamp_methods (l1\<lparr>pl_Absolute := wsMaxFrame\<rparr>) else l1)"

definition trace_upload_url :: "(string \<Rightarrow> bytes) \<Rightarrow> url option result" where
  "trace_upload_url getenv =
     (let str = getenv ''OLG_TRACE_UPLOAD_ALLOWED_URL''
      in if str = [] then Inr None
         else case url_Parse str of
           None \<Rightarrow> Inl (EWrap ''invalid OLG_TRACE_UPLOAD_ALLOWED_URL'' (EMsg ''url''))
         | Some u \<Rightarrow>
             if u_Scheme u \<noteq> ''https'' then Inl (EFmt ''OLG_TRACE_UPLOAD_ALLOWED_URL must have https scheme'' (u_Scheme u))
             else if u_User u \<noteq> None then Inl (EMsg ''OLG_TRACE_UPLOAD_ALLOWED_URL must not contain credentials'')
             else Inr (Some u))"

definition env_or :: "(string \<Rightarrow> bytes) \<Rightarrow> string \<Rightarrow> bytes \<Rightarrow> bytes" where
  "env_or getenv key dflt = (if getenv key \<noteq> [] then getenv key else dflt)"

definition ttl_config_of :: "cache_ttl_settings \<Rightarrow> cache_ttl_config" where
  "ttl_config_of c =
     \<lparr>ct_DefaultTTL = cs_Default c * Second,
      ct_MethodTTLs = map_of [(''configure'', cs_Configure c * Second), (''leds'', cs_LEDs c * Second), (''reboot'', cs_Reboot c * Second),
        (''rtty'', cs_RemoteAccess c * Second), (''factory'', cs_Factory c * Second), (''upgrade'', cs_Upgrade c * Second),
        (''certupdate'', cs_Certupdate c * Second), (''reenroll'', cs_Reenroll c * Second), (''script'', cs_Script c * Second)]\<rparr>"

section \<open>Start-up\<close>

text \<open>The part of \<open>main\<close> before the components: the validated configuration with the serial of the device,
  and the cache settings. An error ends the process.\<close>

definition load_settings :: "files_env \<Rightarrow> (string \<Rightarrow> bytes) \<Rightarrow> bytes \<Rightarrow> (client_config \<times> cache_ttl_settings) result" where
  "load_settings fe getenv configPath =
     result_bind (LoadConfig fe configPath) (\<lambda>cfg0.
       case Config_Validate fe cfg0 of
         (Some e, cfg) \<Rightarrow> Inl (EWrap ''Invalid configuration'' e)
       | (None, cfg) \<Rightarrow>
           (case LoadSerialFromMapping fe (env_or getenv ''OW_INTERFACE_MAP_FILE'' ''/etc/ucentral/interface_map.json'') of
              Inl e \<Rightarrow> Inl (EWrap ''Failed to read serial from mapping file'' e)
            | Inr serial \<Rightarrow>
                let cfg1 = cfg\<lparr>cf_Serial := serial\<rparr>
                in case Config_ValidateSerialBinding fe cfg1 of
                     Some e \<Rightarrow> Inl e
                   | None \<Rightarrow>
                       (case LoadCacheTTLConfigFromEnv getenv of
                          Inl e \<Rightarrow> Inl (EWrap ''Invalid Cache TTL environment variables'' e)
                        | Inr ttl \<Rightarrow> Inr (cfg1, ttl))))"

record 'h app_components =
  ap_ReqManager :: manager
  ap_NatsClient :: "'h nats_client option"
  ap_WsClient :: ws_client
  ap_CapCache :: capability_cache
  ap_Timeouts :: app_timeouts
  ap_Limits :: payload_limits

text \<open>What start-up takes from outside: the text of the boot id, the outcomes of creating the two
  directories of the store, and the agent library.\<close>

record 'h host_env =
  ho_files :: files_env
  ho_getenv :: "string \<Rightarrow> bytes"
  ho_bootFile :: "bytes result"
  ho_mkdirBase :: "go_error option"
  ho_mkdirQuarantine :: "go_error option"
  ho_agentcoreNew :: "agent_config \<Rightarrow> 'h result"
  ho_agentStart :: "'h \<Rightarrow> go_error option"

text \<open>\<open>initializeComponents\<close>: the components, the validation settings and the link states after it, and the
  store. The scheduler is part of the request manager's state.\<close>

definition attempt_or :: "(go_error \<Rightarrow> go_error) \<Rightarrow> 'a result \<Rightarrow> ('a \<Rightarrow> 'b result go) \<Rightarrow> 'b result go" where
  "attempt_or wrap r k = (case r of Inl e \<Rightarrow> Ret (Inl (wrap e)) | Inr x \<Rightarrow> k x)"

definition go_bind :: "'a go \<Rightarrow> ('a \<Rightarrow> 'b go) \<Rightarrow> 'b go" where
  "go_bind r k = (case r of Panic \<Rightarrow> Panic | Ret x \<Rightarrow> k x)"

definition initializeComponents ::
  "'h host_env \<Rightarrow> client_config \<Rightarrow> cache_ttl_settings \<Rightarrow> contracts_env \<Rightarrow> system_state \<Rightarrow> disk
     \<Rightarrow> ('h app_components \<times> contracts_env \<times> system_state \<times> disk) result go" where
  "initializeComponents ho cfg ttl env st dsk =
     attempt_or (\<lambda>e. e) (parse_timeouts (ho_getenv ho)) (\<lambda>tm.
     attempt_or (\<lambda>e. e) (parse_limits (ho_getenv ho)) (\<lambda>l0.
       let l = clamp_limits (cc_MaxFrameSizeBytes (cf_Cloud cfg)) l0;
           env1 = SetLimits (pl_Configure l) (pl_CertUpdate l) (pl_Script l) env
       in
     attempt_or (\<lambda>e. e) (trace_upload_url (ho_getenv ho)) (\<lambda>u.
     attempt_or (EWrap ''failed to initialize capability cache'')
       (NewCapabilityCache (ho_files ho) (env_or (ho_getenv ho) ''OW_CAPABILITIES_FILE'' ''/etc/ucentral/capabilities.json'')) (\<lambda>capCache.
     go_bind (NewPriorityScheduler (qc_WSWriterCapacity (cf_Queues cfg)) (qc_EmergencyCapacity (cf_Queues cfg))) (\<lambda>sch.
     go_bind (NewTelemetryRingBuffer (qc_TelemetryCapacity (cf_Queues cfg))) (\<lambda>_.
     attempt_or (EWrap ''failed to initialize operation store'')
       (NewDiskOperationStore (ho_mkdirBase ho) (ho_mkdirQuarantine ho) dsk) (\<lambda>store.
     attempt_or (EWrap ''failed to initialize RequestManager'')
       (NewRequestManager (ho_bootFile ho) (at_Dispatch tm) (ttl_config_of ttl) (Some NewTransactionCache) (Some sch) True
          (qc_MaxConcurrentRequests (cf_Queues cfg)) (at_SweeperTTL tm) 1000) (\<lambda>reqManager.
       let (nres, links) = NewNATSClient (ho_files ho) (ho_agentcoreNew ho) (ho_agentStart ho) (nc_Target (cf_NATS cfg)) (cf_NATS cfg)
       in
     attempt_or (EWrap ''failed to initialize WSClient'') (NewWSClient (cf_Cloud cfg) True True) (\<lambda>ws.
       Ret (Inr (\<lparr>ap_ReqManager = reqManager, ap_NatsClient = (case nres of Inl e \<Rightarrow> None | Inr nc \<Rightarrow> Some nc),
                  ap_WsClient = ws, ap_CapCache = capCache, ap_Timeouts = tm, ap_Limits = l\<rparr>,
                 env1\<lparr>ce_AllowedTraceUploadURL := u\<rparr>, fold UpdateNATSLink links st, store)))))))))))"

definition initial_links :: system_state where
  "initial_links = \<lparr>st_natsLink = LinkConnecting, st_wsLink = LinkConnecting\<rparr>"

text \<open>The handler that \<open>main\<close> builds from the components.\<close>

definition handler_config_of :: "client_config \<Rightarrow> 'h app_components \<Rightarrow> handler_config" where
  "handler_config_of cfg comps =
     \<lparr>hc_serial = cf_Serial cfg, hc_target = nc_Target (cf_NATS cfg),
      hc_dispatchCapacity = qc_NATSPublishCapacity (cf_Queues cfg),
      hc_timeoutDispatch = at_Dispatch (ap_Timeouts comps), hc_timeoutConfigure = at_Configure (ap_Timeouts comps),
      hc_timeoutActionDefault = at_ActionDefault (ap_Timeouts comps), hc_timeoutActionExtended = at_ActionExtended (ap_Timeouts comps),
      hc_payloadLimitAbsolute = pl_Absolute (ap_Limits comps), hc_payloadLimitConfigure = pl_Configure (ap_Limits comps),
      hc_payloadLimitScript = pl_Script (ap_Limits comps), hc_payloadLimitCertUpdate = pl_CertUpdate (ap_Limits comps),
      hc_payloadLimitDefault = pl_Default (ap_Limits comps)\<rparr>"

definition handler_of :: "system_state \<Rightarrow> 'h app_components \<Rightarrow> 'h frame_handler" where
  "handler_of st comps = \<lparr>fh_reqMgr = ap_ReqManager comps, fh_stateMgr = st, fh_natsClient = ap_NatsClient comps, fh_dispatchBuffer = 0\<rparr>"

section \<open>Subscribing to results\<close>

text \<open>The first subscription: when it fails the client is closed and forgotten.\<close>

definition initial_subscription ::
  "('h \<Rightarrow> bytes \<Rightarrow> go_error option) \<Rightarrow> context_arg \<Rightarrow> client_config \<Rightarrow> 'h frame_handler \<Rightarrow> bool \<times> 'h frame_handler" where
  "initial_subscription agent_Register ctx cfg h =
     (case fh_natsClient h of
        None \<Rightarrow> (False, h)
      | Some nc \<Rightarrow>
          if SubscribeResults agent_Register nc ctx (nc_Target (cf_NATS cfg)) True = None then (True, h)
          else (False, SetNATSClient None h))"

text \<open>One tick of the recovery loop: whether it is over, and the handler.\<close>

definition retry_subscription ::
  "'h host_env \<Rightarrow> ('h \<Rightarrow> bytes \<Rightarrow> go_error option) \<Rightarrow> context_arg \<Rightarrow> client_config \<Rightarrow> 'h frame_handler \<Rightarrow> bool \<times> 'h frame_handler" where
  "retry_subscription ho agent_Register ctx cfg h =
     (case NewNATSClient (ho_files ho) (ho_agentcoreNew ho) (ho_agentStart ho) (nc_Target (cf_NATS cfg)) (cf_NATS cfg) of
        (r, links) \<Rightarrow>
          let h1 = h\<lparr>fh_stateMgr := fold UpdateNATSLink links (fh_stateMgr h)\<rparr>
          in case r of
               Inl e \<Rightarrow> (False, h1)
             | Inr nc \<Rightarrow>
                 if SubscribeResults agent_Register nc ctx (nc_Target (cf_NATS cfg)) True \<noteq> None then (False, h1)
                 else (True, SetNATSClient (Some nc) h1))"

section \<open>Results of the device\<close>

text \<open>The response to the cloud, \<open>None\<close> being a nil slice: for a notification, or when marshalling fails.\<close>

definition result_response :: "bytes \<Rightarrow> result_envelope \<Rightarrow> transaction \<Rightarrow> bytes option go" where
  "result_response serial res tx =
     go_bind (BuildDeviceResultObject serial (re_UUID res) (re_Result res) (re_ErrorCode res) (re_Message res) (re_Payload res))
       (\<lambda>formattedResult. Ret
         (if \<not> tx_RespondToCloud tx then None
          else Response_Marshal \<lparr>rs_JSONRPC = JSONRPCVersion, rs_Result = formattedResult, rs_Error = None, rs_ID = tx_CloudRPCID tx\<rparr>))"

definition upgrade_rejected :: "result_envelope \<Rightarrow> bool" where
  "upgrade_rejected res \<longleftrightarrow> re_Result res \<noteq> ResultSuccess \<or> (re_ErrorCode res \<noteq> [] \<and> re_ErrorCode res \<noteq> ''0'')"

definition retain_failed_response :: "transaction \<Rightarrow> bytes option" where
  "retain_failed_response tx =
     Response_Marshal \<lparr>rs_JSONRPC = JSONRPCVersion, rs_Result = [],
       rs_Error = Some \<lparr>je_Code = - 32603, je_Message = ''Internal Error'',
                        je_Data = quoted ''Failed to establish persistent upgrade operation''\<rparr>,
       rs_ID = tx_CloudRPCID tx\<rparr>"

text \<open>\<open>processNATSResult\<close>, run by the worker on the results of the queue. \<open>operationID\<close> is the identifier that
  \<open>RespondAndRetain\<close> draws.\<close>

definition processNATSResult ::
  "(persistent_operation \<Rightarrow> 's \<Rightarrow> go_error option \<times> 's) \<Rightarrow> (string \<Rightarrow> 's \<Rightarrow> go_error option \<times> 's) \<Rightarrow> instant \<Rightarrow> string
     \<Rightarrow> bytes \<Rightarrow> result_envelope \<Rightarrow> manager \<times> 's \<Rightarrow> (manager \<times> 's) go" where
  "processNATSResult save delete now operationID serial res st =
     (case GetTransaction (re_RPCID res) (fst st) of
        None \<Rightarrow> Ret st
      | Some tx \<Rightarrow>
          go_bind (result_response serial res tx) (\<lambda>respBytes.
            if tx_Method tx = ActionUpgrade then
              (if upgrade_rejected res then Ret (snd (Fail now (re_RPCID res) respBytes (fst st)), snd st)
               else case RespondAndRetain save delete now operationID (re_RPCID res) respBytes st of
                 ((_, err), st') \<Rightarrow>
                   if err = None then Ret st'
                   else if errors_Is (the err) ErrHandoffInProgress then Ret st'
                   else Ret (snd (Fail now (re_RPCID res)
                          (if tx_RespondToCloud tx then retain_failed_response tx else respBytes) (fst st')), snd st'))
            else Ret (snd (Complete now (re_RPCID res) respBytes (fst st)), snd st)))"

text \<open>\<open>handleNATSResult\<close>: the callback of the subscription. A full queue does not drop the result: the
  transaction is resolved on the spot.\<close>

definition handleNATSResult ::
  "int \<Rightarrow> (persistent_operation \<Rightarrow> 's \<Rightarrow> go_error option \<times> 's) \<Rightarrow> (string \<Rightarrow> 's \<Rightarrow> go_error option \<times> 's) \<Rightarrow> instant \<Rightarrow> string
     \<Rightarrow> bytes \<Rightarrow> result_envelope \<Rightarrow> result_envelope list \<times> manager \<times> 's \<Rightarrow> (result_envelope list \<times> manager \<times> 's) go" where
  "handleNATSResult capacity save delete now operationID serial res qst =
     (case qst of (queue, m, store) \<Rightarrow>
      if int (length queue) < capacity then Ret (queue @ [res], m, store)
      else case GetTransaction (re_RPCID res) m of
        None \<Rightarrow> Ret (queue, m, store)
      | Some tx \<Rightarrow>
          go_bind (result_response serial res tx) (\<lambda>respBytes.
            if tx_Method tx = ActionUpgrade then
              (if upgrade_rejected res then Ret (queue, snd (Fail now (re_RPCID res) respBytes m), store)
               else case RespondAndRetain save delete now operationID (re_RPCID res) respBytes (m, store) of
                 ((_, None), m', store') \<Rightarrow> Ret (queue, m', store')
               | ((_, Some e), m', store') \<Rightarrow>
                   if errors_Is e ErrHandoffInProgress then Ret (queue, m', store')
                   else if tx_RespondToCloud tx
                     then Ret (queue, snd (Fail now (re_RPCID res) (retain_failed_response tx) m'), store')
                     else Ret (queue, snd (Fail now (re_RPCID res) respBytes m'), store'))
            else Ret (queue, snd (Complete now (re_RPCID res) respBytes m), store)))"

text \<open>One turn of the worker: it blocks on an empty queue.\<close>

definition result_worker ::
  "(persistent_operation \<Rightarrow> 's \<Rightarrow> go_error option \<times> 's) \<Rightarrow> (string \<Rightarrow> 's \<Rightarrow> go_error option \<times> 's) \<Rightarrow> instant \<Rightarrow> string
     \<Rightarrow> bytes \<Rightarrow> result_envelope list \<times> manager \<times> 's \<Rightarrow> (result_envelope list \<times> manager \<times> 's) go blocking" where
  "result_worker save delete now operationID serial qst =
     (case qst of
        ([], st) \<Rightarrow> Blocked
      | (res # queue, st) \<Rightarrow> Done (go_bind (processNATSResult save delete now operationID serial res st) (\<lambda>st'. Ret (queue, st'))))"

section \<open>Every result settles its request\<close>

text \<open>A transaction that is in flight outside a handoff.\<close>

definition flying :: "manager \<Rightarrow> string \<Rightarrow> bool" where
  "flying m r \<longleftrightarrow> (\<exists>tx. live m r = Some tx \<and> tx_State tx = TxInFlight \<and> \<not> tx_HandoffInProgress tx)"

lemma flying_accepts: "flying m r \<Longrightarrow> is_terminal st \<Longrightarrow> accepts m r st"
  by (auto simp: flying_def accepts_def is_terminal_def validateTransition_None)

lemma tt_removes: "accepts m r st \<Longrightarrow> live (tt now r st p m) r = None"
  by simp

lemma Complete_removes: "flying m r \<Longrightarrow> live (snd (Complete now r p m)) r = None"
  using flying_accepts [of m r TxCompleted] by (auto simp: flying_def Complete_def preflight_def is_terminal_def)

lemma Fail_removes: "flying m r \<or> live m r = None \<Longrightarrow> live (snd (Fail now r p m)) r = None"
proof (cases "live m r")
  case (Some tx)
  assume "flying m r \<or> live m r = None"
  with Some have f: "flying m r" "tx_State tx = TxInFlight" "\<not> tx_HandoffInProgress tx" by (auto simp: flying_def)
  have d: "flying (drop_pending r m) r" using f(1) by (simp add: flying_def)
  show ?thesis
    using Some f flying_accepts [OF f(1), of TxFailed] flying_accepts [OF d, of TxFailed]
    by (auto simp: Fail_def fail_or_timeout_def recoverToInFlight_def validateTransition_def is_terminal_def Let_def split: option.splits)
qed (simp add: Fail_def)

lemma release_keeps:
  assumes "ReleaseOperationLock delete x (m, s) = (e, m', s')"
  shows "txs m' = txs m" and "mgr_inv m \<Longrightarrow> mgr_inv m'"
proof -
  have m': "m' = snd (rel_begin x m) \<or> m' = rel_finish x (snd (rel_begin x m))"
    using assms by (auto simp: ReleaseOperationLock_def split: option.splits prod.splits)
  then show "txs m' = txs m" using rel_begin_cases [of x m] by (auto simp: rel_finish_def)
  show "mgr_inv m'" if "mgr_inv m"
    using m' rel_begin_keeps [OF that, of x] rel_finish_keeps [OF rel_begin_keeps [OF that, of x]] by metis
qed

lemma flying_retracted:
  "live m r = Some tx \<Longrightarrow> tx_State tx = TxInFlight \<Longrightarrow> flying (rar_retract r m) r"
  by (simp add: flying_def)

text \<open>A store that fails gives an error of its own, never the manager's.\<close>

definition honest_save :: "(persistent_operation \<Rightarrow> 's \<Rightarrow> go_error option \<times> 's) \<Rightarrow> bool" where
  "honest_save save \<longleftrightarrow> (\<forall>op s e s'. save op s = (Some e, s') \<longrightarrow> \<not> errors_Is e ErrHandoffInProgress)"

text \<open>The manager during the handoff.\<close>

lemma save_failed_settles:
  assumes "mgr_inv m" and tx: "live m r = Some tx" "tx_State tx = TxInFlight" and "\<not> errors_Is err ErrHandoffInProgress"
    and res: "rar_save_failed now r tx0 err m = ((y, e), m')"
  shows "mgr_inv m' \<and> (live m' r = None \<or> flying m' r \<and> (\<exists>e'. e = Some e' \<and> \<not> errors_Is e' ErrHandoffInProgress))"
proof -
  have k: "mgr_inv m'" using rar_save_failed_keeps [OF assms(1), of r now tx0 err] tx res by simp
  note f = flying_retracted [OF tx]
  have d: "flying (drop_pending r (rar_retract r m)) r" using f by (simp add: flying_def)
  show ?thesis
  proof (cases "fmlookup (mg_pendingReplies m) r")
    case (Some p)
    then have "accepts (drop_pending r (rar_retract r m)) r (pr_State p)"
      using flying_accepts [OF d] table_inv_pending [OF mgr_invD(1) [OF assms(1)]] by blast
    with Some res k show ?thesis by (auto simp: rar_save_failed_eq)
  next
    case None
    have "accepts (rar_retract r m) r TxTimedOut" using flying_accepts [OF f] by (simp add: is_terminal_def)
    moreover have "flying (upd_if_live r (\<lambda>tx. tx\<lparr>tx_ResponseTimer := t tx\<rparr>) (rar_retract r m)) r" for t
      using tx by (simp add: flying_def)
    ultimately show ?thesis
      using None res k assms(4) by (auto simp: rar_save_failed_eq Let_def split: if_splits)
  qed
qed

lemma saved_settles:
  assumes inv: "mgr_inv m" and tx: "live m r = Some tx" "tx_State tx = TxInFlight" and x: "x \<noteq> ''''" "live m x = None"
    and res: "rar_saved now r x response m = (nx, m')"
  shows "mgr_inv m' \<and> (case nx of RarReturn q \<Rightarrow> live m' r = None | RarRelease p \<Rightarrow> accepts (drop_pending r m') r (pr_State p))"
proof -
  have k: "mgr_inv m'" using rar_saved_keeps [OF inv _ x, of r now response] tx res by simp
  have "accepts (rar_transfer r x m) r st" "accepts (drop_pending r (rar_transfer r x m)) r st" if "is_terminal st" for st
    using that tx by (auto simp: accepts_def rar_transfer_def validateTransition_None is_terminal_def)
  note acc = this
  show ?thesis
  proof (cases "fmlookup (mg_pendingReplies m) r")
    case None
    have "accepts (rar_transfer r x m) r TxCompleted" using acc(1) by (simp add: is_terminal_def)
    then have "live (tt now r TxCompleted response (rar_transfer r x m)) r = None" by (rule tt_removes)
    moreover have "m' = tt now r TxCompleted response (rar_transfer r x m)" "\<exists>q. nx = RarReturn q"
      using res None by (auto simp: rar_saved_eq Let_def)
    ultimately show ?thesis using k by auto
  next
    case (Some p)
    then have t: "is_terminal (pr_State p)" using table_inv_pending [OF mgr_invD(1) [OF inv]] by blast
    show ?thesis
    proof (cases "mg_activeStateTx (rar_transfer r x m) = x")
      case True
      then have "nx = RarRelease p" "m' = rar_transfer r x m" using res Some by (simp_all add: rar_saved_eq Let_def)
      then show ?thesis using k acc(2) [OF t] by simp
    next
      case False
      then have "m' = tt now r (pr_State p) (pr_Payload p) (drop_pending r (rar_transfer r x m))" "\<exists>q. nx = RarReturn q"
        using res Some by (auto simp: rar_saved_eq Let_def)
      then show ?thesis using k tt_removes [OF acc(2) [OF t]] by auto
    qed
  qed
qed

lemma RespondAndRetain_settles:
  assumes inv: "mgr_inv m" and tx: "live m r = Some tx" "tx_State tx = TxInFlight" "\<not> tx_HandoffInProgress tx"
    and save: "honest_save save" and x: "x \<noteq> ''''" "live m x = None"
    and res: "RespondAndRetain save delete now x r p (m, s) = ((y, e), m', s')"
  shows "mgr_inv m' \<and> (live m' r = None \<or> flying m' r \<and> (\<exists>e'. e = Some e' \<and> \<not> errors_Is e' ErrHandoffInProgress))"
proof (cases "rar_begin r m")
  case (Pair q m1)
  show ?thesis
  proof (cases q)
    case (Inl e0)
    then have "m1 = m" "\<not> errors_Is e0 ErrHandoffInProgress"
      using Pair tx by (auto simp: rar_begin_def Let_def split: if_splits)
    with Pair Inl res inv tx show ?thesis by (auto simp: RespondAndRetain_def flying_def)
  next
    case (Inr tx1)
    have m1: "mgr_inv m1" using rar_begin_keeps [OF inv, of r] Pair by simp
    have l: "live m1 r = Some tx1" "tx_State tx1 = TxInFlight" "live m1 x = None"
      using Pair Inr tx x by (auto simp: rar_begin_def Let_def split: if_splits)
    obtain err s1 where sv: "save (rar_operation now x r tx1 (GetBootID m1)) s = (err, s1)" by (cases "save (rar_operation now x r tx1 (GetBootID m1)) s")
    show ?thesis
    proof (cases err)
      case (Some er)
      with sv save have "\<not> errors_Is er ErrHandoffInProgress" by (auto simp: honest_save_def)
      from save_failed_settles [OF m1 l(1,2) this, of now tx1 y e m'] show ?thesis
        using Some sv Pair Inr res by (auto simp: RespondAndRetain_def split: prod.splits)
    next
      case None
      obtain nx m2 where sd: "rar_saved now r x p m1 = (nx, m2)" by (cases "rar_saved now r x p m1")
      note S = saved_settles [OF m1 l(1,2) x(1) l(3) sd]
      show ?thesis
      proof (cases nx)
        case (RarReturn q')
        with S None sv sd Pair Inr res show ?thesis by (auto simp: RespondAndRetain_def)
      next
        case (RarRelease pr)
        obtain e3 m3 s3 where rl: "ReleaseOperationLock delete x (m2, s1) = (e3, m3, s3)"
          by (cases "ReleaseOperationLock delete x (m2, s1)") auto
        have "accepts (drop_pending r m3) r (pr_State pr)"
          using S RarRelease release_keeps(1) [OF rl] by (simp add: accepts_def)
        moreover have "m' = tt now r (pr_State pr) (pr_Payload pr) (drop_pending r m3)"
          using res None sv sd Pair Inr RarRelease rl by (auto simp: RespondAndRetain_def rar_resume_def split: prod.splits)
        moreover have "mgr_inv m'"
          using calculation(2) tt_keeps [OF drop_pending_keeps [OF release_keeps(2) [OF rl]]] S by blast
        ultimately show ?thesis by simp
      qed
    qed
  qed
qed

lemma result_response_returns: "trimmed_json (re_Payload res) \<Longrightarrow> \<exists>p. result_response serial res tx = Ret p"
  using trimmed_no_panic [of "re_Payload res"]
  by (auto simp: result_response_def BuildDeviceResultObject_def go_bind_def split: option.splits)

text \<open>The two copies of the code that deals with a result agree.\<close>

lemma handleNATSResult_eq:
  "handleNATSResult capacity save delete now x serial res (queue, m, s) =
     (if int (length queue) < capacity then Ret (queue @ [res], m, s)
      else go_bind (processNATSResult save delete now x serial res (m, s)) (\<lambda>st. Ret (queue, st)))"
proof (cases "GetTransaction (re_RPCID res) m")
  case (Some tx)
  show ?thesis
  proof (cases "result_response serial res tx")
    case (Ret p)
    obtain y e m' s' where R: "RespondAndRetain save delete now x (re_RPCID res) p (m, s) = ((y, e), m', s')"
      by (cases "RespondAndRetain save delete now x (re_RPCID res) p (m, s)") auto
    show ?thesis by (cases e) (simp_all add: handleNATSResult_def processNATSResult_def go_bind_def Some Ret R)
  qed (simp add: handleNATSResult_def processNATSResult_def go_bind_def Some)
qed (simp add: handleNATSResult_def processNATSResult_def go_bind_def)

lemma process_settles:
  assumes inv: "mgr_inv m" and tx: "live m (re_RPCID res) = Some tx" "tx_State tx = TxInFlight" "\<not> tx_HandoffInProgress tx"
    and save: "honest_save save" and x: "x \<noteq> ''''" "live m x = None" and p: "result_response serial res tx = Ret p"
  shows "\<exists>m' s'. processNATSResult save delete now x serial res (m, s) = Ret (m', s') \<and> mgr_inv m' \<and> live m' (re_RPCID res) = None
     \<and> (tx_Method tx \<noteq> ActionUpgrade \<longrightarrow> s' = s \<and> m' = tt now (re_RPCID res) TxCompleted p m)"
proof -
  let ?r = "re_RPCID res"
  have f: "flying m ?r" using tx by (simp add: flying_def)
  have ok: "mgr_inv (snd (Fail now ?r q n)) \<and> live (snd (Fail now ?r q n)) ?r = None"
    if "mgr_inv n" "flying n ?r \<or> live n ?r = None" for q n
    using Fail_keeps [OF that(1)] Fail_removes [OF that(2)] by blast
  note P = processNATSResult_def GetTransaction_def go_bind_def
  consider "tx_Method tx \<noteq> ActionUpgrade" | "tx_Method tx = ActionUpgrade" "upgrade_rejected res"
    | "tx_Method tx = ActionUpgrade" "\<not> upgrade_rejected res" by blast
  then show ?thesis
  proof cases
    case 1
    have "Complete now ?r p m = terminalTransition now ?r TxCompleted p m"
      using tx by (simp add: Complete_def preflight_def)
    then show ?thesis
      using 1 tx p Complete_keeps [OF inv, of now ?r p] Complete_removes [OF f, of now p] by (simp add: P)
  next
    case 2
    with tx p ok [OF inv] f show ?thesis by (simp add: P)
  next
    case 3
    obtain y e m' s' where R: "RespondAndRetain save delete now x ?r p (m, s) = ((y, e), m', s')"
      by (cases "RespondAndRetain save delete now x ?r p (m, s)") auto
    note S = RespondAndRetain_settles [OF inv tx save x R]
    show ?thesis
    proof (cases "e = None \<or> errors_Is (the e) ErrHandoffInProgress")
      case True
      then have "live m' ?r = None" using S by auto
      with True S 3 tx p R show ?thesis by (auto simp: P)
    next
      case False
      with ok [of m'] S 3 tx p R show ?thesis by (auto simp: P)
    qed
  qed
qed

text \<open>C8: the result of the device always settles its request. For a transaction that is in flight, whatever
  the store answers and whether the cloud waits for a reply, processing the result returns with
  the transaction gone and the manager's invariant kept, so the state lock is no longer held by
  it. For every command but an upgrade this is the completed transition with the built response,
  which is what a repetition of the request gets until its time to live is over. A result that
  arrives when the queue is full is not lost: the callback has the effect that the worker would
  have had.\<close>

theorem device_result_settles_request:
  assumes "mgr_inv m" and "live m (re_RPCID res) = Some tx" and "tx_State tx = TxInFlight" and "\<not> tx_HandoffInProgress tx"
    and "honest_save save" and "x \<noteq> ''''" and "live m x = None" and "trimmed_json (re_Payload res)"
  shows "\<exists>p m' s'. result_response serial res tx = Ret p
     \<and> processNATSResult save delete now x serial res (m, s) = Ret (m', s')
     \<and> mgr_inv m' \<and> live m' (re_RPCID res) = None
     \<and> (mg_activeStateTx m' = re_RPCID res \<longrightarrow> mg_activeStateOwner m' = LockOwnedByOperation)
     \<and> (tx_Method tx \<noteq> ActionUpgrade \<longrightarrow> s' = s \<and> m' = tt now (re_RPCID res) TxCompleted p m
          \<and> (tx_RespondToCloud tx \<and> p \<noteq> None \<longrightarrow>
               (\<forall>t. cache_Get t (tx_RequestKey tx) (mg_cache m') =
                  (if t < now + TTLForMethod (mg_cacheTTLConfig m) (tx_Method tx) then p else None))))
     \<and> result_worker save delete now x serial (res # queue, m, s) = Done (Ret (queue, m', s'))
     \<and> handleNATSResult capacity save delete now x serial res (queue, m, s) =
         Ret (if int (length queue) < capacity then (queue @ [res], m, s) else (queue, m', s'))"
proof -
  from result_response_returns [OF assms(8)] obtain p where p: "result_response serial res tx = Ret p" by blast
  from process_settles [OF assms(1-7) p] obtain m' s' where
    P: "processNATSResult save delete now x serial res (m, s) = Ret (m', s')" "mgr_inv m'" "live m' (re_RPCID res) = None"
      "tx_Method tx \<noteq> ActionUpgrade \<longrightarrow> s' = s \<and> m' = tt now (re_RPCID res) TxCompleted p m" by blast
  have "re_RPCID res \<noteq> ''''" using table_inv_tx [OF mgr_invD(1) [OF assms(1)] assms(2)] by (simp add: tx_ok_def)
  then have lock: "mg_activeStateTx m' = re_RPCID res \<longrightarrow> mg_activeStateOwner m' = LockOwnedByOperation"
    using mgr_invD(2) [OF P(2)] P(3) by (auto simp: lock_inv_def split: lock_owner.splits)
  have acc: "accepts m (re_RPCID res) TxCompleted"
    using assms(2-4) flying_accepts [of m "re_RPCID res" TxCompleted] by (auto simp: flying_def is_terminal_def)
  have cache: "\<forall>t. cache_Get t (tx_RequestKey tx) (mg_cache (tt now (re_RPCID res) TxCompleted p m)) =
      (if t < now + TTLForMethod (mg_cacheTTLConfig m) (tx_Method tx) then p else None)"
    if "tx_RespondToCloud tx" "p \<noteq> None"
    using acc that by (auto simp: tt_cache [OF assms(2)] cache_Get_Set)
  have "result_worker save delete now x serial (res # queue, m, s) = Done (Ret (queue, m', s'))"
    using P(1) by (simp add: result_worker_def go_bind_def)
  moreover have "handleNATSResult capacity save delete now x serial res (queue, m, s) =
      Ret (if int (length queue) < capacity then (queue @ [res], m, s) else (queue, m', s'))"
    using P(1) by (simp add: handleNATSResult_eq go_bind_def)
  ultimately show ?thesis using p P lock cache by blast
qed

text \<open>An upgrade that the device started, on a full disk.\<close>

definition upgrade_result :: result_envelope where
  "upgrade_result = \<lparr>re_Version = ''1.0'', re_RPCID = ''r1'', re_Target = ''t'', re_UUID = ''7'', re_CommandType = ''action'',
     re_Action = ''upgrade'', re_Result = ResultSuccess, re_ErrorCode = '''', re_Message = '''', re_Payload = '''', re_Timestamp = 0\<rparr>"

definition full_disk :: "persistent_operation \<Rightarrow> unit \<Rightarrow> go_error option \<times> unit" where
  "full_disk op s = (Some (EOS ''full''), s)"

theorem device_result_settles_request_witness:
  "\<exists>m'. handleNATSResult 0 full_disk (\<lambda>x s. (None, s)) Second ''o1'' ''aabb'' upgrade_result ([], flight_mgr, ()) = Ret ([], m', ())
     \<and> live flight_mgr ''r1'' \<noteq> None \<and> live m' ''r1'' = None"
proof -
  have f: "live flight_mgr (re_RPCID upgrade_result) = Some flight_tx" "tx_State flight_tx = TxInFlight"
    "\<not> tx_HandoffInProgress flight_tx" "honest_save full_disk" "''o1'' \<noteq> ''''" "live flight_mgr ''o1'' = None"
    "trimmed_json (re_Payload upgrade_result)"
    by (simp_all add: upgrade_result_def flight_tx_def upgrade_tx_def new_tx_def flight_mgr_def honest_save_def full_disk_def
        trimmed_json_def)
  from device_result_settles_request [OF flight_inv f, where delete = "\<lambda>x s. (None, s)" and now = Second and serial = "''aabb''"
      and capacity = 0 and queue = "[]" and s = "()"]
  show ?thesis using flight_live(1) by (auto simp: upgrade_result_def)
qed

section \<open>What start-up establishes\<close>

lemma result_bind_Inr: "result_bind r k = Inr y \<longleftrightarrow> (\<exists>x. r = Inr x \<and> k x = Inr y)"
  by (cases r) (simp_all add: result_bind_def)

lemma attempt_or_Ret:
  "attempt_or w r k = Ret (Inr y) \<longleftrightarrow> (\<exists>x. r = Inr x \<and> k x = Ret (Inr y))"
  "attempt_or w r k = Panic \<longleftrightarrow> (\<exists>x. r = Inr x \<and> k x = Panic)"
  by (cases r; simp add: attempt_or_def)+

lemma go_bind_Ret:
  "go_bind r k = Ret y \<longleftrightarrow> (\<exists>x. r = Ret x \<and> k x = Ret y)"
  "go_bind r k = Panic \<longleftrightarrow> r = Panic \<or> (\<exists>x. r = Ret x \<and> k x = Panic)"
  by (cases r; simp add: go_bind_def)+

lemma parseTimeoutEnv_pos: "0 < dflt \<Longrightarrow> parseTimeoutEnv getenv key dflt = Inr d \<Longrightarrow> 0 < d"
  by (auto simp: parseTimeoutEnv_def Let_def split: if_splits option.splits)

lemma parseLimitEnv_pos: "0 < dflt \<Longrightarrow> parseLimitEnv getenv key dflt = Inr n \<Longrightarrow> 0 < n"
  by (auto simp: parseLimitEnv_def Let_def split: if_splits option.splits)

lemma parse_timeouts_pos:
  assumes "parse_timeouts getenv = Inr tm"
  shows "0 < at_Dispatch tm" "0 < at_Configure tm" "0 < at_ActionDefault tm" "0 < at_ActionExtended tm" "0 < at_SweeperTTL tm"
  using assms unfolding parse_timeouts_def result_bind_Inr by (auto dest!: parseTimeoutEnv_pos [rotated])

definition positive_limits :: "payload_limits \<Rightarrow> bool" where
  "positive_limits l \<longleftrightarrow> 0 < pl_Absolute l \<and> 0 < pl_Configure l \<and> 0 < pl_Script l \<and> 0 < pl_CertUpdate l \<and> 0 < pl_Default l"

definition within_absolute :: "payload_limits \<Rightarrow> bool" where
  "within_absolute l \<longleftrightarrow> pl_Configure l \<le> pl_Absolute l \<and> pl_Script l \<le> pl_Absolute l
     \<and> pl_CertUpdate l \<le> pl_Absolute l \<and> pl_Default l \<le> pl_Absolute l"

lemma parse_limits_pos: "parse_limits getenv = Inr l \<Longrightarrow> positive_limits l"
  unfolding parse_limits_def result_bind_Inr positive_limits_def by (auto dest!: parseLimitEnv_pos [rotated])

lemma clamp_methods_ok:
  "within_absolute (clamp_methods l)" "positive_limits l \<Longrightarrow> positive_limits (clamp_methods l)"
  "pl_Absolute (clamp_methods l) = pl_Absolute l"
  by (simp_all add: clamp_methods_def clamp_to_def within_absolute_def positive_limits_def)

lemma clamp_limits_ok:
  assumes "positive_limits l" and "0 < frame"
  shows "positive_limits (clamp_limits frame l)" "within_absolute (clamp_limits frame l)" "pl_Absolute (clamp_limits frame l) \<le> frame"
proof -
  have "positive_limits (l\<lparr>pl_Absolute := frame\<rparr>)" if "positive_limits l" for l using that assms(2) by (simp add: positive_limits_def)
  then show "positive_limits (clamp_limits frame l)"
    using clamp_methods_ok(2) [OF assms(1)] clamp_methods_ok(2) by (simp add: clamp_limits_def Let_def)
  show "within_absolute (clamp_limits frame l)" "pl_Absolute (clamp_limits frame l) \<le> frame"
    using assms(2) by (simp_all add: clamp_limits_def Let_def clamp_methods_ok)
qed

lemma parse_all_pos:
  "parse_all getenv kds = Inr vs \<Longrightarrow> (\<forall>(k, d) \<in> set kds. Second \<le> d) \<Longrightarrow> v \<in> set vs \<Longrightarrow> 0 < v"
proof (induction kds arbitrary: vs)
  case (Cons kd kds)
  obtain k d where kd: "kd = (k, d)" by (cases kd)
  have "Second \<le> d" using Cons.prems(2) kd by simp
  then have pos: "0 < w" if "parseEnvDuration getenv k d = Inr w" for w
    using that by (auto simp: parseEnvDuration_def Let_def pos_imp_zdiv_pos_iff split: if_splits option.splits)
  from Cons.prems(1) kd obtain w ws where w: "parseEnvDuration getenv k d = Inr w" "parse_all getenv kds = Inr ws" "vs = w # ws"
    by (auto split: sum.splits)
  have "0 < v" if "v \<in> set ws" using Cons.IH [OF w(2) _ that] Cons.prems(2) by simp
  with Cons.prems(3) w pos show ?case by auto
qed simp

lemma ttl_positive:
  assumes "LoadCacheTTLConfigFromEnv getenv = Inr ttl"
  shows "0 < settings_TTLForMethod ttl meth"
proof -
  from assms obtain a b c d e f g h i j where r: "parse_all getenv ttl_variables = Inr [a, b, c, d, e, f, g, h, i, j]"
    and t: "ttl = \<lparr>cs_Configure = a, cs_LEDs = b, cs_Reboot = c, cs_RemoteAccess = d, cs_Factory = e, cs_Upgrade = f,
               cs_Certupdate = g, cs_Reenroll = h, cs_Script = i, cs_Default = j\<rparr>"
    by (auto simp: LoadCacheTTLConfigFromEnv_def split: sum.splits list.splits)
  have "\<forall>(k, d) \<in> set ttl_variables. Second \<le> d" by (simp add: ttl_variables_def)
  then have "0 < v" if "v \<in> set [a, b, c, d, e, f, g, h, i, j]" for v by (rule parse_all_pos [OF r _ that])
  then show ?thesis by (simp add: settings_TTLForMethod_def t Let_def)
qed

text \<open>The cache uses the lifetimes of the settings, for method names in lower case. The aliases of \<open>rtty\<close>
  that the settings know are not in the table.\<close>

lemma ttl_config_agrees:
  assumes "\<And>meth. 0 < settings_TTLForMethod ttl meth" and "ToLower meth = meth" and "meth \<notin> {''remoteaccess'', ''remote_access''}"
  shows "TTLForMethod (ttl_config_of ttl) meth = settings_TTLForMethod ttl meth * Second"
proof -
  have "0 < settings_TTLForMethod ttl [] * Second" using assms(1) by simp
  then have d: "0 < cs_Default ttl * Second" by (simp add: settings_TTLForMethod_def ToLower_def)
  have p: "0 < settings_TTLForMethod ttl meth * Second" using assms(1) by simp
  have "ct_MethodTTLs (ttl_config_of ttl) meth =
      (if meth \<in> {''configure'', ''leds'', ''reboot'', ''rtty'', ''factory'', ''upgrade'', ''certupdate'', ''reenroll'', ''script''}
       then Some (settings_TTLForMethod ttl meth * Second) else None)"
    using assms(2) by (auto simp: ttl_config_of_def settings_TTLForMethod_def Let_def)
  moreover have "settings_TTLForMethod ttl meth = cs_Default ttl"
    if "meth \<notin> {''configure'', ''leds'', ''reboot'', ''rtty'', ''factory'', ''upgrade'', ''certupdate'', ''reenroll'', ''script''}"
    using that assms(2,3) by (simp add: settings_TTLForMethod_def)
  ultimately show ?thesis using p d by (auto simp: TTLForMethod_def ttl_config_of_def)
qed

definition valid_settings :: "files_env \<Rightarrow> (string \<Rightarrow> bytes) \<Rightarrow> client_config \<Rightarrow> cache_ttl_settings \<Rightarrow> bool" where
  "valid_settings fe getenv cfg ttl \<longleftrightarrow>
     (\<exists>c0 c. Config_Validate fe c0 = (None, c) \<and> cfg = c\<lparr>cf_Serial := cf_Serial cfg\<rparr>)
     \<and> Config_ValidateSerialBinding fe cfg = None \<and> LoadCacheTTLConfigFromEnv getenv = Inr ttl"

lemma load_settings_valid:
  assumes "load_settings fe getenv path = Inr (cfg, ttl)"
  shows "valid_settings fe getenv cfg ttl"
proof -
  from assms obtain c0 where l: "LoadConfig fe path = Inr c0" by (auto simp: load_settings_def result_bind_Inr)
  obtain err c where v: "Config_Validate fe c0 = (err, c)" by (cases "Config_Validate fe c0")
  from assms l v have e: "err = None" by (cases err) (simp_all add: load_settings_def result_bind_def)
  from assms l v e obtain serial where "cfg = c\<lparr>cf_Serial := serial\<rparr>" "Config_ValidateSerialBinding fe cfg = None"
      "LoadCacheTTLConfigFromEnv getenv = Inr ttl"
    by (auto simp: load_settings_def result_bind_def Let_def split: sum.splits option.splits)
  with v e show ?thesis unfolding valid_settings_def by auto
qed

lemma valid_settings_ok:
  assumes "valid_settings fe getenv cfg ttl"
  shows "0 < cc_MaxFrameSizeBytes (cf_Cloud cfg)" and "queue_ok (cf_Queues cfg)" and "cf_Serial cfg \<noteq> []"
    and "LoadCacheTTLConfigFromEnv getenv = Inr ttl"
proof -
  from assms obtain c0 c where v: "Config_Validate fe c0 = (None, c)" and cfg: "cfg = c\<lparr>cf_Serial := cf_Serial cfg\<rparr>"
    and sb: "Config_ValidateSerialBinding fe cfg = None" and t: "LoadCacheTTLConfigFromEnv getenv = Inr ttl"
    unfolding valid_settings_def by blast
  have same: "cf_Cloud cfg = cf_Cloud c" "cf_Queues cfg = cf_Queues c" by (subst cfg, simp)+
  from v have "\<exists>cl0 q0. cloud_Validate fe cl0 = (None, cf_Cloud c) \<and> queue_Validate q0 = (None, cf_Queues c)"
    by (auto simp: Config_Validate_def split: prod.splits option.splits)
  then show "0 < cc_MaxFrameSizeBytes (cf_Cloud cfg)" "queue_ok (cf_Queues cfg)"
    using cloud_Validate_ok [of fe _ "cf_Cloud c"] queue_Validate_ok [of _ "cf_Queues c"] same by (auto simp: cloud_ok_def)
  show "cf_Serial cfg \<noteq> []" using sb by (auto simp: Config_ValidateSerialBinding_def)
  show "LoadCacheTTLConfigFromEnv getenv = Inr ttl" by (fact t)
qed

lemma trace_upload_url_safe:
  "trace_upload_url getenv = Inr (Some u) \<Longrightarrow> u_Scheme u = ''https'' \<and> u_User u = None"
  by (auto simp: trace_upload_url_def Let_def split: if_splits option.splits)

text \<open>What the parts of a successful start are.\<close>

lemma initializeComponents_parts:
  assumes "initializeComponents ho cfg ttl env st dsk = Ret (Inr (comps, env', st', dsk'))"
  obtains tm l0 u sch m nres links where "parse_timeouts (ho_getenv ho) = Inr tm" "parse_limits (ho_getenv ho) = Inr l0"
    "trace_upload_url (ho_getenv ho) = Inr u"
    "NewPriorityScheduler (qc_WSWriterCapacity (cf_Queues cfg)) (qc_EmergencyCapacity (cf_Queues cfg)) = Ret sch"
    "NewRequestManager (ho_bootFile ho) (at_Dispatch tm) (ttl_config_of ttl) (Some NewTransactionCache) (Some sch) True
       (qc_MaxConcurrentRequests (cf_Queues cfg)) (at_SweeperTTL tm) 1000 = Inr m"
    "NewNATSClient (ho_files ho) (ho_agentcoreNew ho) (ho_agentStart ho) (nc_Target (cf_NATS cfg)) (cf_NATS cfg) = (nres, links)"
    "ap_ReqManager comps = m" "ap_Timeouts comps = tm" "ap_Limits comps = clamp_limits (cc_MaxFrameSizeBytes (cf_Cloud cfg)) l0"
    "ap_NatsClient comps = (case nres of Inl e \<Rightarrow> None | Inr nc \<Rightarrow> Some nc)" "st' = fold UpdateNATSLink links st"
    "env' = (SetLimits (pl_Configure (ap_Limits comps)) (pl_CertUpdate (ap_Limits comps)) (pl_Script (ap_Limits comps)) env)\<lparr>ce_AllowedTraceUploadURL := u\<rparr>"
proof -
  obtain nres links where n: "NewNATSClient (ho_files ho) (ho_agentcoreNew ho) (ho_agentStart ho) (nc_Target (cf_NATS cfg)) (cf_NATS cfg) = (nres, links)"
    by (cases "NewNATSClient (ho_files ho) (ho_agentcoreNew ho) (ho_agentStart ho) (nc_Target (cf_NATS cfg)) (cf_NATS cfg)")
  show thesis
    using assms that n unfolding initializeComponents_def Let_def attempt_or_Ret go_bind_Ret n prod.case by fastforce
qed

lemma startup_never_panics:
  assumes "queue_ok (cf_Queues cfg)"
  shows "initializeComponents ho cfg ttl env st dsk \<noteq> Panic"
proof
  assume "initializeComponents ho cfg ttl env st dsk = Panic"
  then show False
    using assms unfolding initializeComponents_def Let_def attempt_or_Ret go_bind_Ret
    by (auto simp: queue_ok_def NewPriorityScheduler_def NewTelemetryRingBuffer_def attempt_or_Ret split: prod.splits if_splits)
qed

end
