(* ===== verification/Spec2Isabelle.thy ===== *)
theory Spec2Isabelle
  imports Scheduler Backpressure Store_Props Wiring
begin

text \<open>
  Verification of the OLG uCentral client (\<open>src/\<close>), a daemon that takes JSON-RPC commands from a
  cloud controller over a WebSocket and carries them out on a network device over a local NATS bus.

  \<^bold>\<open>The program.\<close> A frame of the cloud is read by the WebSocket client (\<open>pkg/websocket\<close>) and given to the
  command handler (\<open>cmd/ucentral-client/handler.go\<close>), which checks it against the contracts
  (\<open>pkg/contracts\<close>) and registers it as a transaction at the request manager (\<open>pkg/reqmgr\<close>). The job it
  starts publishes the command through the NATS client (\<open>pkg/nats\<close>). The result of the device comes
  back through \<open>main.go\<close>, ends the transaction, and the response is pushed to the outbound scheduler
  (\<open>pkg/queues\<close>), from which the writer of the WebSocket client sends it. State-changing commands
  exclude each other by one state lock. An upgrade outlives its request: the lock is handed over to
  a background operation that is recorded on disk and recovered after a restart.
  \<open>pkg/config\<close> reads and checks the configuration.

  \<^bold>\<open>Theories.\<close>

  \<^item> \<open>Uc_Prelude\<close>: the types of Go that are used (bytes, errors, mutexes, time), collections of
    simplification rules, general lemmas. \<open>Go_Text\<close>, \<open>Go_Json\<close>, \<open>Go_Value\<close>, \<open>Go_Time\<close>, \<open>Go_Url\<close>,
    \<open>Go_Base64\<close>: what the client uses of Go's standard library, from its sources: text functions, the
    JSON scanner, decoder and encoder, untyped JSON values with their float64 numbers, RFC 3339
    times, URLs and addresses, base64 and byte streams. \<open>Json_Codec\<close>: that what is marshalled is read
    back, which properties decoding keeps, and the rules by which \<open>simp\<close> runs the decoder.

  \<^item> \<open>Buffers\<close>, \<open>Scheduler\<close>, \<open>Backpressure\<close> (\<open>pkg/queues\<close>): ring buffer, dispatch buffer, result queue,
    priority scheduler, state coalescer, hysteresis monitor. The contracts are the locales
    \<open>fifo_buffer\<close> with its extensions \<open>rejecting_fifo\<close> and \<open>dropping_fifo\<close>, \<open>outbound_scheduler\<close> and
    \<open>utilization_provider\<close>; the queues of the code are their interpretations. Shown: what is kept and
    what is dropped, order within a priority, that a flood of the highest priority does not starve
    the lower ones, throttling.

  \<^item> \<open>Transactions\<close>, \<open>Request_Key\<close>, \<open>Op_Store\<close>, \<open>Manager\<close> (\<open>pkg/reqmgr\<close>): the lifecycle and the response cache,
    the canonical key of a request, the operation store on disk, the request manager. A call that
    holds the mutex throughout is one function on the record \<open>manager\<close>; a call that drops it around a
    disk access is split into its locked sections. \<open>Manager_Inv\<close>: the invariant \<open>mgr_inv\<close> (tables, lock,
    timers) and that every section keeps it. \<open>Manager_Sys\<close>: all calls interleaved at the granularity of
    sections and disk accesses, as a step relation, with its reachable states. \<open>Manager_Props\<close>: lock
    discipline, exclusion, replay of repeated requests, time-outs, handoff, restart. \<open>Store_Props\<close>: the
    store against the locale \<open>operation_store\<close> (interpreted by the disk), atomicity of \<open>Save\<close> under any
    failing system call, and recovery after a crash.

  \<^item> \<open>Enums\<close>, \<open>Jsonrpc\<close>, \<open>Rpc_Requests\<close>, \<open>Device_Result\<close>, \<open>Envelopes\<close> (\<open>pkg/contracts\<close>): the vocabulary, the
    JSON-RPC layer, one record with decoder and \<open>Validate\<close> per request, the result objects, the
    payloads on the bus. \<open>Config\<close> (\<open>pkg/config\<close>) and \<open>Nats_Client\<close> (\<open>pkg/nats\<close>): loading and validation,
    submission of commands, subscription, capabilities.

  \<^item> \<open>Handler\<close> and \<open>Handler_Props\<close> (\<open>handler.go\<close>): \<open>HandleFrame\<close> with every reply, \<open>executeTransaction\<close>
    with the places of the dispatch buffer; a frame starts a job exactly when it passes every
    check, notifications are silent, an admitted request is published or undone.

  \<^item> \<open>Ws_Client\<close> and \<open>Ws_Writer\<close> (\<open>websocket/client.go\<close>): reconnect loop, handshake and reader loop as functions
    of what the environment does in each turn; fetcher and writer goroutines of successive sessions
    as an interleaved step relation. Shown: the events of the reconnect loop are those of the relation
    \<open>paced\<close> (when it waits, how long, what it reports, why it gives up), only the transport and
    oversized messages end a session, delivery exactly once in order, responses only in their own
    session.

  \<^item> \<open>Wiring\<close> (\<open>main.go\<close>): environment variables and limits, \<open>initializeComponents\<close>, the subscription and its
    retry, \<open>processNATSResult\<close> and \<open>handleNATSResult\<close>; the result of the device always settles its request.

  This theory holds what spans all components: the state after start-up, and the life of one request
  from the cloud to the device and back.

  \<^bold>\<open>Parameters.\<close> Code that is not under \<open>src/\<close> is an argument: \<open>uuid_ok\<close> (\<open>uuid.Parse\<close>) and the fresh
  identifiers of \<open>uuid.New\<close>; the answers of the agentcore library; the generated uCentral schema
  validator and the zlib reader (\<open>contracts_env\<close>); files and the TLS, X.509, JWT and NKey parsers
  (\<open>files_env\<close>); the outcome of every system call of the store; socket, dialer and random jitter; the
  printed text of errors (\<open>err_text\<close>); the clock; the choice that \<open>select\<close> makes. Hypotheses on them are
  only that identifiers are fresh, that jitter is within the back-off, and that a store does not
  return the manager's own error.

  \<^bold>\<open>Bounds.\<close> Recursion is total throughout: loops over data recurse on it, decoders on the length of the
  rest, and loops that wait for the environment on the list of what it does, so that a statement
  about every list is one about every finite run. The validation of a compressed configuration
  recurses on nested content and is shown to end. Generations are 64-bit words; durations that are
  products of settings wrap as \<open>int64\<close>. Time is an integer in nanoseconds.

  \<^bold>\<open>Not modelled.\<close> Signals, flags and the \<open>.env\<close> file, log output, the launching of goroutines and the final
  calls of \<open>Close\<close>, since they only call what is modelled or leave the process; \<open>godotenv\<close>, \<open>gorilla\<close>
  and \<open>agentcore\<close>, which are third-party; response structures that only the tests build; the
  operations of the NATS client that only return a not-implemented error. Case folding is that of
  ASCII with the two exceptions of \<open>encoding/json\<close>; the fraction in \<open>time.ParseDuration\<close> is exact where
  Go rounds its last nanosecond; operation identifiers contain no path separator, as \<open>uuid.Parse\<close>
  guarantees.
\<close>

section \<open>The state after start-up\<close>

text \<open>The state of the process after a successful start, as far as the other components rely on it.\<close>

definition started_ok :: "client_config \<Rightarrow> cache_ttl_settings \<Rightarrow> contracts_env \<Rightarrow> handler_config \<Rightarrow> 'h frame_handler \<Rightarrow> bool" where
  "started_ok cfg ttl env hc h \<longleftrightarrow>
     mgr_inv (fh_reqMgr h) \<and> txs (fh_reqMgr h) = fmempty \<and> mg_stateLock (fh_reqMgr h) = MUnlocked
     \<and> 0 < mg_maxConcurrentRequests (fh_reqMgr h) \<and> 0 < mg_sweeperTTL (fh_reqMgr h) \<and> 0 < hc_dispatchCapacity hc
     \<and> list_all (\<lambda>n. 0 < n \<and> n \<le> hc_payloadLimitAbsolute hc)
         [hc_payloadLimitConfigure hc, hc_payloadLimitScript hc, hc_payloadLimitCertUpdate hc, hc_payloadLimitDefault hc]
     \<and> hc_payloadLimitAbsolute hc \<le> cc_MaxFrameSizeBytes (cf_Cloud cfg)
     \<and> getConfigureLimit env = hc_payloadLimitConfigure hc \<and> getCertUpdateLimit env = hc_payloadLimitCertUpdate hc
     \<and> getScriptLimit env = hc_payloadLimitScript hc
     \<and> list_all (\<lambda>d. 0 < d)
         [hc_timeoutDispatch hc, hc_timeoutConfigure hc, hc_timeoutActionDefault hc, hc_timeoutActionExtended hc]
     \<and> (\<forall>u. ce_AllowedTraceUploadURL env = Some u \<longrightarrow> u_Scheme u = ''https'' \<and> u_User u = None)
     \<and> (\<forall>meth. ToLower meth = meth \<and> meth \<notin> {''remoteaccess'', ''remote_access''} \<longrightarrow>
          TTLForMethod (mg_cacheTTLConfig (fh_reqMgr h)) meth = settings_TTLForMethod ttl meth * Second
          \<and> 0 < settings_TTLForMethod ttl meth)
     \<and> hc_serial hc \<noteq> [] \<and> (fh_natsClient h \<noteq> None \<longleftrightarrow> st_natsLink (fh_stateMgr h) = LinkConnected)"

text \<open>C20: what \<open>main\<close> loads has passed validation (\<open>load_settings_valid\<close>). On such settings start-up never
  panics, and when it succeeds the process
  starts in a state in which the other results hold: the manager's invariant, no transaction and
  a free lock; positive capacities and time-outs; for every kind of request a positive size limit
  below the absolute one, which fits into a frame, the same limit in the handler and in the
  validation; the lifetimes of the settings in the response cache; an upload URL that is secure;
  a serial; and a NATS link that counts as connected exactly when there is a client.\<close>

theorem startup_establishes_invariants:
  assumes "valid_settings (ho_files ho) (ho_getenv ho) cfg ttl"
  shows "initializeComponents ho cfg ttl env initial_links dsk \<noteq> Panic
     \<and> (\<forall>comps env' st dsk'. initializeComponents ho cfg ttl env initial_links dsk = Ret (Inr (comps, env', st, dsk')) \<longrightarrow>
          started_ok cfg ttl env' (handler_config_of cfg comps) (handler_of st comps))"
proof -
  note L = valid_settings_ok [OF assms]
  have "started_ok cfg ttl env' (handler_config_of cfg comps) (handler_of st comps)"
    if init: "initializeComponents ho cfg ttl env initial_links dsk = Ret (Inr (comps, env', st, dsk'))" for comps env' st dsk'
  proof (rule initializeComponents_parts [OF init], goal_cases)
    case (1 tm l0 u sch m nres links)
    let ?l = "ap_Limits comps"
    have lim: "positive_limits ?l" "within_absolute ?l" "pl_Absolute ?l \<le> cc_MaxFrameSizeBytes (cf_Cloud cfg)"
      using clamp_limits_ok [OF parse_limits_pos [OF 1(2)] L(1)] 1(9) by simp_all
    have m: "mgr_inv m"
      by (rule NewRequestManager_inv [OF 1(5)]) (use sched_inv_new [OF 1(4)] in \<open>simp_all add: NewTransactionCache_def\<close>)
    have mf: "txs m = fmempty" "mg_stateLock m = MUnlocked" "mg_maxConcurrentRequests m = qc_MaxConcurrentRequests (cf_Queues cfg)"
      "mg_sweeperTTL m = at_SweeperTTL tm" "mg_cacheTTLConfig m = ttl_config_of ttl"
      using 1(5) by (auto simp: NewRequestManager_def)
    have nats: "st_natsLink (fold UpdateNATSLink links initial_links) = (case nres of Inl e \<Rightarrow> LinkConnecting | Inr nc \<Rightarrow> LinkConnected)"
      using 1(6) by (auto simp: NewNATSClient_def UpdateNATSLink_def initial_links_def split: prod.splits option.splits sum.splits)
    have ttl: "TTLForMethod (ttl_config_of ttl) meth = settings_TTLForMethod ttl meth * Second"
      if "ToLower meth = meth" "meth \<notin> {''remoteaccess'', ''remote_access''}" for meth
      using ttl_config_agrees [OF ttl_positive [OF L(4)] that] .
    have url: "u_Scheme w = ''https'' \<and> u_User w = None" if "u = Some w" for w
      using trace_upload_url_safe 1(3) that by simp
    show ?case
      unfolding started_ok_def handler_of_def handler_config_of_def
      using lim m mf parse_timeouts_pos [OF 1(1)] L(2,3) ttl ttl_positive [OF L(4)] url
      by (simp add: 1(7,8,10-12) nats positive_limits_def within_absolute_def queue_ok_def SetLimits_def
          getConfigureLimit_def getCertUpdateLimit_def getScriptLimit_def split: sum.split)
  qed
  with startup_never_panics [OF L(2)] show ?thesis by blast
qed

text \<open>A host with the files of the example configuration, whose paths are their content.\<close>

definition demo_host :: "unit host_env" where
  "demo_host = \<lparr>ho_files = demo_files,
     ho_getenv = (\<lambda>k. if k = ''OW_CAPABILITIES_FILE'' then demo_capabilities else []), ho_bootFile = Inr ''b'',
     ho_mkdirBase = None, ho_mkdirQuarantine = None, ho_agentcoreNew = (\<lambda>_. Inr ()), ho_agentStart = (\<lambda>_. None)\<rparr>"

lemma Config_Validate_same:
  "Config_Validate fe c = (None, c') \<Longrightarrow> cf_Serial c' = cf_Serial c \<and> cc_TLS (cf_Cloud c') = cc_TLS (cf_Cloud c)"
  by (auto simp: Config_Validate_def cloud_Validate_def Let_def split: prod.splits option.splits if_splits)

lemma demo_settings: "\<exists>cfg ttl. valid_settings (ho_files demo_host) (ho_getenv demo_host) cfg ttl"
proof -
  obtain c where v: "Config_Validate demo_files demo_config = (None, c)" using demo_config_valid by (metis prod.collapse)
  have norm: "norm_name ''aabb'' = ''aabb''" "norm_name ''AABB'' = ''aabb''" by code_simp+
  have "Config_ValidateSerialBinding demo_files c = None"
    using Config_Validate_same [OF v]
    by (simp add: Config_ValidateSerialBinding_def tls_ValidateSerialBinding_def demo_files_def demo_config_def norm)
  moreover have "\<exists>ttl. LoadCacheTTLConfigFromEnv (ho_getenv demo_host) = Inr ttl"
    by (simp add: LoadCacheTTLConfigFromEnv_def ttl_variables_def parseEnvDuration_def demo_host_def)
  moreover have "\<exists>c0 c1. Config_Validate demo_files c0 = (None, c1) \<and> c = c1\<lparr>cf_Serial := cf_Serial c\<rparr>"
    using v by (intro exI [of _ demo_config] exI [of _ c]) simp
  ultimately show ?thesis unfolding valid_settings_def by (auto simp: demo_host_def)
qed

lemma demo_capabilities_loaded: "\<exists>c. NewCapabilityCache demo_files demo_capabilities = Inr c"
proof -
  have "json_Unmarshal metadata_fields demo_capabilities zero_version =
      (\<lparr>ov_Major = Some 1, ov_Minor = Some 2, ov_Patch = Some 3\<rparr>, False)"
    by (simp add: json_eval demo_capabilities_def metadata_fields_def version_fields_def dec_object_def zero_version_def
        del: dec_scan.simps(2))
  then show ?thesis by (simp add: NewCapabilityCache_def LoadFromDisk_def demo_files_def)
qed

lemma demo_env_parsed:
  "\<exists>tm. parse_timeouts (ho_getenv demo_host) = Inr tm" "\<exists>l. parse_limits (ho_getenv demo_host) = Inr l"
  "trace_upload_url (ho_getenv demo_host) = Inr None"
  "env_or (ho_getenv demo_host) ''OW_CAPABILITIES_FILE'' dflt = demo_capabilities"
  by (simp_all add: parse_timeouts_def parse_limits_def trace_upload_url_def parseTimeoutEnv_def parseLimitEnv_def result_bind_def
      demo_host_def env_or_def demo_capabilities_def)

theorem startup_establishes_invariants_witness:
  "\<exists>cfg ttl comps env' st dsk'.
     initializeComponents demo_host cfg ttl demo_env initial_links \<lparr>dk_files = fmempty, dk_quarantine = fmempty\<rparr>
       = Ret (Inr (comps, env', st, dsk'))
     \<and> started_ok cfg ttl env' (handler_config_of cfg comps) (handler_of st comps)"
proof -
  from demo_settings obtain cfg ttl where L: "valid_settings (ho_files demo_host) (ho_getenv demo_host) cfg ttl" by blast
  note q = valid_settings_ok(2) [OF L]
  from demo_env_parsed(1,2) demo_capabilities_loaded obtain tm l c where
    e: "parse_timeouts (ho_getenv demo_host) = Inr tm" "parse_limits (ho_getenv demo_host) = Inr l"
      "NewCapabilityCache demo_files demo_capabilities = Inr c" by blast
  have "ho_files demo_host = demo_files" "ho_mkdirBase demo_host = None" "ho_mkdirQuarantine demo_host = None"
    by (simp_all add: demo_host_def)
  then have "\<exists>comps env' st dsk'. initializeComponents demo_host cfg ttl demo_env initial_links \<lparr>dk_files = fmempty, dk_quarantine = fmempty\<rparr>
      = Ret (Inr (comps, env', st, dsk'))"
    using q e demo_env_parsed(3,4)
    by (simp add: initializeComponents_def attempt_or_def go_bind_def Let_def queue_ok_def NewPriorityScheduler_def NewTelemetryRingBuffer_def
        NewDiskOperationStore_def NewRequestManager_def NewWSClient_def case_prod_unfold)
  with startup_establishes_invariants [OF L] show ?thesis by blast
qed

section \<open>One request from the cloud to the device and back\<close>

text \<open>A frame that is admitted once reaches the admission whenever the link states are the same.\<close>

lemma admitted_frame_again:
  assumes run: "HandleFrame env err_text hc now rpcID frame h = Ret (d, [j], h1)" and same: "fh_stateMgr h' = fh_stateMgr h"
  shows "\<exists>(req :: jsonrpc_request) sc u.
     CreateTransaction now rpcID (if_SessionID frame) (rq_ID req) (\<not> is_notification_id (rq_ID req)) (rq_Method req)
       (getTransactionTimeout hc (rq_Method req) (rq_Params req)) sc (fh_reqMgr h) = (Inr (jb_tx j), fh_reqMgr h1)
     \<and> HandleFrame env err_text hc now' rpcID' frame h' =
         admit err_text hc now' rpcID' (if_SessionID frame) req (jb_command j) (jb_action j) sc u h'"
proof -
  from HandleFrame_admitted [OF run] obtain req :: jsonrpc_request and sc m where
    p: "json_Unmarshal request_fields (if_Payload frame) zero_request = (req, False)" "Request_Validate req = None"
      "int (length (if_Payload frame)) \<le> hc_payloadLimitAbsolute hc"
      "int (length (if_Payload frame)) \<le> getMethodPayloadLimit hc (rq_Method req)"
      "getCommandAction (rq_Method req) = (jb_command j, jb_action j, sc)" "jb_command j \<noteq> ''''" "jb_params j = rq_Params req"
      "validate_params env (jb_command j) (jb_action j) (jb_params j) = Inr (jb_uuid j)"
      "is_notification_id (rq_ID req) \<longrightarrow> \<not> sc \<and> rq_Method req \<noteq> ActionRTTY"
      "GetSystemState (fh_stateMgr h) \<noteq> StateNATSDegraded"
    and ct: "CreateTransaction now rpcID (if_SessionID frame) (rq_ID req) (\<not> is_notification_id (rq_ID req)) (rq_Method req)
            (getTransactionTimeout hc (rq_Method req) (rq_Params req)) sc (fh_reqMgr h) = (Inr (jb_tx j), m)"
      "h1 = h\<lparr>fh_reqMgr := m\<rparr>"
    unfolding admitted_def by blast
  have "HandleFrame env err_text hc now' rpcID' frame h' = dispatch_request env err_text hc now' rpcID' (if_SessionID frame) req h'"
    using p(1,3,4) meta_method [of "if_Payload frame"] by (simp add: HandleFrame_def Let_def)
  also have "\<dots> = admit err_text hc now' rpcID' (if_SessionID frame) req (jb_command j) (jb_action j) sc (jb_uuid j) h'"
    using p same by (auto simp: dispatch_request_def Let_def)
  finally show ?thesis using ct by auto
qed

text \<open>A request whose response is cached is answered from the cache.\<close>

lemma cached_request_replayed:
  assumes "CreateTransaction now r sess cid respond meth timeout sc m = (Inr tx, m1)"
    and "cache_Get t (tx_RequestKey tx) (mg_cache m') = Some p"
  shows "CreateTransaction t r' sess cid respond meth timeout' sc m' = (Inl (CachedResponseError p), m')"
proof -
  from CreateTransaction_admitted [OF assms(1)] have k: "CanonicalRequestKey sess cid = Inr (tx_RequestKey tx)" by (auto simp: new_tx_def)
  with assms show ?thesis by (auto simp: CreateTransaction_def Let_def split: if_splits)
qed

lemma in_flight_same:
  "same_identity tx (in_flight now tx)" "tx_State (in_flight now tx) = TxInFlight"
  "tx_HandoffInProgress (in_flight now tx) = tx_HandoffInProgress tx" "tx_Method (in_flight now tx) = tx_Method tx"
  "tx_RequestKey (in_flight now tx) = tx_RequestKey tx" "tx_RespondToCloud (in_flight now tx) = tx_RespondToCloud tx"
  "result_response serial res (in_flight now tx) = result_response serial res tx"
  by (simp_all add: in_flight_def same_identity_def is_terminal_def result_response_def cong: if_cong)

lemma in_flight_pushes:
  "mg_scheduler (push_response (in_flight now tx) p (set_tx r t m)) = mg_scheduler (push_response tx p m)"
  by (auto simp: push_response_def in_flight_def set_tx_def split: option.splits sum.splits)

text \<open>C5: a request is executed once, from end to end. A frame of the cloud that starts a job, whose job was
  dispatched and whose device answered (any command but an upgrade, which is retained instead)
  has handed exactly one command to the agent library; the answer ends the transaction, gives back
  everything the request held (its table entries and the state lock), and sends the response to
  the session of the request. Until the lifetime of the response is over, the same frame is
  answered with the same bytes: nothing is started and the state of the manager does not change.\<close>

theorem request_is_executed_once:
  assumes run: "HandleFrame env err_text hc now rpcID frame h = Ret (d, [j], h1)"
    and inv: "mgr_inv (fh_reqMgr h)" and fresh: "fresh_id (fh_reqMgr h) rpcID"
    and exec: "executeTransaction env err_text agent_c agent_a hc dctx now1 j h1 = (h2, cs, as)"
    and sent: "live (fh_reqMgr h2) rpcID \<noteq> None"
    and res: "re_RPCID res = rpcID" "result_response serial res (jb_tx j) = Ret (Some p)"
    and tx: "tx_Method (jb_tx j) \<noteq> ActionUpgrade" "tx_RespondToCloud (jb_tx j)"
    and ttl: "t < now2 + TTLForMethod (mg_cacheTTLConfig (fh_reqMgr h)) (tx_Method (jb_tx j))"
  shows "length cs + length as = 1
     \<and> (\<exists>m. processNATSResult save delete now2 x serial res (fh_reqMgr h2, s) = Ret (m, s)
         \<and> released (fh_reqMgr h) m \<and> mg_scheduler m = mg_scheduler (push_response (jb_tx j) (Some p) (fh_reqMgr h1))
         \<and> HandleFrame env err_text hc t rpcID' frame (h2\<lparr>fh_reqMgr := m\<rparr>) =
             Ret (FrameAccepted, [], h2\<lparr>fh_reqMgr := push_highest (if_SessionID frame) p m\<rparr>))"
proof -
  note adm = HandleFrame_admitted [OF run]
  note l = admitted_live [OF adm inv fresh]
  let ?tx = "in_flight now1 (jb_tx j)" and ?m = "set_tx rpcID (in_flight now1 (jb_tx j)) (fh_reqMgr h1)"
  have "\<not> undone (fh_reqMgr h) (fh_reqMgr h2)" using sent fresh by (auto simp: undone_def released_def fresh_id_def)
  with execute_settles [OF run inv fresh exec] have h2: "h2 = h1\<lparr>fh_reqMgr := ?m\<rparr>" and one: "length cs + length as = 1" by blast+
  have lt: "live ?m rpcID = Some ?tx" by simp
  have acc: "accepts ?m rpcID TxCompleted"
    by (simp add: accepts_def is_terminal_def validateTransition_None in_flight_same)
  define m where "m = tt now2 rpcID TxCompleted (Some p) ?m"
  have "processNATSResult save delete now2 x serial res (fh_reqMgr h2, s) = Ret (m, s)"
    using res tx l(5) by (simp add: h2 processNATSResult_def GetTransaction_def go_bind_def in_flight_same Complete_def preflight_def m_def)
  moreover have "released (fh_reqMgr h) m"
    unfolding m_def by (rule ended_admission_released(1) [OF adm inv fresh in_flight_same(1) acc])
  moreover have "mg_scheduler m = mg_scheduler (push_response (jb_tx j) (Some p) (fh_reqMgr h1))"
    unfolding m_def tt_pushes [OF acc lt] by (rule in_flight_pushes)
  moreover have "HandleFrame env err_text hc t rpcID' frame (h2\<lparr>fh_reqMgr := m\<rparr>) =
      Ret (FrameAccepted, [], h2\<lparr>fh_reqMgr := push_highest (if_SessionID frame) p m\<rparr>)"
  proof -
    have "mg_cacheTTLConfig ?m = mg_cacheTTLConfig (fh_reqMgr h)"
      using ended_admission_released(3) [OF adm inv fresh in_flight_same(1) acc] by (simp add: set_tx_def)
    then have hit: "cache_Get t (tx_RequestKey (jb_tx j)) (mg_cache (fh_reqMgr (h2\<lparr>fh_reqMgr := m\<rparr>))) = Some p"
      using acc tx ttl by (simp add: m_def tt_cache [OF lt] cache_Get_Set in_flight_same)
    have "fh_stateMgr (h2\<lparr>fh_reqMgr := m\<rparr>) = fh_stateMgr h" using adm h2 by (auto simp: admitted_def)
    from admitted_frame_again [OF run this, of t rpcID'] obtain req :: jsonrpc_request and sc u where
      ct: "CreateTransaction now rpcID (if_SessionID frame) (rq_ID req) (\<not> is_notification_id (rq_ID req)) (rq_Method req)
          (getTransactionTimeout hc (rq_Method req) (rq_Params req)) sc (fh_reqMgr h) = (Inr (jb_tx j), fh_reqMgr h1)"
      and hf: "HandleFrame env err_text hc t rpcID' frame (h2\<lparr>fh_reqMgr := m\<rparr>) =
          admit err_text hc t rpcID' (if_SessionID frame) req (jb_command j) (jb_action j) sc u (h2\<lparr>fh_reqMgr := m\<rparr>)"
      by blast
    show ?thesis unfolding hf admit_refused [OF cached_request_replayed [OF ct hit]] by simp
  qed
  ultimately show ?thesis using one by blast
qed

text \<open>A reboot: admitted at 0, dispatched at 2 s, answered at 9 s, asked for again at 20 s.\<close>

definition reboot_result :: result_envelope where
  "reboot_result = \<lparr>re_Version = ''1.0'', re_RPCID = ''r1'', re_Target = ''vyos'', re_UUID = ''0'', re_CommandType = ''reboot'',
     re_Action = ''reboot'', re_Result = ResultSuccess, re_ErrorCode = '''', re_Message = '''', re_Payload = '''', re_Timestamp = 0\<rparr>"

theorem request_is_executed_once_witness:
  "\<exists>p m h2 cmd. executeTransaction demo_env (\<lambda>_. []) (\<lambda>_ _. None) (\<lambda>_ _. None) demo_hc (Some None) (2 * Second) reboot_job
       (demo_handler\<lparr>fh_reqMgr := reboot_mgr\<rparr>) = (h2, [], [cmd])
     \<and> processNATSResult full_disk (\<lambda>x s. (None, s)) (9 * Second) ''o1'' ''aabb'' reboot_result (fh_reqMgr h2, ()) = Ret (m, ())
     \<and> HandleFrame demo_env (\<lambda>_. []) demo_hc (20 * Second) ''r2'' reboot_frame (h2\<lparr>fh_reqMgr := m\<rparr>) =
         Ret (FrameAccepted, [], h2\<lparr>fh_reqMgr := push_highest ''s'' p m\<rparr>)"
proof -
  let ?h1 = "demo_handler\<lparr>fh_reqMgr := reboot_mgr\<rparr>"
  have target: "ValidateNATSTarget ''vyos'' = None" by code_simp
  have sent: "executeTransaction demo_env (\<lambda>_. []) (\<lambda>_ _. None) (\<lambda>_ _. None) demo_hc (Some None) (2 * Second) reboot_job ?h1 =
      (?h1\<lparr>fh_reqMgr := set_tx ''r1'' (in_flight (2 * Second) reboot_tx) reboot_mgr\<rparr>, [],
       [\<lparr>ac_Version = EnvelopeVersion, ac_RPCID = ''r1'', ac_Target = ''vyos'', ac_CommandType = CommandReboot, ac_Action = ActionReboot,
         ac_Payload = rq_Params reboot_rpc, ac_Timestamp = 2 * Second\<rparr>])"
    using admitted_published [OF reboot_handled reboot_fresh, of demo_client "()" "\<lambda>_ _. None" "\<lambda>_ _. None" "2 * Second"] target
    by (simp add: demo_hc_def demo_handler_def demo_client_def reboot_job_def)
  have "(case result_response ''aabb'' reboot_result reboot_tx of Ret (Some p) \<Rightarrow> True | _ \<Rightarrow> False)" by code_simp
  then obtain p where p: "result_response ''aabb'' reboot_result (jb_tx reboot_job) = Ret (Some p)"
    by (auto simp: reboot_job_def split: go.splits option.splits)
  have t: "re_RPCID reboot_result = ''r1''" "tx_Method (jb_tx reboot_job) \<noteq> ActionUpgrade" "tx_RespondToCloud (jb_tx reboot_job)"
    "20 * Second < 9 * Second + TTLForMethod (mg_cacheTTLConfig (fh_reqMgr demo_handler)) (tx_Method (jb_tx reboot_job))"
    "if_SessionID reboot_frame = ''s''"
    by (simp_all add: reboot_result_def reboot_job_def reboot_tx_def new_tx_def demo_handler_def boot_mgr_def TTLForMethod_def reboot_frame_def)
  from request_is_executed_once [OF reboot_handled reboot_fresh sent _ t(1) p t(2-4), of full_disk "\<lambda>x s. (None, s)" "''o1''" "()" "''r2''"] sent t(5)
  show ?thesis by auto
qed

end
